(* ===== verification/JS_Prelude.thy ===== *)
theory JS_Prelude
  imports Main "HOL-Library.AList"
begin

text \<open>
  The part of JavaScript the web client of Nonoka IM relies on, shared by every component theory.

  \<^item> Strings are lists of UTF-16 code units (\<open>jsstring\<close>); \<open>js ''abc''\<close> is the literal \<open>"abc"\<close>.
  \<^item> Integers that crossed the HTTP/JSON boundary are \<open>jsnum\<close>: the proto-JSON mapping prints 64-bit
    integers as decimal strings, while the realtime path delivers JavaScript numbers, and the client
    keeps both kinds in the same fields. \<open>Number\<close> is the coercion; strict equality \<open>===\<close> is HOL
    equality on \<open>jsnum\<close>, which tells the two kinds apart as JavaScript does.
  \<^item> A JavaScript \<open>Map\<close> iterates in insertion order: it is an association list, \<open>Map.get\<close> is
    \<open>map_of\<close> and \<open>Map.set\<close> is \<open>AList.update\<close> (in place for a known key, at the end for a new one).
  \<^item> The array methods the client uses: \<open>findIndex\<close>, \<open>slice\<close>; \<open>sort\<close> is stable, hence \<open>sort_key\<close>.

  The locale \<open>keyed_map\<close> is the interface of \<open>Map\<close> the stores use; it is interpreted on the
  association lists at the end.
\<close>

named_theorems js_eval \<open>unfolding rules that evaluate JavaScript primitives on concrete input\<close>

section \<open>Strings\<close>

type_synonym jschar = nat
type_synonym jsstring = "jschar list"

definition js :: "string \<Rightarrow> jsstring" where
  "js s = map of_char s"

definition startsWith :: "jsstring \<Rightarrow> jsstring \<Rightarrow> bool" where
  "startsWith s p \<longleftrightarrow> take (length p) s = p"

text \<open>White space and line terminators of ECMAScript: what \<open>\s\<close> matches and \<open>trim\<close> removes.\<close>

definition isSpace :: "jschar \<Rightarrow> bool" where
  "isSpace c \<longleftrightarrow> (9 \<le> c \<and> c \<le> 13) \<or> c = 32 \<or> c = 160 \<or> c = 5760 \<or> (8192 \<le> c \<and> c \<le> 8202)
     \<or> c = 8232 \<or> c = 8233 \<or> c = 8239 \<or> c = 8287 \<or> c = 12288 \<or> c = 65279"

definition trim :: "jsstring \<Rightarrow> jsstring" where
  "trim s = rev (dropWhile isSpace (rev (dropWhile isSpace s)))"

text \<open>\<open>a || b\<close> on strings that may be undefined: the empty string is falsy.\<close>

definition strTruthy :: "jsstring option \<Rightarrow> bool" where
  "strTruthy s \<longleftrightarrow> (case s of None \<Rightarrow> False | Some x \<Rightarrow> x \<noteq> [])"

definition strOr :: "jsstring option \<Rightarrow> jsstring option \<Rightarrow> jsstring option" where
  "strOr a b = (if strTruthy a then a else b)"

section \<open>Decimal printing and parsing\<close>

fun showNat :: "nat \<Rightarrow> jsstring" where
  "showNat n = (if n < 10 then [48 + n] else showNat (n div 10) @ [48 + n mod 10])"

declare showNat.simps [simp del]

definition showInt :: "int \<Rightarrow> jsstring" where
  "showInt i = (if i < 0 then 45 # showNat (nat (- i)) else showNat (nat i))"

definition isDigit :: "jschar \<Rightarrow> bool" where
  "isDigit c \<longleftrightarrow> 48 \<le> c \<and> c \<le> 57"

text \<open>\<open>parseInt(s, 10)\<close> on a string of digits.\<close>

definition readNat :: "jsstring \<Rightarrow> nat" where
  "readNat s = foldl (\<lambda>n c. 10 * n + (c - 48)) 0 s"

section \<open>Numbers and proto-JSON integers\<close>

text \<open>
  A JavaScript number is a double: converting an integer rounds it to 53 significant bits, ties to
  even. The integers here come from 64-bit fields, so nothing overflows to infinity.
\<close>

fun bitLen :: "nat \<Rightarrow> nat" where
  "bitLen n = (if n = 0 then 0 else Suc (bitLen (n div 2)))"

declare bitLen.simps [simp del]

definition roundNat :: "nat \<Rightarrow> nat" where
  "roundNat n =
     (if n \<le> 2 ^ 53 then n
      else let e = bitLen n - 53; q = n div 2 ^ e; r = n mod 2 ^ e; h = 2 ^ (e - 1)
           in (if r > h \<or> (r = h \<and> odd q) then q + 1 else q) * 2 ^ e)"

definition roundDouble :: "int \<Rightarrow> int" where
  "roundDouble i = (if i < 0 then - int (roundNat (nat (- i))) else int (roundNat (nat i)))"

definition safe :: "int \<Rightarrow> bool" where
  "safe i \<longleftrightarrow> \<bar>i\<bar> \<le> 2 ^ 53"

text \<open>
  Printing a number gives the shortest decimal that converts back to it: beyond \<open>2^53\<close> the last
  digits of an integer may be replaced by zeros. \<open>shortestNat e n\<close> tries multiples of \<open>10^e\<close>,
  \<open>10^(e-1)\<close>, ... next to \<open>n\<close>.
\<close>

fun shortestNat :: "nat \<Rightarrow> nat \<Rightarrow> nat" where
  "shortestNat 0 n = n"
| "shortestNat (Suc e) n =
     (let lo = n div 10 ^ Suc e * 10 ^ Suc e; hi = lo + 10 ^ Suc e;
          l = (roundNat lo = n); h = (roundNat hi = n)
      in if l \<and> (\<not> h \<or> n - lo \<le> hi - n) then lo else if h then hi else shortestNat e n)"

definition shortest :: "int \<Rightarrow> int" where
  "shortest i = (if safe i then i else sgn i * int (shortestNat 20 (nat \<bar>i\<bar>)))"

datatype jsnum = JNum int | JStr int

fun Number :: "jsnum \<Rightarrow> int" where
  "Number (JNum i) = i"
| "Number (JStr i) = roundDouble i"

text \<open>Truthiness: the number 0 is falsy, the string \<open>"0"\<close> is not empty and therefore truthy.\<close>

definition numTruthy :: "jsnum \<Rightarrow> bool" where
  "numTruthy n \<longleftrightarrow> n \<noteq> JNum 0"

text \<open>What a template literal prints.\<close>

fun showNum :: "jsnum \<Rightarrow> jsstring" where
  "showNum (JNum i) = showInt (shortest i)"
| "showNum (JStr i) = showInt i"

lemma roundDouble_safe [simp]: "safe i \<Longrightarrow> roundDouble i = i"
  by (auto simp: roundDouble_def roundNat_def safe_def)

lemma shortest_safe [simp]: "safe i \<Longrightarrow> shortest i = i"
  by (simp add: shortest_def)

lemma safe_numeral [simp]:
  "safe 0" "safe 1" "safe (numeral k) \<longleftrightarrow> numeral k \<le> (2 ^ 53 :: int)" "safe (- numeral k) \<longleftrightarrow> numeral k \<le> (2 ^ 53 :: int)"
  by (simp_all add: safe_def)

text \<open>
  Timestamps in seconds. A number (\<open>Date.now() / 1000\<close> is fractional) is represented by its
  value in milliseconds, a proto-JSON string by its whole seconds.
\<close>

datatype jstime = TNum int | TStr int

fun millis :: "jstime \<Rightarrow> int" where
  "millis (TNum ms) = ms"
| "millis (TStr s) = 1000 * s"

text \<open>
  The relational operator \<open><\<close>: two strings are compared by code units, any other combination
  numerically.
\<close>

fun strLess :: "jsstring \<Rightarrow> jsstring \<Rightarrow> bool" where
  "strLess [] t = (t \<noteq> [])"
| "strLess (c # s) [] = False"
| "strLess (c # s) (d # t) = (c < d \<or> (c = d \<and> strLess s t))"

fun jsLess :: "jsnum \<Rightarrow> jsnum \<Rightarrow> bool" where
  "jsLess (JStr a) (JStr b) = strLess (showInt a) (showInt b)"
| "jsLess a b = (Number a < Number b)"

text \<open>\<open>a <= b\<close>; no value here is NaN, so it is the negation of \<open>b < a\<close>.\<close>

definition jsLessEq :: "jsnum \<Rightarrow> jsnum \<Rightarrow> bool" where
  "jsLessEq a b \<longleftrightarrow> \<not> jsLess b a"

section \<open>Arrays\<close>

text \<open>\<open>findIndex\<close>, with \<open>None\<close> for the result \<open>-1\<close>.\<close>

fun findIndex :: "('a \<Rightarrow> bool) \<Rightarrow> 'a list \<Rightarrow> nat option" where
  "findIndex P [] = None"
| "findIndex P (x # xs) = (if P x then Some 0 else map_option Suc (findIndex P xs))"

definition lastOf :: "'a list \<Rightarrow> 'a option" where
  "lastOf xs = (if xs = [] then None else Some (last xs))"

definition firstOf :: "'a list \<Rightarrow> 'a option" where
  "firstOf xs = (case xs of [] \<Rightarrow> None | x # _ \<Rightarrow> Some x)"

section \<open>Maps\<close>

type_synonym ('k, 'v) jsmap = "('k \<times> 'v) list"

abbreviation keys :: "('k, 'v) jsmap \<Rightarrow> 'k list" where
  "keys m \<equiv> map fst m"

definition hasKey :: "('k, 'v) jsmap \<Rightarrow> 'k \<Rightarrow> bool" where
  "hasKey m k \<longleftrightarrow> map_of m k \<noteq> None"

text \<open>A loop \<open>for (const x of xs) map.set(key(x), val(x))\<close>.\<close>

definition setAll :: "('a \<Rightarrow> 'k) \<Rightarrow> ('a \<Rightarrow> 'v) \<Rightarrow> ('k, 'v) jsmap \<Rightarrow> 'a list \<Rightarrow> ('k, 'v) jsmap" where
  "setAll key val m xs = foldl (\<lambda>m x. AList.update (key x) (val x) m) m xs"

section \<open>Lemmas on strings and printing\<close>

lemmas [js_eval] = js_def startsWith_def isSpace_def trim_def strTruthy_def strOr_def isDigit_def
  showNum.simps showInt_def showNat.simps numTruthy_def lastOf_def firstOf_def hasKey_def setAll_def

lemma startsWith_append [simp]: "startsWith (p @ s) p"
  by (simp add: startsWith_def)

lemma startsWith_iff: "startsWith s p \<longleftrightarrow> (\<exists>r. s = p @ r)"
  by (metis append_eq_conv_conj append_take_drop_id startsWith_def)

lemma showNat_not_Nil [simp]: "showNat n \<noteq> []"
  by (subst showNat.simps) simp

lemma showNat_digits: "c \<in> set (showNat n) \<Longrightarrow> isDigit c"
proof (induction n rule: showNat.induct)
  case (1 n)
  then show ?case
    by (subst (asm) (2) showNat.simps) (auto simp: isDigit_def split: if_splits)
qed

lemma readNat_snoc: "readNat (s @ [c]) = 10 * readNat s + (c - 48)"
  by (simp add: readNat_def)

lemma readNat_showNat [simp]: "readNat (showNat n) = n"
proof (induction n rule: showNat.induct)
  case (1 n)
  show ?case
  proof (cases "n < 10")
    case True
    then show ?thesis by (subst showNat.simps) (simp add: readNat_def)
  next
    case False
    then show ?thesis
      using "1.IH" by (subst showNat.simps) (simp add: readNat_snoc)
  qed
qed

lemma showNat_inject [simp]: "showNat m = showNat n \<longleftrightarrow> m = n"
  by (metis readNat_showNat)

lemma showNat_no_minus: "45 \<notin> set (showNat n)"
  using showNat_digits [of 45 n] by (auto simp: isDigit_def)

lemma showInt_inject [simp]: "showInt i = showInt j \<longleftrightarrow> i = j"
proof -
  have "showNat m \<noteq> 45 # s" for m s
    using showNat_no_minus [of m] by (metis list.set_intros(1))
  moreover have "45 # s \<noteq> showNat m" for m s
    using showNat_no_minus [of m] by (metis list.set_intros(1))
  ultimately show ?thesis
    by (simp add: showInt_def) auto
qed

lemma strLess_irrefl: "\<not> strLess s s"
  by (induction s) auto

lemma strLess_Nil [simp]: "\<not> strLess s []"
  by (cases s) auto

lemma strLess_asym: "strLess s t \<Longrightarrow> \<not> strLess t s"
  by (induction s t rule: strLess.induct) auto

lemma strLess_linear: "s \<noteq> t \<Longrightarrow> strLess s t \<or> strLess t s"
proof (induction s t rule: strLess.induct)
  case (3 c s d t)
  then show ?case by (cases "c = d") auto
qed auto

lemma dropWhile_head: "dropWhile P s = [] \<or> \<not> P (hd (dropWhile P s))"
  by (induction s) auto

lemma trim_head:
  assumes "trim s \<noteq> []"
  shows "\<not> isSpace (hd (trim s))"
proof -
  define t where "t = dropWhile isSpace s"
  have split: "t = trim s @ rev (takeWhile isSpace (rev t))"
  proof -
    have "rev t = takeWhile isSpace (rev t) @ dropWhile isSpace (rev t)"
      by simp
    then have "rev (rev t) = rev (dropWhile isSpace (rev t)) @ rev (takeWhile isSpace (rev t))"
      by (metis rev_append)
    then show ?thesis by (simp add: trim_def t_def)
  qed
  with assms have "hd t = hd (trim s)" and "t \<noteq> []"
    by (metis hd_append2, metis append_is_Nil_conv)
  then show ?thesis
    using dropWhile_head [of isSpace s] by (auto simp: t_def)
qed

lemma dropWhile_id: "s = [] \<or> \<not> P (hd s) \<Longrightarrow> dropWhile P s = s"
  by (cases s) auto

lemma trim_trim [simp]: "trim (trim s) = trim s"
proof -
  have "dropWhile isSpace (trim s) = trim s"
    using trim_head by (intro dropWhile_id) blast
  moreover have "dropWhile isSpace (rev (trim s)) = rev (trim s)"
    by (simp add: trim_def dropWhile_idem)
  ultimately show ?thesis
    by (simp add: trim_def [of "trim s"])
qed

section \<open>Lemmas on arrays\<close>

lemma findIndex_None: "findIndex P xs = None \<longleftrightarrow> (\<forall>x \<in> set xs. \<not> P x)"
  by (induction xs) auto

lemma findIndex_Some:
  "findIndex P xs = Some i \<longleftrightarrow> i < length xs \<and> P (xs ! i) \<and> (\<forall>j < i. \<not> P (xs ! j))"
proof (induction xs arbitrary: i)
  case (Cons x xs)
  then show ?case
    by (cases i) (auto simp: less_Suc_eq_0_disj)
qed simp

lemma findIndex_cut:
  assumes "findIndex P xs = Some i"
  shows "take i xs = takeWhile (\<lambda>x. \<not> P x) xs" and "drop i xs = dropWhile (\<lambda>x. \<not> P x) xs"
proof -
  have "take i xs = takeWhile (\<lambda>x. \<not> P x) xs \<and> drop i xs = dropWhile (\<lambda>x. \<not> P x) xs"
    using assms by (induction xs arbitrary: i) (auto split: if_splits)
  then show "take i xs = takeWhile (\<lambda>x. \<not> P x) xs" and "drop i xs = dropWhile (\<lambda>x. \<not> P x) xs"
    by auto
qed

lemma find_SomeD: "List.find P xs = Some x \<Longrightarrow> x \<in> set xs \<and> P x"
  by (induction xs) (auto split: if_splits)

lemma find_NoneD: "List.find P xs = None \<longleftrightarrow> (\<forall>x \<in> set xs. \<not> P x)"
  by (induction xs) auto

section \<open>The interface of a JavaScript Map\<close>

locale keyed_map =
  fixes get :: "'m \<Rightarrow> 'k \<Rightarrow> 'v option"
    and put :: "'k \<Rightarrow> 'v \<Rightarrow> 'm \<Rightarrow> 'm"
    and ok :: "'m \<Rightarrow> bool"
  assumes get_put: "get (put k v m) k' = (if k' = k then Some v else get m k')"
    and ok_put: "ok m \<Longrightarrow> ok (put k v m)"
begin

lemma get_put_same [simp]: "get (put k v m) k = Some v"
  by (simp add: get_put)

lemma get_put_other: "k' \<noteq> k \<Longrightarrow> get (put k v m) k' = get m k'"
  by (simp add: get_put)

lemma get_put_loop:
  "get (foldl (\<lambda>m x. put (key x) (val x) m) m xs) k =
     (case List.find (\<lambda>x. key x = k) (rev xs) of Some x \<Rightarrow> Some (val x) | None \<Rightarrow> get m k)"
  by (induction xs rule: rev_induct) (auto simp: get_put)

lemma ok_put_loop: "ok m \<Longrightarrow> ok (foldl (\<lambda>m x. put (key x) (val x) m) m xs)"
  by (induction xs arbitrary: m) (auto intro: ok_put)

end

interpretation jsm: keyed_map map_of AList.update "\<lambda>m. distinct (keys m)"
  by unfold_locales (auto simp: update_conv' distinct_update)

lemma map_of_update [simp]: "map_of (AList.update k v m) k' = (if k' = k then Some v else map_of m k')"
  by (simp add: update_conv')

lemma map_of_setAll:
  "map_of (setAll key val m xs) k =
     (case List.find (\<lambda>x. key x = k) (rev xs) of Some x \<Rightarrow> Some (val x) | None \<Rightarrow> map_of m k)"
  by (simp add: setAll_def jsm.get_put_loop)

lemma distinct_setAll: "distinct (keys m) \<Longrightarrow> distinct (keys (setAll key val m xs))"
  unfolding setAll_def by (rule jsm.ok_put_loop)

end
