(* ===== verification/Topic.thy ===== *)
theory Topic
  imports JS_Prelude
begin

text \<open>
  Topic names (\<^verbatim>\<open>web/app/lib/topic.ts\<close>): the canonical name of the conversation between two users,
  the classification of a topic by prefix, and the recovery of the peer from a topic name. User ids are
  \<open>jsnum\<close>: the ids a page holds come from the HTTP API and are decimal strings at run time, so the
  comparison \<open>userId1 < userId2\<close> is JavaScript's (\<open>jsLess\<close>). A regular expression is modelled by the
  left-to-right scan it denotes.
\<close>

datatype topicKind = KP2P | KGroup | KUnknown

definition getP2PTopic :: "jsnum \<Rightarrow> jsnum \<Rightarrow> jsstring" where
  "getP2PTopic userId1 userId2 =
     (let (a, b) = if jsLess userId1 userId2 then (userId1, userId2) else (userId2, userId1)
      in js ''p2p_'' @ showNum a @ js ''_'' @ showNum b)"

definition topicType :: "jsstring \<Rightarrow> topicKind" where
  "topicType topic =
     (if startsWith topic (js ''p2p_'') then KP2P
      else if startsWith topic (js ''grp_'') then KGroup
      else KUnknown)"

text \<open>\<open>topic.match(/^p2p_(\d+)_(\d+)$/)\<close>: the two captured groups.\<close>

definition matchP2P :: "jsstring \<Rightarrow> (jsstring \<times> jsstring) option" where
  "matchP2P topic =
     (if startsWith topic (js ''p2p_'') then
        (let rest = drop 4 topic;
             d1 = takeWhile isDigit rest;
             r1 = dropWhile isDigit rest
         in if d1 \<noteq> [] \<and> startsWith r1 (js ''_'') then
              (let d2 = drop 1 r1
               in if d2 \<noteq> [] \<and> list_all isDigit d2 then Some (d1, d2) else None)
            else None)
      else None)"

definition extractPeerIdFromP2PTopic :: "jsstring \<Rightarrow> jsnum \<Rightarrow> int" where
  "extractPeerIdFromP2PTopic topic currentUserId =
     (case matchP2P topic of
        None \<Rightarrow> 0
      | Some (m1, m2) \<Rightarrow>
          (let id1 = roundDouble (int (readNat m1)); id2 = roundDouble (int (readNat m2))
           in if JNum id1 = currentUserId then id2 else id1))"

text \<open>The name the server gives the conversation of two users: ids in ascending numeric order.\<close>

definition canonicalP2P :: "nat \<Rightarrow> nat \<Rightarrow> jsstring" where
  "canonicalP2P a b = js ''p2p_'' @ showNat (min a b) @ js ''_'' @ showNat (max a b)"

section \<open>Lemmas\<close>

lemma showNat_all_digits: "list_all isDigit (showNat n)"
  by (auto simp: list_all_iff dest: showNat_digits)

lemma takeWhile_showNat: "\<not> isDigit c \<Longrightarrow> takeWhile isDigit (showNat n @ c # s) = showNat n"
  by (subst takeWhile_append2) (auto dest: showNat_digits)

lemma dropWhile_showNat: "\<not> isDigit c \<Longrightarrow> dropWhile isDigit (showNat n @ c # s) = c # s"
  by (subst dropWhile_append2) (auto dest: showNat_digits)

lemma matchP2P_digits:
  "matchP2P (js ''p2p_'' @ showNat a @ js ''_'' @ showNat b) = Some (showNat a, showNat b)"
proof -
  have "\<not> isDigit 95" by (simp add: isDigit_def)
  then show ?thesis
    using showNat_all_digits [of b]
    by (simp add: matchP2P_def Let_def js_def startsWith_def takeWhile_showNat dropWhile_showNat)
qed

lemma canonicalP2P_eq_iff: "canonicalP2P a b = canonicalP2P c d \<longleftrightarrow> {a, b} = {c, d}"
proof
  assume "canonicalP2P a b = canonicalP2P c d"
  then have "matchP2P (canonicalP2P a b) = matchP2P (canonicalP2P c d)" by simp
  then have "min a b = min c d \<and> max a b = max c d"
    by (simp add: canonicalP2P_def matchP2P_digits)
  then show "{a, b} = {c, d}"
    by (auto simp: min_def max_def split: if_splits)
qed (auto simp: canonicalP2P_def doubleton_eq_iff min.commute max.commute)

lemma showNum_nat: "safe (int k) \<Longrightarrow> showNum (JNum (int k)) = showNat k"
  by (simp add: showInt_def)

text \<open>Numbers are compared numerically; safe integers are printed in full.\<close>

lemma getP2PTopic_numeric:
  "safe (int a) \<Longrightarrow> safe (int b) \<Longrightarrow> getP2PTopic (JNum (int a)) (JNum (int b)) = canonicalP2P a b"
  by (auto simp: getP2PTopic_def canonicalP2P_def min_def max_def showNum_nat simp del: showNum.simps)

lemma getP2PTopic_strings: "getP2PTopic (JStr u) (JStr v) = getP2PTopic (JStr v) (JStr u)"
proof (cases "u = v")
  case False
  then have "strLess (showInt u) (showInt v) \<longleftrightarrow> \<not> strLess (showInt v) (showInt u)"
    using strLess_linear [of "showInt u" "showInt v"] strLess_asym [of "showInt u" "showInt v"]
      strLess_asym [of "showInt v" "showInt u"] by auto
  then show ?thesis
    by (simp add: getP2PTopic_def)
qed simp

section \<open>Properties\<close>

text \<open>C24. For user ids that are JavaScript numbers the topic is the server's canonical one, so two calls
  agree exactly when they name the same two users, in whichever order: both ends of a conversation
  compute the same topic, and different pairs never collide.\<close>

theorem getP2PTopic_canonical:
  assumes "safe (int u)" and "safe (int v)" and "safe (int u')" and "safe (int v')"
  shows "getP2PTopic (JNum (int u)) (JNum (int v)) = canonicalP2P u v \<and>
   (getP2PTopic (JNum (int u)) (JNum (int v)) = getP2PTopic (JNum (int u')) (JNum (int v'))
      \<longleftrightarrow> {u, v} = {u', v'})"
  using assms by (simp add: getP2PTopic_numeric canonicalP2P_eq_iff)

theorem getP2PTopic_canonical_witness:
  "getP2PTopic (JNum (int 10)) (JNum (int 9)) = canonicalP2P 10 9 \<and>
   getP2PTopic (JNum (int 10)) (JNum (int 9)) = getP2PTopic (JNum (int 9)) (JNum (int 10))"
  using getP2PTopic_canonical [of 10 9 9 10] by auto

text \<open>C25. Round trip, for user ids that are JavaScript numbers up to \<open>2 ^ 53\<close>: from the topic of a pair each of
  the two users recovers the other, and the topic is classified as peer-to-peer. When the caller holds its
  own id as a string, \<open>id1 === currentUserId\<close> never holds, and it gets the smaller of the two ids,
  whichever user it is.\<close>

theorem extractPeer_roundtrip:
  assumes "safe (int u)" and "safe (int v)"
  shows "extractPeerIdFromP2PTopic (getP2PTopic (JNum (int u)) (JNum (int v))) (JNum (int u)) = int v \<and>
   extractPeerIdFromP2PTopic (getP2PTopic (JNum (int u)) (JNum (int v))) (JNum (int v)) = int u \<and>
   extractPeerIdFromP2PTopic (getP2PTopic (JNum (int u)) (JNum (int v))) (JStr i) = int (min u v) \<and>
   topicType (getP2PTopic (JNum (int u)) (JNum (int v))) = KP2P"
proof -
  have "topicType (canonicalP2P u v) = KP2P"
    by (simp add: topicType_def canonicalP2P_def)
  with assms show ?thesis
    by (simp add: getP2PTopic_numeric extractPeerIdFromP2PTopic_def canonicalP2P_def matchP2P_digits min_def max_def)
qed

theorem extractPeer_roundtrip_witness:
  "extractPeerIdFromP2PTopic (getP2PTopic (JNum (int 7)) (JNum (int 42))) (JNum (int 7)) = 42"
  using extractPeer_roundtrip [of 7 42] by simp

text \<open>The ids a page holds are proto-JSON strings, which JavaScript compares by code unit. The topic
  then still does not depend on the order of the arguments, but it is not the canonical one: for the
  users 9 and 10 it is \<open>p2p_10_9\<close>, while the server calls the conversation \<open>p2p_9_10\<close>.\<close>

theorem getP2PTopic_string_ids:
  "getP2PTopic (JStr u) (JStr v) = getP2PTopic (JStr v) (JStr u) \<and>
   getP2PTopic (JStr 9) (JStr 10) = js ''p2p_10_9'' \<and>
   canonicalP2P 9 10 = js ''p2p_9_10'' \<and>
   getP2PTopic (JStr 9) (JStr 10) \<noteq> getP2PTopic (JNum 9) (JNum 10)"
  using getP2PTopic_strings [of u v]
  by (simp add: getP2PTopic_def canonicalP2P_def showInt_def showNat.simps js_def)

end
