(* ===== verification/Types.thy ===== *)
theory Types
  imports JS_Prelude
begin

text \<open>
  The data model of the web client (\<^verbatim>\<open>web/app/types/index.ts\<close>): one record per interface, one
  datatype per union of string literals. An optional property \<open>x?: T\<close> is an \<open>option\<close>; a 64-bit
  integer of the wire protocol, declared \<open>number\<close> in TypeScript, is a \<open>jsnum\<close> because the HTTP path
  delivers it as a decimal string.
\<close>

record user =
  u_userId :: jsnum
  u_username :: jsstring

record group =
  g_groupId :: jsstring
  g_topic :: jsstring
  g_name :: jsstring
  g_ownerId :: jsnum
  g_createdAt :: jsnum

record groupMember =
  gm_userId :: jsnum
  gm_username :: jsstring

datatype messageStatus = Sending | Sent | Delivered | Read | Failed | Recalled

record chatMessage =
  m_clientMsgId :: jsstring
  m_msgId :: "jsnum option"
  m_topic :: jsstring
  m_senderId :: jsnum
  m_content :: jsstring
  m_msgType :: "int option"
  m_timestamp :: jstime
  m_topicSeq :: "jsnum option"
  m_status :: messageStatus
  m_recalled :: "bool option"

datatype convType = P2P | GroupChat

record conversation =
  c_topic :: jsstring
  c_type :: convType
  c_peerId :: jsnum
  c_peerUsername :: jsstring
  c_name :: "jsstring option"
  c_lastMsgPreview :: "jsstring option"
  c_lastMsgAt :: "jstime option"
  c_lastSeq :: jsnum
  c_lastReadSeq :: jsnum
  c_unreadCount :: int
  c_messages :: "chatMessage list"
  c_hasMore :: bool
  c_isLoading :: bool

datatype connectionState = Connecting | Connected | Authed | Disconnected | Reconnecting

text \<open>The numeric sequence number of a message, where it has one.\<close>

definition seqOf :: "chatMessage \<Rightarrow> int option" where
  "seqOf m = map_option Number (m_topicSeq m)"

lemma seqOf_None_iff: "seqOf m = None \<longleftrightarrow> m_topicSeq m = None"
  by (simp add: seqOf_def)

end
