(* ===== verification/Chat_Messages.thy ===== *)
theory Chat_Messages
  imports Types "HOL-Library.Multiset"
begin

text \<open>
  The message list of a conversation: the helpers and callbacks of \<^verbatim>\<open>web/app/stores/chatStore.ts\<close> that
  work on \<open>ChatMessage\<close> values (previews, ordered insertion, duplicate tests, patches, the recall and
  read marks), and the lemmas on ordering and duplicates the store's properties rest on.
\<close>

section \<open>Definitions\<close>

text \<open>\<open>Partial<ChatMessage>\<close>: the fields a caller overrides.\<close>

record msgPatch =
  mp_clientMsgId :: "jsstring option"
  mp_topic :: "jsstring option"
  mp_msgId :: "jsnum option"
  mp_topicSeq :: "jsnum option"
  mp_content :: "jsstring option"
  mp_msgType :: "int option"
  mp_timestamp :: "jstime option"
  mp_senderId :: "jsnum option"
  mp_status :: "messageStatus option"
  mp_recalled :: "bool option"

definition recalledText :: jsstring where
  "recalledText = js ''This message was recalled''"

text \<open>The placeholders are \<open>[\<close> two CJK characters \<open>]\<close>, given by their code units.\<close>

definition previewForMessage :: "chatMessage \<Rightarrow> jsstring" where
  "previewForMessage msg =
     (if m_recalled msg = Some True then recalledText
      else if m_msgType msg = Some 2 then [91, 22270, 29255, 93]
      else if m_msgType msg = Some 3 then [91, 25991, 20214, 93]
      else m_content msg)"

definition insertBySeq :: "chatMessage list \<Rightarrow> chatMessage \<Rightarrow> chatMessage list" where
  "insertBySeq messages msg =
     (case (seqOf msg, lastOf messages) of
        (Some seq, Some lst) \<Rightarrow>
          (case seqOf lst of
             None \<Rightarrow> messages @ [msg]
           | Some lastSeq \<Rightarrow>
               if seq \<ge> lastSeq then messages @ [msg]
               else
                 (let at = (case findIndex (\<lambda>m. case seqOf m of None \<Rightarrow> False | Some k \<Rightarrow> k > seq) messages of
                              None \<Rightarrow> length messages | Some i \<Rightarrow> i)
                  in take at messages @ [msg] @ drop at messages))
      | _ \<Rightarrow> messages @ [msg])"

text \<open>The duplicate test of \<open>appendMessage\<close>: same client id, or same sequence number as numbers.\<close>

definition sameMessage :: "chatMessage \<Rightarrow> chatMessage \<Rightarrow> bool" where
  "sameMessage msg m \<longleftrightarrow>
     m_clientMsgId m = m_clientMsgId msg \<or>
     (seqOf msg \<noteq> None \<and> seqOf m \<noteq> None \<and> seqOf m = seqOf msg)"

definition mergeMsg :: "chatMessage \<Rightarrow> msgPatch \<Rightarrow> chatMessage" where
  "mergeMsg m patch =
     m\<lparr>m_clientMsgId := (case mp_clientMsgId patch of None \<Rightarrow> m_clientMsgId m | Some x \<Rightarrow> x),
       m_topic := (case mp_topic patch of None \<Rightarrow> m_topic m | Some x \<Rightarrow> x),
       m_msgId := (case mp_msgId patch of None \<Rightarrow> m_msgId m | Some x \<Rightarrow> Some x),
       m_topicSeq := (case mp_topicSeq patch of None \<Rightarrow> m_topicSeq m | Some x \<Rightarrow> Some x),
       m_content := (case mp_content patch of None \<Rightarrow> m_content m | Some x \<Rightarrow> x),
       m_msgType := (case mp_msgType patch of None \<Rightarrow> m_msgType m | Some x \<Rightarrow> Some x),
       m_timestamp := (case mp_timestamp patch of None \<Rightarrow> m_timestamp m | Some x \<Rightarrow> x),
       m_senderId := (case mp_senderId patch of None \<Rightarrow> m_senderId m | Some x \<Rightarrow> x),
       m_status := (case mp_status patch of None \<Rightarrow> m_status m | Some x \<Rightarrow> x),
       m_recalled := (case mp_recalled patch of None \<Rightarrow> m_recalled m | Some x \<Rightarrow> Some x)\<rparr>"

definition recallOne :: "int \<Rightarrow> int option \<Rightarrow> chatMessage \<Rightarrow> chatMessage" where
  "recallOne topicSeq msgId m =
     (if m_topicSeq m \<noteq> None \<and>
         (seqOf m = Some topicSeq \<or>
          (case msgId of None \<Rightarrow> False
           | Some i \<Rightarrow> i \<noteq> 0 \<and> map_option Number (m_msgId m) = Some i))
      then m\<lparr>m_content := recalledText, m_status := Recalled, m_recalled := Some True\<rparr>
      else m)"

text \<open>The sort key of \<open>prependMessages\<close>: \<open>Number(m.topicSeq) || 0\<close>.\<close>

definition seqKey :: "chatMessage \<Rightarrow> int" where
  "seqKey m = (case seqOf m of None \<Rightarrow> 0 | Some k \<Rightarrow> k)"

definition freshMessages :: "chatMessage list \<Rightarrow> chatMessage list \<Rightarrow> chatMessage list" where
  "freshMessages existing msgs =
     (let existingSeqs = set (List.map_filter seqOf existing);
          existingClientIds = set (filter (\<lambda>i. i \<noteq> []) (map m_clientMsgId existing))
      in filter (\<lambda>m. (case seqOf m of None \<Rightarrow> True | Some k \<Rightarrow> k \<notin> existingSeqs) \<and>
                      m_clientMsgId m \<notin> existingClientIds) msgs)"

definition readOne :: "jsnum \<Rightarrow> jsnum \<Rightarrow> chatMessage \<Rightarrow> chatMessage" where
  "readOne peerId upToSeq m =
     (if m_senderId m \<noteq> peerId \<and> (case m_topicSeq m of None \<Rightarrow> False | Some s \<Rightarrow> jsLessEq s upToSeq)
      then m\<lparr>m_status := Read\<rparr> else m)"


section \<open>Sequence numbers of a message list\<close>

text \<open>The sequence numbers shown, in display order; messages not yet confirmed have none.\<close>

definition seqs :: "chatMessage list \<Rightarrow> int list" where
  "seqs ms = List.map_filter seqOf ms"

lemma seqs_simps [simp]:
  "seqs [] = []"
  "seqs (m # ms) = (case seqOf m of None \<Rightarrow> seqs ms | Some k \<Rightarrow> k # seqs ms)"
  by (simp_all add: seqs_def List.map_filter_def split: option.splits)

lemma seqs_append [simp]: "seqs (xs @ ys) = seqs xs @ seqs ys"
  by (simp add: seqs_def List.map_filter_def)

lemma set_seqs: "set (seqs ms) = {k. \<exists>m \<in> set ms. seqOf m = Some k}"
  by (induction ms) (auto split: option.splits)

section \<open>Ordered insertion\<close>

text \<open>
  Where \<open>insertBySeq\<close> puts the message: before the first message with a larger number, or at the end
  when the message has no number, or the last message has none or a number not larger.
\<close>

definition laterThan :: "int \<Rightarrow> chatMessage \<Rightarrow> bool" where
  "laterThan n m \<longleftrightarrow> (case seqOf m of None \<Rightarrow> False | Some k \<Rightarrow> n < k)"

lemma insertBySeq_cases:
  obtains (tail) "insertBySeq ms m = ms @ [m]"
      and "seqOf m = None \<or> ms = [] \<or> seqOf (last ms) = None
             \<or> (\<exists>n k. seqOf m = Some n \<and> seqOf (last ms) = Some k \<and> k \<le> n)"
  | (inside) n where "seqOf m = Some n" and "\<exists>k. seqOf (last ms) = Some k \<and> n < k" and "ms \<noteq> []"
      and "insertBySeq ms m =
             takeWhile (\<lambda>x. \<not> laterThan n x) ms @ [m] @ dropWhile (\<lambda>x. \<not> laterThan n x) ms"
proof (cases "\<exists>n k. seqOf m = Some n \<and> ms \<noteq> [] \<and> seqOf (last ms) = Some k \<and> n < k")
  case True
  then obtain n k where n: "seqOf m = Some n" and ne: "ms \<noteq> []"
    and k: "seqOf (last ms) = Some k" "n < k" by blast
  have "findIndex (laterThan n) ms \<noteq> None"
    using ne k last_in_set [OF ne] by (auto simp: findIndex_None laterThan_def intro!: bexI [of _ "last ms"])
  then obtain i where i: "findIndex (laterThan n) ms = Some i" by blast
  have "insertBySeq ms m = take i ms @ [m] @ drop i ms"
    using n ne k i by (simp add: insertBySeq_def lastOf_def laterThan_def [abs_def] Let_def)
  then show ?thesis
    using inside [OF n] k ne findIndex_cut [OF i] by auto
next
  case False
  then show ?thesis
    by (intro tail) (auto simp: insertBySeq_def lastOf_def split: option.splits)
qed

lemma mset_insertBySeq: "mset (insertBySeq ms m) = add_mset m (mset ms)"
proof (cases rule: insertBySeq_cases [of ms m])
  case (inside n)
  have "mset ms = mset (takeWhile (\<lambda>x. \<not> laterThan n x) ms @ dropWhile (\<lambda>x. \<not> laterThan n x) ms)"
    by simp
  with inside show ?thesis by (simp del: takeWhile_dropWhile_id)
qed simp

lemma set_insertBySeq: "set (insertBySeq ms m) = insert m (set ms)"
  by (metis mset_insertBySeq set_mset_add_mset_insert set_mset_mset)

lemma sorted_seqs_last:
  assumes "sorted (seqs ms)" and "ms \<noteq> []" and "seqOf (last ms) = Some k"
  shows "\<forall>j \<in> set (seqs ms). j \<le> k"
proof -
  have "seqs ms = seqs (butlast ms) @ [k]"
    using assms(2,3) by (metis append_butlast_last_id option.case(2) seqs_append seqs_simps)
  with assms(1) show ?thesis by (auto simp: sorted_append)
qed

lemma seqs_not_later: "\<forall>x \<in> set ms. \<not> laterThan n x \<Longrightarrow> \<forall>j \<in> set (seqs ms). j \<le> n"
  by (force simp: set_seqs laterThan_def)

lemma seqs_from_later:
  assumes "sorted (seqs ms)" and "ms = [] \<or> laterThan n (hd ms)"
  shows "\<forall>j \<in> set (seqs ms). n \<le> j"
  using assms by (cases ms) (auto simp: laterThan_def split: option.splits)

lemma insertBySeq_sorted:
  assumes "sorted (seqs ms)" and "seqOf m = None \<or> ms = [] \<or> seqOf (last ms) \<noteq> None"
  shows "sorted (seqs (insertBySeq ms m))"
proof (cases rule: insertBySeq_cases [of ms m])
  case tail
  show ?thesis
  proof (cases "seqOf m = None \<or> ms = []")
    case True
    with tail assms show ?thesis by (auto simp: sorted_append split: option.splits)
  next
    case False
    with tail assms obtain n k
      where n: "seqOf m = Some n" and k: "seqOf (last ms) = Some k" "k \<le> n" by auto
    have "\<forall>j \<in> set (seqs ms). j \<le> n"
      using sorted_seqs_last [OF assms(1) _ k(1)] False k(2) by fastforce
    with tail assms n show ?thesis by (simp add: sorted_append)
  qed
next
  case (inside n)
  let ?a = "takeWhile (\<lambda>x. \<not> laterThan n x) ms"
  let ?b = "dropWhile (\<lambda>x. \<not> laterThan n x) ms"
  have ab: "sorted (seqs ?a @ seqs ?b)"
    using assms(1) by (metis seqs_append takeWhile_dropWhile_id)
  have a: "\<forall>j \<in> set (seqs ?a). j \<le> n"
    by (rule seqs_not_later) (auto dest: set_takeWhileD)
  have b: "\<forall>j \<in> set (seqs ?b). n \<le> j"
    using ab dropWhile_head [of "\<lambda>x. \<not> laterThan n x" ms]
    by (intro seqs_from_later) (auto simp: sorted_append)
  show ?thesis
    using ab a b inside by (auto simp: sorted_append)
qed

section \<open>Arrival order\<close>

text \<open>
  The interface of a log that inserts by key and drops duplicates. Whatever the order (and however
  often) messages arrive, the log ends up strictly ordered by key and holds each message once; two
  arrival orders of the same messages give the same log.
\<close>

locale arrival_log =
  fixes ins :: "'m list \<Rightarrow> 'm \<Rightarrow> 'm list"
    and key :: "'m \<Rightarrow> int"
    and dup :: "'m \<Rightarrow> 'm \<Rightarrow> bool"
    and keyed :: "'m \<Rightarrow> bool"
  assumes ins_set: "set (ins ms m) = insert m (set ms)"
    and ins_sorted: "\<lbrakk>\<forall>x \<in> insert m (set ms). keyed x; \<forall>x \<in> set ms. key x \<noteq> key m;
          sorted_wrt (\<lambda>a b. key a < key b) ms\<rbrakk> \<Longrightarrow> sorted_wrt (\<lambda>a b. key a < key b) (ins ms m)"
    and dup_key: "keyed m \<Longrightarrow> keyed x \<Longrightarrow> key x = key m \<Longrightarrow> dup m x"
    and dup_refl: "dup m m"
begin

lemma log_step:
  assumes "\<forall>x \<in> insert m (set ms). keyed x" and "\<forall>x \<in> set ms. dup m x \<longrightarrow> x = m"
    and "sorted_wrt (\<lambda>a b. key a < key b) ms"
  shows "set (if list_ex (dup m) ms then ms else ins ms m) = insert m (set ms) \<and>
         sorted_wrt (\<lambda>a b. key a < key b) (if list_ex (dup m) ms then ms else ins ms m)"
proof (cases "list_ex (dup m) ms")
  case True
  with assms(2) have "m \<in> set ms" by (auto simp: list_ex_iff)
  with True assms(3) show ?thesis by auto
next
  case False
  then have "\<forall>x \<in> set ms. key x \<noteq> key m"
    using assms(1) dup_key by (auto simp: list_ex_iff)
  with False show ?thesis
    using ins_set ins_sorted [OF assms(1) _ assms(3)] by simp
qed

lemma log_run:
  assumes "\<forall>x \<in> set ms \<union> set xs. keyed x"
    and "\<forall>m \<in> set xs. \<forall>x \<in> set ms \<union> set xs. dup m x \<longrightarrow> x = m"
    and "sorted_wrt (\<lambda>a b. key a < key b) ms"
  shows "set (foldl (\<lambda>ms m. if list_ex (dup m) ms then ms else ins ms m) ms xs) = set ms \<union> set xs \<and>
         sorted_wrt (\<lambda>a b. key a < key b)
           (foldl (\<lambda>ms m. if list_ex (dup m) ms then ms else ins ms m) ms xs)"
  using assms
proof (induction xs arbitrary: ms)
  case (Cons m xs)
  let ?ms = "if list_ex (dup m) ms then ms else ins ms m"
  have step: "set ?ms = insert m (set ms) \<and> sorted_wrt (\<lambda>a b. key a < key b) ?ms"
    using Cons.prems by (intro log_step) auto
  moreover have "\<forall>x \<in> set ?ms \<union> set xs. keyed x"
    and "\<forall>m' \<in> set xs. \<forall>x \<in> set ?ms \<union> set xs. dup m' x \<longrightarrow> x = m'"
    using Cons.prems(1,2) conjunct1 [OF step] by (metis Un_iff insert_iff list.set(2))+
  ultimately show ?case
    using Cons.IH [of ?ms] by simp
qed simp

lemma strictly_sorted_unique:
  assumes "sorted_wrt (\<lambda>a b. key a < key b) xs" and "sorted_wrt (\<lambda>a b. key a < key b) ys"
    and "set xs = set ys"
  shows "xs = ys"
  using assms
proof (induction xs arbitrary: ys)
  case (Cons x xs)
  then obtain y zs where ys: "ys = y # zs" by (cases ys) auto
  have "x = y"
  proof (rule ccontr)
    assume "x \<noteq> y"
    with Cons.prems ys have "x \<in> set zs" and "y \<in> set xs" by auto
    with Cons.prems ys have "key y < key x" and "key x < key y" by auto
    then show False by simp
  qed
  moreover have "x \<notin> set xs" and "y \<notin> set zs"
    using Cons.prems ys by auto
  ultimately have "set xs = set zs"
    using Cons.prems(3) ys by auto
  then show ?case
    using Cons.IH [of zs] Cons.prems ys \<open>x = y\<close> by simp
qed simp

lemma arrival_order_irrelevant:
  assumes "\<forall>x \<in> set xs. keyed x" and "\<forall>m \<in> set xs. \<forall>x \<in> set xs. dup m x \<longrightarrow> x = m"
    and "set ys = set xs"
  shows "foldl (\<lambda>ms m. if list_ex (dup m) ms then ms else ins ms m) [] ys =
         foldl (\<lambda>ms m. if list_ex (dup m) ms then ms else ins ms m) [] xs"
  using log_run [of "[]" xs] log_run [of "[]" ys] assms by (intro strictly_sorted_unique) auto

end

lemma seqs_all:
  assumes "\<forall>x \<in> set ms. seqOf x \<noteq> None"
  shows "seqs ms = map seqKey ms"
  using assms by (induction ms) (auto simp: seqKey_def)

lemma strict_seqs:
  assumes "\<forall>x \<in> set ms. seqOf x \<noteq> None"
  shows "sorted_wrt (\<lambda>a b. seqKey a < seqKey b) ms \<longleftrightarrow> sorted (seqs ms) \<and> distinct (seqs ms)"
proof -
  have "sorted_wrt (<) (map seqKey ms) \<longleftrightarrow> sorted (map seqKey ms) \<and> distinct (map seqKey ms)"
    by (rule strict_sorted_iff)
  with assms show ?thesis by (simp only: seqs_all sorted_wrt_map)
qed

interpretation chat_log: arrival_log insertBySeq seqKey sameMessage "\<lambda>m. seqOf m \<noteq> None"
proof
  fix ms m
  show "set (insertBySeq ms m) = insert m (set ms)" by (rule set_insertBySeq)
next
  fix m ms
  assume seq: "\<forall>x \<in> insert m (set ms). seqOf x \<noteq> None" and new: "\<forall>x \<in> set ms. seqKey x \<noteq> seqKey m"
    and sorted: "sorted_wrt (\<lambda>a b. seqKey a < seqKey b) ms"
  have "ms = [] \<or> seqOf (last ms) \<noteq> None"
    using seq last_in_set by blast
  then have "sorted (seqs (insertBySeq ms m))"
    using seq sorted strict_seqs [of ms] by (intro insertBySeq_sorted) auto
  moreover have "distinct (map seqKey (insertBySeq ms m))"
  proof -
    have "mset (map seqKey (insertBySeq ms m)) = mset (map seqKey (m # ms))"
      by (simp add: mset_insertBySeq)
    moreover have "distinct (map seqKey (m # ms))"
      using new sorted strict_sorted_iff [of "map seqKey ms"] by (auto simp: sorted_wrt_map)
    ultimately show ?thesis by (metis mset_eq_imp_distinct_iff)
  qed
  ultimately show "sorted_wrt (\<lambda>a b. seqKey a < seqKey b) (insertBySeq ms m)"
    using seq by (subst strict_seqs) (auto simp: set_insertBySeq seqs_all)
qed (auto simp: sameMessage_def seqKey_def)

section \<open>History pages\<close>

text \<open>No two messages of the list are the same message in the sense of \<open>sameMessage\<close>.\<close>

definition noDuplicates :: "chatMessage list \<Rightarrow> bool" where
  "noDuplicates ms \<longleftrightarrow> sorted_wrt (\<lambda>a b. \<not> sameMessage a b) ms"

lemma sameMessage_sym: "sameMessage a b \<longleftrightarrow> sameMessage b a"
  by (auto simp: sameMessage_def)

lemma noDuplicates_append:
  "noDuplicates (xs @ ys) \<longleftrightarrow>
     noDuplicates xs \<and> noDuplicates ys \<and> (\<forall>x \<in> set xs. \<forall>y \<in> set ys. \<not> sameMessage x y)"
  by (auto simp: noDuplicates_def sorted_wrt_append)

lemma noDuplicates_alt:
  "noDuplicates ms \<longleftrightarrow> distinct (map m_clientMsgId ms) \<and> distinct (seqs ms)"
  by (induction ms)
     (auto simp: noDuplicates_def sameMessage_def set_seqs image_iff split: option.splits)

lemma noDuplicates_mset: "mset xs = mset ys \<Longrightarrow> noDuplicates xs \<longleftrightarrow> noDuplicates ys"
proof -
  assume eq: "mset xs = mset ys"
  have "mset (seqs zs) = image_mset (the \<circ> seqOf) (filter_mset (\<lambda>m. seqOf m \<noteq> None) (mset zs))" for zs
    by (simp add: seqs_def List.map_filter_def mset_filter)
  with eq have "mset (seqs xs) = mset (seqs ys)" by metis
  moreover have "mset (map m_clientMsgId xs) = mset (map m_clientMsgId ys)"
    using eq by simp
  ultimately show ?thesis
    unfolding noDuplicates_alt by (metis mset_eq_imp_distinct_iff)
qed

lemma noDuplicates_insertBySeq:
  assumes "noDuplicates ms" and "\<not> list_ex (sameMessage m) ms"
  shows "noDuplicates (insertBySeq ms m)"
proof -
  have "noDuplicates (m # ms)"
    using assms by (auto simp: noDuplicates_def list_ex_iff)
  moreover have "mset (insertBySeq ms m) = mset (m # ms)"
    by (simp add: mset_insertBySeq)
  ultimately show ?thesis
    using noDuplicates_mset by blast
qed

lemma freshMessages_subset: "set (freshMessages ms xs) \<subseteq> set xs"
  by (auto simp: freshMessages_def Let_def)

lemma freshMessages_fresh:
  assumes "x \<in> set (freshMessages ms xs)" and "m \<in> set ms" and "m_clientMsgId m \<noteq> []"
  shows "\<not> sameMessage x m"
  using assms
  by (auto simp: freshMessages_def Let_def sameMessage_def set_seqs [unfolded seqs_def] image_iff
        split: option.splits)

lemma freshMessages_complete:
  assumes "x \<in> set xs" and "\<forall>m \<in> set ms. \<not> sameMessage x m"
  shows "x \<in> set (freshMessages ms xs)"
  using assms
  by (auto simp: freshMessages_def Let_def sameMessage_def set_seqs [unfolded seqs_def] image_iff
        split: option.splits)

lemma noDuplicates_freshMessages: "noDuplicates xs \<Longrightarrow> noDuplicates (freshMessages ms xs)"
  by (simp add: freshMessages_def Let_def noDuplicates_def sorted_wrt_filter)

lemma noDuplicates_page:
  assumes "noDuplicates ms" and "noDuplicates xs" and "\<forall>m \<in> set ms. m_clientMsgId m \<noteq> []"
  shows "noDuplicates (sort_key seqKey (freshMessages ms xs @ ms))"
proof -
  have "noDuplicates (freshMessages ms xs @ ms)"
    using assms freshMessages_fresh noDuplicates_freshMessages by (auto simp: noDuplicates_append)
  then show ?thesis
    using noDuplicates_mset [of "sort_key seqKey (freshMessages ms xs @ ms)" "freshMessages ms xs @ ms"]
    by simp
qed

section \<open>History as a finite map\<close>

text \<open>
  The abstract view of a message list: the message shown for each sequence number.
\<close>

definition historyOf :: "chatMessage list \<Rightarrow> int \<Rightarrow> chatMessage option" where
  "historyOf ms k = List.find (\<lambda>m. seqOf m = Some k) ms"

lemma find_filter: "List.find P xs = (case filter P xs of [] \<Rightarrow> None | x # _ \<Rightarrow> Some x)"
  by (induction xs) auto

lemma find_append:
  "List.find P (xs @ ys) = (case List.find P xs of Some x \<Rightarrow> Some x | None \<Rightarrow> List.find P ys)"
  by (induction xs) auto

lemma historyOf_append: "historyOf (xs @ ys) = historyOf ys ++ historyOf xs"
  by (rule ext) (simp add: historyOf_def find_append map_add_def split: option.splits)

lemma dom_historyOf: "k \<in> dom (historyOf ms) \<longleftrightarrow> k \<in> set (seqs ms)"
  by (auto simp: domIff historyOf_def find_None_iff set_seqs)

lemma historyOf_single:
  "historyOf [m] = (case seqOf m of None \<Rightarrow> Map.empty | Some k \<Rightarrow> [k \<mapsto> m])"
  by (rule ext) (auto simp: historyOf_def split: option.splits)

lemma historyOf_insertBySeq:
  assumes "\<not> list_ex (sameMessage m) ms"
  shows "historyOf (insertBySeq ms m) = (case seqOf m of None \<Rightarrow> historyOf ms | Some k \<Rightarrow> (historyOf ms)(k \<mapsto> m))"
proof -
  have new: "seqOf m = Some k \<Longrightarrow> historyOf ys k = None" if "set ys \<subseteq> set ms" for k ys
    using assms that by (fastforce simp: historyOf_def find_None_iff list_ex_iff sameMessage_def)
  obtain xs ys where split: "ms = xs @ ys" and ins: "insertBySeq ms m = xs @ [m] @ ys"
  proof (cases rule: insertBySeq_cases [of ms m])
    case tail
    then show ?thesis using that [of ms "[]"] by simp
  next
    case (inside n)
    then show ?thesis
      using that [of "takeWhile (\<lambda>x. \<not> laterThan n x) ms" "dropWhile (\<lambda>x. \<not> laterThan n x) ms"] by simp
  qed
  show ?thesis
    unfolding ins unfolding split historyOf_append historyOf_single
    using new [of xs] new [of ys] split
    by (intro ext) (auto simp: map_add_def split: option.splits)
qed

lemma historyOf_sort: "historyOf (sort_key seqKey ms) = historyOf ms"
proof
  fix k
  have P: "filter (\<lambda>m. seqOf m = Some k) xs = filter (\<lambda>m. seqOf m = Some k) (filter (\<lambda>m. seqKey m = k) xs)" for xs
    by (induction xs) (auto simp: seqKey_def)
  have "filter (\<lambda>m. seqOf m = Some k) (sort_key seqKey ms) = filter (\<lambda>m. seqOf m = Some k) ms"
    by (subst (1 2) P) (simp only: sort_key_stable)
  then show "historyOf (sort_key seqKey ms) k = historyOf ms k"
    by (simp add: historyOf_def find_filter)
qed

end
