(* ===== verification/Chat_Store.thy ===== *)
theory Chat_Store
  imports Chat_Messages
begin

text \<open>
  The chat store (\<^verbatim>\<open>web/app/stores/chatStore.ts\<close>): the state every chat component renders, and its
  actions. A zustand action is a function from state to state; \<open>set(partial)\<close> merges the returned
  fields, which is a record update here, and an action that returns the old state returns it
  unchanged. The definitions come first, in the order of the source; then the library of lemmas
  (message lists, the frame contract of the actions) and the properties.
\<close>

section \<open>State\<close>

record chatStore =
  conversations :: "(jsstring, conversation) jsmap"
  activeTopic :: "jsstring option"
  connectionState :: connectionState
  groups :: "(jsstring, group) jsmap"
  memberNames :: "(jsstring, (int, jsstring) jsmap) jsmap"
  mentionedTopics :: "jsstring set"

text \<open>\<open>Partial<Conversation> & { topic }\<close>: the fields a caller overrides.\<close>

record convPatch =
  p_topic :: jsstring
  p_type :: "convType option"
  p_peerId :: "jsnum option"
  p_peerUsername :: "jsstring option"
  p_name :: "jsstring option"
  p_lastMsgPreview :: "jsstring option"
  p_lastMsgAt :: "jstime option"
  p_lastSeq :: "jsnum option"
  p_lastReadSeq :: "jsnum option"
  p_unreadCount :: "int option"
  p_messages :: "chatMessage list option"
  p_hasMore :: "bool option"
  p_isLoading :: "bool option"

section \<open>Helpers of the source\<close>

definition ensureConversation ::
  "(jsstring, conversation) jsmap \<Rightarrow> jsstring \<Rightarrow> (jsstring, conversation) jsmap \<times> conversation" where
  "ensureConversation cmap topic =
     (case map_of cmap topic of
        Some existing \<Rightarrow> (cmap, existing)
      | None \<Rightarrow>
          (let conv = \<lparr>c_topic = topic,
                       c_type = (if startsWith topic (js ''p2p_'') then P2P else GroupChat),
                       c_peerId = JNum 0, c_peerUsername = [], c_name = None,
                       c_lastMsgPreview = None, c_lastMsgAt = None,
                       c_lastSeq = JNum 0, c_lastReadSeq = JNum 0, c_unreadCount = 0,
                       c_messages = [], c_hasMore = True, c_isLoading = False\<rparr>
           in (AList.update topic conv cmap, conv)))"

definition initialState :: chatStore where
  "initialState = \<lparr>conversations = [], activeTopic = None, connectionState = Disconnected,
                   groups = [], memberNames = [], mentionedTopics = {}\<rparr>"

section \<open>Actions\<close>

definition setConversations :: "conversation list \<Rightarrow> chatStore \<Rightarrow> chatStore" where
  "setConversations list state =
     (let entry = (\<lambda>conv.
            let existing = map_of (conversations state) (c_topic conv)
            in conv\<lparr>c_messages := (case existing of Some e \<Rightarrow> c_messages e | None \<Rightarrow> c_messages conv),
                    c_name := strOr (c_name conv) (Option.bind existing c_name),
                    c_peerUsername :=
                      (if c_peerUsername conv \<noteq> [] then c_peerUsername conv
                       else case existing of Some e \<Rightarrow> c_peerUsername e | None \<Rightarrow> [])\<rparr>);
          map1 = setAll c_topic entry [] list;
          map2 = foldl (\<lambda>m (topic, existing).
                          if \<not> hasKey m topic then AList.update topic existing m else m)
                   map1 (conversations state)
      in state\<lparr>conversations := map2\<rparr>)"

definition mergeConv :: "conversation \<Rightarrow> convPatch \<Rightarrow> conversation" where
  "mergeConv existing conv =
     \<lparr>c_topic = p_topic conv,
      c_type = (case p_type conv of None \<Rightarrow> c_type existing | Some x \<Rightarrow> x),
      c_peerId = (case p_peerId conv of None \<Rightarrow> c_peerId existing | Some x \<Rightarrow> x),
      c_peerUsername = (case p_peerUsername conv of None \<Rightarrow> c_peerUsername existing | Some x \<Rightarrow> x),
      c_name = (case p_name conv of None \<Rightarrow> c_name existing | Some x \<Rightarrow> Some x),
      c_lastMsgPreview = (case p_lastMsgPreview conv of None \<Rightarrow> c_lastMsgPreview existing | Some x \<Rightarrow> Some x),
      c_lastMsgAt = (case p_lastMsgAt conv of None \<Rightarrow> c_lastMsgAt existing | Some x \<Rightarrow> Some x),
      c_lastSeq = (case p_lastSeq conv of None \<Rightarrow> c_lastSeq existing | Some x \<Rightarrow> x),
      c_lastReadSeq = (case p_lastReadSeq conv of None \<Rightarrow> c_lastReadSeq existing | Some x \<Rightarrow> x),
      c_unreadCount = (case p_unreadCount conv of None \<Rightarrow> c_unreadCount existing | Some x \<Rightarrow> x),
      c_messages = (case p_messages conv of None \<Rightarrow> c_messages existing | Some x \<Rightarrow> x),
      c_hasMore = (case p_hasMore conv of None \<Rightarrow> c_hasMore existing | Some x \<Rightarrow> x),
      c_isLoading = (case p_isLoading conv of None \<Rightarrow> c_isLoading existing | Some x \<Rightarrow> x)\<rparr>"

definition upsertConversation :: "convPatch \<Rightarrow> chatStore \<Rightarrow> chatStore" where
  "upsertConversation conv state =
     (let (cmap, existing) = ensureConversation (conversations state) (p_topic conv)
      in state\<lparr>conversations := AList.update (p_topic conv) (mergeConv existing conv) cmap\<rparr>)"

definition setActiveTopic :: "jsstring option \<Rightarrow> chatStore \<Rightarrow> chatStore" where
  "setActiveTopic topic state = state\<lparr>activeTopic := topic\<rparr>"

definition appendMessage :: "jsstring \<Rightarrow> chatMessage \<Rightarrow> chatStore \<Rightarrow> chatStore" where
  "appendMessage topic msg state =
     (let (cmap, conv) = ensureConversation (conversations state) topic;
          exists = list_ex (sameMessage msg) (c_messages conv);
          messages = (if exists then c_messages conv else insertBySeq (c_messages conv) msg);
          lastSeq = (case seqOf msg of
                       Some k \<Rightarrow> if k > Number (c_lastSeq conv) then JNum k else c_lastSeq conv
                     | None \<Rightarrow> c_lastSeq conv)
      in state\<lparr>conversations := AList.update topic
                (conv\<lparr>c_messages := messages,
                      c_lastMsgPreview := Some (previewForMessage msg),
                      c_lastMsgAt := Some (m_timestamp msg),
                      c_lastSeq := lastSeq\<rparr>) cmap\<rparr>)"

definition updateMessageStatus :: "jsstring \<Rightarrow> jsstring \<Rightarrow> msgPatch \<Rightarrow> chatStore \<Rightarrow> chatStore" where
  "updateMessageStatus topic clientMsgId patch state =
     (case map_of (conversations state) topic of
        None \<Rightarrow> state
      | Some conv \<Rightarrow>
          (case findIndex (\<lambda>m. m_clientMsgId m = clientMsgId) (c_messages conv) of
             None \<Rightarrow> state
           | Some idx \<Rightarrow>
               (let newMessages = (c_messages conv)[idx := mergeMsg (c_messages conv ! idx) patch]
                in state\<lparr>conversations :=
                     AList.update topic (conv\<lparr>c_messages := newMessages\<rparr>) (conversations state)\<rparr>)))"

definition recallMessage :: "jsstring \<Rightarrow> int \<Rightarrow> int option \<Rightarrow> chatStore \<Rightarrow> chatStore" where
  "recallMessage topic topicSeq msgId state =
     (case map_of (conversations state) topic of
        None \<Rightarrow> state
      | Some conv \<Rightarrow>
          state\<lparr>conversations := AList.update topic
            (conv\<lparr>c_messages := map (recallOne topicSeq msgId) (c_messages conv),
                  c_lastMsgPreview := Some recalledText\<rparr>) (conversations state)\<rparr>)"

definition setMessagesLoading :: "jsstring \<Rightarrow> bool \<Rightarrow> chatStore \<Rightarrow> chatStore" where
  "setMessagesLoading topic flag state =
     (let (cmap, conv) = ensureConversation (conversations state) topic
      in state\<lparr>conversations := AList.update topic (conv\<lparr>c_isLoading := flag\<rparr>) cmap\<rparr>)"

definition prependMessages :: "jsstring \<Rightarrow> chatMessage list \<Rightarrow> bool \<Rightarrow> chatStore \<Rightarrow> chatStore" where
  "prependMessages topic msgs hasMore state =
     (let (cmap, conv) = ensureConversation (conversations state) topic;
          newMsgs = freshMessages (c_messages conv) msgs;
          merged = sort_key seqKey (newMsgs @ c_messages conv);
          lastSeq = (case Option.bind (lastOf newMsgs) seqOf of
                       Some k \<Rightarrow> if k > Number (c_lastSeq conv) then JNum k else c_lastSeq conv
                     | None \<Rightarrow> c_lastSeq conv)
      in state\<lparr>conversations := AList.update topic
                (conv\<lparr>c_messages := merged, c_hasMore := hasMore, c_lastSeq := lastSeq\<rparr>) cmap\<rparr>)"

definition markTopicRead :: "jsstring \<Rightarrow> jsnum \<Rightarrow> chatStore \<Rightarrow> chatStore" where
  "markTopicRead topic upToSeq state =
     (case map_of (conversations state) topic of
        None \<Rightarrow> state
      | Some conv \<Rightarrow>
          state\<lparr>conversations := AList.update topic
                  (conv\<lparr>c_messages := map (readOne (c_peerId conv) upToSeq) (c_messages conv),
                        c_unreadCount := 0,
                        c_lastReadSeq := JNum (max (Number (c_lastReadSeq conv)) (Number upToSeq))\<rparr>)
                  (conversations state),
                mentionedTopics := mentionedTopics state - {topic}\<rparr>)"

definition updateConnectionState :: "connectionState \<Rightarrow> chatStore \<Rightarrow> chatStore" where
  "updateConnectionState st state = state\<lparr>connectionState := st\<rparr>"

definition setGroup :: "group \<Rightarrow> chatStore \<Rightarrow> chatStore" where
  "setGroup g state = state\<lparr>groups := AList.update (g_topic g) g (groups state)\<rparr>"

definition setGroups :: "group list \<Rightarrow> chatStore \<Rightarrow> chatStore" where
  "setGroups gs state = state\<lparr>groups := setAll g_topic (\<lambda>g. g) [] gs\<rparr>"

definition setMemberNames :: "jsstring \<Rightarrow> groupMember list \<Rightarrow> chatStore \<Rightarrow> chatStore" where
  "setMemberNames topic members state =
     state\<lparr>memberNames :=
       AList.update topic (setAll (\<lambda>m. Number (gm_userId m)) gm_username [] members) (memberNames state)\<rparr>"

definition markTopicMentioned :: "jsstring \<Rightarrow> chatStore \<Rightarrow> chatStore" where
  "markTopicMentioned topic state =
     (if topic \<in> mentionedTopics state then state
      else state\<lparr>mentionedTopics := insert topic (mentionedTopics state)\<rparr>)"

definition reset :: "chatStore \<Rightarrow> chatStore" where
  "reset state = initialState"

text \<open>The \<open>ChatStore\<close> interface: every action a component or a handler can run.\<close>

datatype storeAction =
    SetConversations "conversation list"
  | UpsertConversation convPatch
  | SetActiveTopic "jsstring option"
  | AppendMessage jsstring chatMessage
  | UpdateMessageStatus jsstring jsstring msgPatch
  | RecallMessage jsstring int "int option"
  | SetMessagesLoading jsstring bool
  | PrependMessages jsstring "chatMessage list" bool
  | MarkTopicRead jsstring jsnum
  | UpdateConnectionState connectionState
  | SetGroup group
  | SetGroups "group list"
  | SetMemberNames jsstring "groupMember list"
  | MarkTopicMentioned jsstring
  | Reset

fun dispatchAction :: "storeAction \<Rightarrow> chatStore \<Rightarrow> chatStore" where
  "dispatchAction (SetConversations cs) s = setConversations cs s"
| "dispatchAction (UpsertConversation p) s = upsertConversation p s"
| "dispatchAction (SetActiveTopic t) s = setActiveTopic t s"
| "dispatchAction (AppendMessage t m) s = appendMessage t m s"
| "dispatchAction (UpdateMessageStatus t i p) s = updateMessageStatus t i p s"
| "dispatchAction (RecallMessage t n i) s = recallMessage t n i s"
| "dispatchAction (SetMessagesLoading t b) s = setMessagesLoading t b s"
| "dispatchAction (PrependMessages t ms b) s = prependMessages t ms b s"
| "dispatchAction (MarkTopicRead t n) s = markTopicRead t n s"
| "dispatchAction (UpdateConnectionState st) s = updateConnectionState st s"
| "dispatchAction (SetGroup g) s = setGroup g s"
| "dispatchAction (SetGroups gs) s = setGroups gs s"
| "dispatchAction (SetMemberNames t ms) s = setMemberNames t ms s"
| "dispatchAction (MarkTopicMentioned t) s = markTopicMentioned t s"
| "dispatchAction Reset s = reset s"

section \<open>Well-formed stores\<close>

text \<open>Keys are unique and every conversation and group is stored under its own topic.\<close>

definition convsOk :: "(jsstring, conversation) jsmap \<Rightarrow> bool" where
  "convsOk m \<longleftrightarrow> distinct (keys m) \<and> (\<forall>t c. map_of m t = Some c \<longrightarrow> c_topic c = t)"

definition groupsOk :: "(jsstring, group) jsmap \<Rightarrow> bool" where
  "groupsOk m \<longleftrightarrow> distinct (keys m) \<and> (\<forall>t g. map_of m t = Some g \<longrightarrow> g_topic g = t)"

definition namesOk :: "(jsstring, (int, jsstring) jsmap) jsmap \<Rightarrow> bool" where
  "namesOk m \<longleftrightarrow> distinct (keys m) \<and> (\<forall>t ns. map_of m t = Some ns \<longrightarrow> distinct (keys ns))"

definition storeOk :: "chatStore \<Rightarrow> bool" where
  "storeOk s \<longleftrightarrow> convsOk (conversations s) \<and> groupsOk (groups s) \<and> namesOk (memberNames s)"

lemma convsOk_update: "convsOk m \<Longrightarrow> c_topic c = t \<Longrightarrow> convsOk (AList.update t c m)"
  by (auto simp: convsOk_def distinct_update)

lemma convsOk_lookup: "convsOk m \<Longrightarrow> map_of m t = Some c \<Longrightarrow> c_topic c = t"
  by (auto simp: convsOk_def)

lemma ensureConversation_props:
  assumes "ensureConversation m t = (m', c)"
  shows "map_of m' t = Some c" and "t' \<noteq> t \<Longrightarrow> map_of m' t' = map_of m t'"
    and "convsOk m \<Longrightarrow> convsOk m' \<and> c_topic c = t"
  using assms
  by (auto simp: ensureConversation_def Let_def convsOk_def distinct_update
        split: option.splits if_split_asm)

lemma ensureConversation_known: "map_of m t = Some c \<Longrightarrow> ensureConversation m t = (m, c)"
  by (simp add: ensureConversation_def)

lemma setConversations_lookup:
  "map_of (foldl (\<lambda>m (topic, existing). if \<not> hasKey m topic then AList.update topic existing m else m)
             m xs) t = (case map_of m t of Some c \<Rightarrow> Some c | None \<Rightarrow> map_of xs t)"
proof (induction xs arbitrary: m)
  case (Cons x xs)
  obtain a b where "x = (a, b)" by (cases x)
  with Cons.IH show ?case
    by (cases "map_of m a") (auto simp: hasKey_def split: option.splits)
qed (simp split: option.splits)

lemma distinct_setConversations_loop:
  "distinct (keys m) \<Longrightarrow>
   distinct (keys (foldl (\<lambda>m (topic, existing).
     if \<not> hasKey m topic then AList.update topic existing m else m) m xs))"
  by (induction xs arbitrary: m) (auto simp: distinct_update)

section \<open>The contract of the per-conversation actions\<close>

text \<open>
  Seven actions address one conversation. Each keeps the store well formed, leaves every other
  conversation as it is, and does not touch the rest of the state; so do sequences of them.
\<close>

locale conv_action =
  fixes act :: "'a \<Rightarrow> chatStore \<Rightarrow> chatStore"
    and target :: "'a \<Rightarrow> jsstring"
  assumes frame: "t \<noteq> target a \<Longrightarrow> map_of (conversations (act a s)) t = map_of (conversations s) t"
    and keeps_convs: "convsOk (conversations s) \<Longrightarrow> convsOk (conversations (act a s))"
    and outer: "activeTopic (act a s) = activeTopic s \<and> connectionState (act a s) = connectionState s \<and>
                groups (act a s) = groups s \<and> memberNames (act a s) = memberNames s"
    and mentions: "mentionedTopics (act a s) \<subseteq> mentionedTopics s"
begin

lemma keeps_store: "storeOk s \<Longrightarrow> storeOk (act a s)"
  using keeps_convs [of s a] outer [of a s] by (simp add: storeOk_def)

lemma run_frame:
  "\<forall>a \<in> set as. target a \<noteq> t \<Longrightarrow>
   map_of (conversations (fold act as s)) t = map_of (conversations s) t"
  by (induction as arbitrary: s) (auto simp: frame)

lemma run_store: "storeOk s \<Longrightarrow> storeOk (fold act as s)"
  by (induction as arbitrary: s) (auto intro: keeps_store)

end

lemmas store_defs = upsertConversation_def appendMessage_def updateMessageStatus_def recallMessage_def
  setMessagesLoading_def prependMessages_def markTopicRead_def Let_def

interpretation upsert: conv_action upsertConversation p_topic
  by unfold_locales
     (auto simp: store_defs mergeConv_def intro!: convsOk_update
       dest: ensureConversation_props split: prod.splits)

interpretation append: conv_action "\<lambda>(t, m). appendMessage t m" fst
  by unfold_locales
     (auto simp: store_defs intro!: convsOk_update dest: ensureConversation_props split: prod.splits)

interpretation status: conv_action "\<lambda>(t, i, p). updateMessageStatus t i p" fst
  by unfold_locales
     (auto simp: store_defs intro!: convsOk_update dest: convsOk_lookup split: prod.splits option.splits)

interpretation recall: conv_action "\<lambda>(t, n, i). recallMessage t n i" fst
  by unfold_locales
     (auto simp: store_defs intro!: convsOk_update dest: convsOk_lookup split: prod.splits option.splits)

interpretation loading: conv_action "\<lambda>(t, b). setMessagesLoading t b" fst
  by unfold_locales
     (auto simp: store_defs intro!: convsOk_update dest: ensureConversation_props split: prod.splits)

interpretation prepend: conv_action "\<lambda>(t, ms, b). prependMessages t ms b" fst
  by unfold_locales
     (auto simp: store_defs intro!: convsOk_update dest: ensureConversation_props split: prod.splits)

interpretation read: conv_action "\<lambda>(t, n). markTopicRead t n" fst
  by unfold_locales
     (auto simp: store_defs intro!: convsOk_update dest: convsOk_lookup split: prod.splits option.splits)

section \<open>Every action keeps the store well formed\<close>

lemma setConversations_storeOk:
  assumes "storeOk s"
  shows "storeOk (setConversations cs s)"
proof -
  define m1 where "m1 = setAll c_topic (\<lambda>conv.
      let existing = map_of (conversations s) (c_topic conv)
      in conv\<lparr>c_messages := (case existing of Some e \<Rightarrow> c_messages e | None \<Rightarrow> c_messages conv),
              c_name := strOr (c_name conv) (Option.bind existing c_name),
              c_peerUsername := (if c_peerUsername conv \<noteq> [] then c_peerUsername conv
                                 else case existing of Some e \<Rightarrow> c_peerUsername e | None \<Rightarrow> [])\<rparr>) [] cs"
  have 1: "distinct (keys m1)"
    unfolding m1_def by (rule distinct_setAll) simp
  have 2: "map_of m1 t = Some c \<Longrightarrow> c_topic c = t" for t c
    by (auto simp: m1_def map_of_setAll Let_def find_Some_iff split: option.splits)
  have "conversations (setConversations cs s) =
      foldl (\<lambda>m (topic, existing). if \<not> hasKey m topic then AList.update topic existing m else m)
        m1 (conversations s)"
    by (simp add: setConversations_def m1_def Let_def)
  moreover have "convsOk (foldl (\<lambda>m (topic, existing).
      if \<not> hasKey m topic then AList.update topic existing m else m) m1 (conversations s))"
    unfolding convsOk_def setConversations_lookup
    using assms 1 2
    by (auto simp: storeOk_def convsOk_def distinct_setConversations_loop split: option.splits)
  ultimately show ?thesis
    using assms by (simp add: storeOk_def setConversations_def Let_def)
qed

lemma groupsOk_setAll: "groupsOk (setAll g_topic (\<lambda>g. g) [] gs)"
  unfolding groupsOk_def
  by (auto simp: distinct_setAll map_of_setAll find_Some_iff split: option.splits)

lemma dispatchAction_storeOk:
  assumes "storeOk s"
  shows "storeOk (dispatchAction a s)"
proof (cases a)
  case (SetConversations cs)
  with assms show ?thesis by (simp add: setConversations_storeOk)
next
  case (UpsertConversation p)
  with assms show ?thesis by (simp add: upsert.keeps_store)
next
  case (AppendMessage t m)
  with assms show ?thesis using append.keeps_store [of s "(t, m)"] by simp
next
  case (UpdateMessageStatus t i p)
  with assms show ?thesis using status.keeps_store [of s "(t, i, p)"] by simp
next
  case (RecallMessage t n i)
  with assms show ?thesis using recall.keeps_store [of s "(t, n, i)"] by simp
next
  case (SetMessagesLoading t b)
  with assms show ?thesis using loading.keeps_store [of s "(t, b)"] by simp
next
  case (PrependMessages t ms b)
  with assms show ?thesis using prepend.keeps_store [of s "(t, ms, b)"] by simp
next
  case (MarkTopicRead t n)
  with assms show ?thesis using read.keeps_store [of s "(t, n)"] by simp
next
  case (SetGroup g)
  with assms show ?thesis
    by (auto simp: storeOk_def setGroup_def groupsOk_def distinct_update)
next
  case (SetGroups gs)
  with assms show ?thesis
    by (simp add: storeOk_def setGroups_def groupsOk_setAll)
next
  case (SetMemberNames t ms)
  with assms show ?thesis
    by (auto simp: storeOk_def setMemberNames_def namesOk_def distinct_update distinct_setAll)
qed (use assms in \<open>simp_all add: storeOk_def setActiveTopic_def updateConnectionState_def
       markTopicMentioned_def reset_def initialState_def convsOk_def groupsOk_def namesOk_def\<close>)

lemma initialState_storeOk: "storeOk initialState"
  by (simp add: storeOk_def initialState_def convsOk_def groupsOk_def namesOk_def)

section \<open>The messages of a topic\<close>

definition messagesOf :: "chatStore \<Rightarrow> jsstring \<Rightarrow> chatMessage list" where
  "messagesOf s t = (case map_of (conversations s) t of None \<Rightarrow> [] | Some c \<Rightarrow> c_messages c)"

definition lastSeqOf :: "chatStore \<Rightarrow> jsstring \<Rightarrow> int" where
  "lastSeqOf s t = (case map_of (conversations s) t of None \<Rightarrow> 0 | Some c \<Rightarrow> Number (c_lastSeq c))"

lemma ensureConversation_messages:
  "c_messages (snd (ensureConversation (conversations s) t)) = messagesOf s t"
  "Number (c_lastSeq (snd (ensureConversation (conversations s) t))) = lastSeqOf s t"
  by (simp_all add: ensureConversation_def messagesOf_def lastSeqOf_def Let_def split: option.splits)

lemma messagesOf_put [simp]: "messagesOf (s\<lparr>conversations := AList.update t c m\<rparr>) t = c_messages c"
  by (simp add: messagesOf_def)

lemma lastSeqOf_put [simp]: "lastSeqOf (s\<lparr>conversations := AList.update t c m\<rparr>) t = Number (c_lastSeq c)"
  by (simp add: lastSeqOf_def)

lemma ensureConversation_obtain:
  obtains m c where "ensureConversation (conversations s) t = (m, c)"
    and "c_messages c = messagesOf s t" and "Number (c_lastSeq c) = lastSeqOf s t"
  using ensureConversation_messages [of s t] by (metis prod.collapse)

lemma messagesOf_appendMessage:
  "messagesOf (appendMessage t m s) t =
     (if list_ex (sameMessage m) (messagesOf s t) then messagesOf s t else insertBySeq (messagesOf s t) m)"
  by (rule ensureConversation_obtain [of s t]) (simp add: appendMessage_def Let_def)

lemma messagesOf_arrivals:
  "messagesOf (fold (appendMessage t) xs s) t =
     foldl (\<lambda>ms m. if list_ex (sameMessage m) ms then ms else insertBySeq ms m) (messagesOf s t) xs"
  by (induction xs arbitrary: s) (simp_all add: messagesOf_appendMessage)

lemma messagesOf_prependMessages:
  "messagesOf (prependMessages t ms b s) t =
     sort_key seqKey (freshMessages (messagesOf s t) ms @ messagesOf s t)"
  by (rule ensureConversation_obtain [of s t]) (simp add: prependMessages_def Let_def)

lemma lastSeqOf_appendMessage:
  "lastSeqOf (appendMessage t m s) t =
     (case seqOf m of None \<Rightarrow> lastSeqOf s t | Some k \<Rightarrow> max k (lastSeqOf s t))"
  by (rule ensureConversation_obtain [of s t])
     (auto simp: appendMessage_def Let_def max_def split: option.splits)

section \<open>Properties\<close>

text \<open>Example data for the witnesses.\<close>

definition sampleMsg :: "string \<Rightarrow> jsnum option \<Rightarrow> chatMessage" where
  "sampleMsg i q = \<lparr>m_clientMsgId = js i, m_msgId = None, m_topic = js ''grp_1'', m_senderId = JNum 7,
     m_content = js i, m_msgType = Some 1, m_timestamp = TNum 0, m_topicSeq = q, m_status = Delivered,
     m_recalled = None\<rparr>"

lemmas sample_simps = sampleMsg_def js_def seqOf_def seqKey_def sameMessage_def insertBySeq_def
  lastOf_def freshMessages_def

text \<open>C5. Whatever sequence of store actions runs, starting from the initial state, the store stays well
  formed: conversation, group and member tables have unique keys, and every conversation and group is
  filed under its own topic.\<close>

theorem store_always_ok: "storeOk (fold dispatchAction actions initialState)"
proof -
  have "storeOk s \<Longrightarrow> storeOk (fold dispatchAction actions s)" for s
    by (induction actions arbitrary: s) (auto intro: dispatchAction_storeOk)
  then show ?thesis using initialState_storeOk by blast
qed

text \<open>C6. Convergence: confirmed messages pushed to a fresh topic end up strictly ordered by sequence
  number and each shown once, and the list does not depend on the order of arrival or on repeated
  deliveries. The hypothesis says that client ids and sequence numbers identify messages.\<close>

theorem appendMessage_converges:
  assumes "\<forall>m \<in> set xs. seqOf m \<noteq> None"
    and "\<forall>m \<in> set xs. \<forall>x \<in> set xs. sameMessage m x \<longrightarrow> x = m"
    and "set ys = set xs" and "messagesOf s t = []"
  shows "set (messagesOf (fold (appendMessage t) xs s) t) = set xs \<and>
         sorted_wrt (\<lambda>a b. seqKey a < seqKey b) (messagesOf (fold (appendMessage t) xs s) t) \<and>
         messagesOf (fold (appendMessage t) ys s) t = messagesOf (fold (appendMessage t) xs s) t"
  using chat_log.log_run [of "[]" xs] chat_log.arrival_order_irrelevant [of xs ys] assms
  by (simp add: messagesOf_arrivals)

theorem appendMessage_converges_witness:
  "messagesOf (fold (appendMessage (js ''grp_1''))
      [sampleMsg ''b'' (Some (JNum 9)), sampleMsg ''a'' (Some (JStr 2)), sampleMsg ''b'' (Some (JNum 9))]
      initialState) (js ''grp_1'') = [sampleMsg ''a'' (Some (JStr 2)), sampleMsg ''b'' (Some (JNum 9))] \<and>
   messagesOf (fold (appendMessage (js ''grp_1''))
      [sampleMsg ''a'' (Some (JStr 2)), sampleMsg ''b'' (Some (JNum 9))] initialState) (js ''grp_1'') =
   messagesOf (fold (appendMessage (js ''grp_1''))
      [sampleMsg ''b'' (Some (JNum 9)), sampleMsg ''a'' (Some (JStr 2)), sampleMsg ''b'' (Some (JNum 9))]
      initialState) (js ''grp_1'')"
proof -
  let ?xs = "[sampleMsg ''b'' (Some (JNum 9)), sampleMsg ''a'' (Some (JStr 2)), sampleMsg ''b'' (Some (JNum 9))]"
  let ?ys = "[sampleMsg ''a'' (Some (JStr 2)), sampleMsg ''b'' (Some (JNum 9))]"
  have h: "\<forall>m \<in> set ?xs. seqOf m \<noteq> None"
      "\<forall>m \<in> set ?xs. \<forall>x \<in> set ?xs. sameMessage m x \<longrightarrow> x = m"
      "set ?ys = set ?xs" "messagesOf initialState (js ''grp_1'') = []"
    by (auto simp: sample_simps messagesOf_def initialState_def)
  have "messagesOf (fold (appendMessage (js ''grp_1'')) ?ys initialState) (js ''grp_1'') = ?ys"
    by (simp only: messagesOf_arrivals h(4)) (simp add: sample_simps)
  with appendMessage_converges [OF h] show ?thesis by simp
qed

text \<open>Ordering: appending a message keeps the displayed sequence numbers ascending, provided the list
  does not end in an unconfirmed message (one without sequence number).\<close>

theorem appendMessage_keeps_order:
  assumes "sorted (seqs (messagesOf s t))"
    and "seqOf m = None \<or> messagesOf s t = [] \<or> seqOf (last (messagesOf s t)) \<noteq> None"
  shows "sorted (seqs (messagesOf (appendMessage t m s) t))"
  using assms by (simp add: messagesOf_appendMessage insertBySeq_sorted)

theorem appendMessage_keeps_order_witness:
  "seqs (messagesOf (appendMessage (js ''grp_1'') (sampleMsg ''c'' (Some (JNum 4)))
     (fold (appendMessage (js ''grp_1'')) [sampleMsg ''a'' (Some (JStr 2)), sampleMsg ''b'' (Some (JNum 9))]
        initialState)) (js ''grp_1'')) = [2, 4, 9] \<and> sorted [2, 4, 9 :: int]"
proof -
  let ?s = "fold (appendMessage (js ''grp_1'')) [sampleMsg ''a'' (Some (JStr 2)), sampleMsg ''b'' (Some (JNum 9))]
        initialState"
  have init: "messagesOf initialState t = []" for t
    by (simp add: messagesOf_def initialState_def)
  have s: "messagesOf ?s (js ''grp_1'') = [sampleMsg ''a'' (Some (JStr 2)), sampleMsg ''b'' (Some (JNum 9))]"
    by (simp only: messagesOf_arrivals init) (simp add: sample_simps)
  have "seqs (messagesOf (appendMessage (js ''grp_1'') (sampleMsg ''c'' (Some (JNum 4))) ?s) (js ''grp_1'')) = [2, 4, 9]"
    by (simp only: messagesOf_appendMessage s) (simp add: sample_simps)
  moreover have "sorted (seqs (messagesOf (appendMessage (js ''grp_1'') (sampleMsg ''c'' (Some (JNum 4))) ?s) (js ''grp_1'')))"
    by (rule appendMessage_keeps_order) (simp_all only: s, simp_all add: sample_simps)
  ultimately show ?thesis by simp
qed

text \<open>C29. The proviso is needed, although the comment of \<open>insertBySeq\<close> promises ascending order: when the
  list ends in a message still being sent and holds a larger number than that of a late push it does
  not hold yet, the push is placed after both, and the displayed numbers are not ascending.\<close>

theorem appendMessage_breaks_order_after_pending:
  assumes "messagesOf s t \<noteq> []" and "seqOf (last (messagesOf s t)) = None"
    and "x \<in> set (messagesOf s t)" and "seqOf x = Some j"
    and "seqOf m = Some k" and "k < j" and "\<not> list_ex (sameMessage m) (messagesOf s t)"
  shows "messagesOf (appendMessage t m s) t = messagesOf s t @ [m] \<and>
         \<not> sorted (seqs (messagesOf (appendMessage t m s) t))"
proof -
  have "messagesOf (appendMessage t m s) t = messagesOf s t @ [m]"
    using assms(1,2,5,7) by (simp add: messagesOf_appendMessage insertBySeq_def lastOf_def)
  moreover have "j \<in> set (seqs (messagesOf s t))"
    using assms(3,4) by (auto simp: set_seqs)
  then have "\<not> sorted (seqs (messagesOf s t @ [m]))"
    using assms(5,6) by (auto simp: sorted_append intro!: bexI [of _ j])
  ultimately show ?thesis by simp
qed

theorem appendMessage_breaks_order_after_pending_witness:
  "\<not> sorted (seqs (messagesOf (appendMessage (js ''grp_1'') (sampleMsg ''late'' (Some (JNum 3)))
      (fold (appendMessage (js ''grp_1'')) [sampleMsg ''a'' (Some (JNum 5)), sampleMsg ''mine'' None] initialState)) (js ''grp_1'')))"
proof -
  let ?s = "fold (appendMessage (js ''grp_1'')) [sampleMsg ''a'' (Some (JNum 5)), sampleMsg ''mine'' None] initialState"
  have init: "messagesOf initialState t = []" for t
    by (simp add: messagesOf_def initialState_def)
  have s: "messagesOf ?s (js ''grp_1'') = [sampleMsg ''a'' (Some (JNum 5)), sampleMsg ''mine'' None]"
    by (simp only: messagesOf_arrivals init) (simp add: sample_simps)
  have "messagesOf ?s (js ''grp_1'') \<noteq> []" "seqOf (last (messagesOf ?s (js ''grp_1''))) = None"
    "sampleMsg ''a'' (Some (JNum 5)) \<in> set (messagesOf ?s (js ''grp_1''))" "seqOf (sampleMsg ''a'' (Some (JNum 5))) = Some 5"
    "seqOf (sampleMsg ''late'' (Some (JNum 3))) = Some 3" "(3 :: int) < 5"
    "\<not> list_ex (sameMessage (sampleMsg ''late'' (Some (JNum 3)))) (messagesOf ?s (js ''grp_1''))"
    unfolding s by (simp_all add: sample_simps)
  from appendMessage_breaks_order_after_pending [OF this] show ?thesis by blast
qed

text \<open>No duplicates: if the messages of a topic are pairwise different (by client id and by sequence
  number), they still are after an append; appending the same message again changes no message; and the
  highest known sequence number is the maximum of the old one and the message's.\<close>

theorem appendMessage_no_duplicates:
  assumes "noDuplicates (messagesOf s t)"
  shows "noDuplicates (messagesOf (appendMessage t m s) t) \<and>
         messagesOf (appendMessage t m (appendMessage t m s)) t = messagesOf (appendMessage t m s) t \<and>
         lastSeqOf (appendMessage t m s) t =
           (case seqOf m of None \<Rightarrow> lastSeqOf s t | Some k \<Rightarrow> max k (lastSeqOf s t))"
proof -
  have "list_ex (sameMessage m) (messagesOf (appendMessage t m s) t)"
    by (auto simp: messagesOf_appendMessage list_ex_iff set_insertBySeq sameMessage_def)
  then show ?thesis
    using assms
    by (simp add: messagesOf_appendMessage [of t m "appendMessage t m s"] lastSeqOf_appendMessage)
       (simp add: messagesOf_appendMessage noDuplicates_insertBySeq)
qed

theorem appendMessage_no_duplicates_witness:
  "noDuplicates (messagesOf initialState (js ''grp_1'')) \<and>
   noDuplicates (messagesOf (appendMessage (js ''grp_1'') (sampleMsg ''a'' (Some (JNum 5))) initialState) (js ''grp_1'')) \<and>
   lastSeqOf (appendMessage (js ''grp_1'') (sampleMsg ''a'' (Some (JNum 5))) initialState) (js ''grp_1'') = 5"
proof -
  have h: "noDuplicates (messagesOf initialState (js ''grp_1''))"
    by (simp add: noDuplicates_def messagesOf_def initialState_def)
  show ?thesis
    using h appendMessage_no_duplicates [OF h, of "sampleMsg ''a'' (Some (JNum 5))"]
    by (simp add: sample_simps lastSeqOf_def initialState_def)
qed

text \<open>C22. A history page merges into the list: the result is ordered by sequence number, keeps every
  message that was shown, contains every message of the page that was not, invents none, has no
  duplicates, and shows for each number what was shown before. The page's \<open>hasMore\<close> is taken over.\<close>

theorem prependMessages_merges:
  assumes "noDuplicates (messagesOf s t)" and "noDuplicates page"
    and "\<forall>m \<in> set (messagesOf s t). m_clientMsgId m \<noteq> []"
  shows "let ms = messagesOf (prependMessages t page hm s) t in
           sorted (map seqKey ms) \<and> noDuplicates ms \<and>
           set (messagesOf s t) \<subseteq> set ms \<and> set ms \<subseteq> set (messagesOf s t) \<union> set page \<and>
           (\<forall>x \<in> set page. x \<in> set ms \<or> (\<exists>m \<in> set (messagesOf s t). sameMessage x m)) \<and>
           historyOf (messagesOf s t) \<subseteq>\<^sub>m historyOf ms \<and>
           map_option c_hasMore (map_of (conversations (prependMessages t page hm s)) t) = Some hm"
proof -
  let ?old = "messagesOf s t" and ?new = "freshMessages (messagesOf s t) page"
  have hist: "historyOf ?old \<subseteq>\<^sub>m historyOf (sort_key seqKey (?new @ ?old))"
  proof -
    have "k \<notin> dom (historyOf ?new)" if "k \<in> dom (historyOf ?old)" for k
    proof
      assume "k \<in> dom (historyOf ?new)"
      then obtain x where x: "x \<in> set ?new" "seqOf x = Some k"
        by (auto simp: dom_historyOf set_seqs)
      from that obtain m where m: "m \<in> set ?old" "seqOf m = Some k"
        by (auto simp: dom_historyOf set_seqs)
      have "\<not> sameMessage x m"
        using freshMessages_fresh [OF x(1) m(1)] assms(3) m(1) by blast
      with x m show False by (auto simp: sameMessage_def)
    qed
    then show ?thesis
      unfolding historyOf_sort historyOf_append by (auto simp: map_le_def map_add_def domIff)
  qed
  moreover have "map_option c_hasMore (map_of (conversations (prependMessages t page hm s)) t) = Some hm"
    by (simp add: prependMessages_def Let_def split: prod.splits)
  ultimately show ?thesis
    using assms noDuplicates_page [of ?old page] freshMessages_subset [of ?old page]
      freshMessages_complete [of _ page ?old]
    by (auto simp: messagesOf_prependMessages Let_def)
qed

theorem prependMessages_merges_witness:
  "messagesOf (prependMessages (js ''grp_1'') [sampleMsg ''a'' (Some (JStr 2)), sampleMsg ''b'' (Some (JStr 9))] False
      (appendMessage (js ''grp_1'') (sampleMsg ''b'' (Some (JNum 9))) initialState)) (js ''grp_1'')
     = [sampleMsg ''a'' (Some (JStr 2)), sampleMsg ''b'' (Some (JNum 9))] \<and>
   noDuplicates [sampleMsg ''a'' (Some (JStr 2)), sampleMsg ''b'' (Some (JNum 9))]"
proof -
  let ?s = "appendMessage (js ''grp_1'') (sampleMsg ''b'' (Some (JNum 9))) initialState"
  let ?page = "[sampleMsg ''a'' (Some (JStr 2)), sampleMsg ''b'' (Some (JStr 9))]"
  have s: "messagesOf ?s (js ''grp_1'') = [sampleMsg ''b'' (Some (JNum 9))]"
    by (simp only: messagesOf_appendMessage) (simp add: messagesOf_def initialState_def sample_simps)
  have h: "noDuplicates (messagesOf ?s (js ''grp_1''))" "noDuplicates ?page"
      "\<forall>m \<in> set (messagesOf ?s (js ''grp_1'')). m_clientMsgId m \<noteq> []"
    unfolding s by (simp_all add: noDuplicates_def sample_simps)
  have "messagesOf (prependMessages (js ''grp_1'') ?page False ?s) (js ''grp_1'')
      = [sampleMsg ''a'' (Some (JStr 2)), sampleMsg ''b'' (Some (JNum 9))]"
    unfolding messagesOf_prependMessages s by (simp add: sample_simps List.map_filter_def)
  with prependMessages_merges [OF h, of False] show ?thesis by (simp add: Let_def)
qed

text \<open>C30. A page load moves unconfirmed messages to the front: the comparator reads a missing sequence
  number as 0, so when any message of the topic is still being sent (or failed) and the confirmed ones
  have positive numbers, the first message of the merged list is an unconfirmed one.\<close>

theorem prependMessages_pending_first:
  assumes "p \<in> set (messagesOf s t)" and "seqOf p = None"
    and "\<forall>m \<in> set (messagesOf s t) \<union> set page. \<forall>k. seqOf m = Some k \<longrightarrow> 0 < k"
  shows "seqOf (hd (messagesOf (prependMessages t page hm s) t)) = None"
proof -
  let ?ms = "messagesOf (prependMessages t page hm s) t"
  have p: "p \<in> set ?ms" and sub: "set ?ms \<subseteq> set (messagesOf s t) \<union> set page"
    using assms(1) freshMessages_subset by (auto simp: messagesOf_prependMessages)
  have "sorted (map seqKey ?ms)"
    by (simp add: messagesOf_prependMessages)
  with p have "seqKey (hd ?ms) \<le> seqKey p" and "hd ?ms \<in> set ?ms"
    by (cases ?ms; force)+
  with assms sub show ?thesis
    by (force simp: seqKey_def split: option.splits)
qed

theorem prependMessages_pending_first_witness:
  "seqOf (hd (messagesOf (prependMessages (js ''grp_1'') [sampleMsg ''a'' (Some (JStr 2))] True
      (fold (appendMessage (js ''grp_1'')) [sampleMsg ''b'' (Some (JNum 9)), sampleMsg ''mine'' None] initialState))
      (js ''grp_1''))) = None"
proof -
  let ?s = "fold (appendMessage (js ''grp_1'')) [sampleMsg ''b'' (Some (JNum 9)), sampleMsg ''mine'' None] initialState"
  have init: "messagesOf initialState t = []" for t
    by (simp add: messagesOf_def initialState_def)
  have s: "messagesOf ?s (js ''grp_1'') = [sampleMsg ''b'' (Some (JNum 9)), sampleMsg ''mine'' None]"
    by (simp only: messagesOf_arrivals init) (simp add: sample_simps)
  show ?thesis
    by (rule prependMessages_pending_first [where p = "sampleMsg ''mine'' None"])
       (simp_all only: s, auto simp: sample_simps)
qed

text \<open>C23. Refreshing the conversation list loses nothing: every conversation known before is still there
  with its messages; one the server lists takes the server's counters, one it does not list is kept
  unchanged; and the known topics are exactly the old and the listed ones.\<close>

theorem setConversations_keeps_history:
  "map_of (conversations s) t = Some e \<Longrightarrow>
     (\<exists>c. map_of (conversations (setConversations cs s)) t = Some c \<and> c_messages c = c_messages e \<and>
          (t \<notin> c_topic ` set cs \<longrightarrow> c = e) \<and>
          (t \<in> c_topic ` set cs \<longrightarrow>
             (\<exists>d \<in> set cs. c_topic d = t \<and> c_unreadCount c = c_unreadCount d \<and> c_lastSeq c = c_lastSeq d)))"
proof -
  assume e: "map_of (conversations s) t = Some e"
  show ?thesis
  proof (cases "List.find (\<lambda>d. c_topic d = t) (rev cs)")
    case None
    then have "t \<notin> c_topic ` set cs" by (auto simp: find_NoneD)
    moreover have "map_of (conversations (setConversations cs s)) t = Some e"
      using e None by (simp add: setConversations_def Let_def setConversations_lookup map_of_setAll)
    ultimately show ?thesis by blast
  next
    case (Some d)
    then have d: "d \<in> set cs" "c_topic d = t" by (auto dest: find_SomeD)
    then have "t \<in> c_topic ` set cs" by blast
    then show ?thesis
      using e Some d
      by (auto simp: setConversations_def Let_def setConversations_lookup map_of_setAll intro!: bexI [of _ d])
  qed
qed

theorem setConversations_keeps_history_witness:
  "map_option c_messages (map_of (conversations (setConversations []
      (appendMessage (js ''grp_1'') (sampleMsg ''a'' None) initialState))) (js ''grp_1'')) =
   Some [sampleMsg ''a'' None]"
proof -
  let ?s = "appendMessage (js ''grp_1'') (sampleMsg ''a'' None) initialState"
  have "messagesOf ?s (js ''grp_1'') = [sampleMsg ''a'' None]"
    by (simp only: messagesOf_appendMessage) (simp add: messagesOf_def initialState_def sample_simps)
  then obtain e where e: "map_of (conversations ?s) (js ''grp_1'') = Some e"
    and m: "c_messages e = [sampleMsg ''a'' None]"
    by (auto simp: messagesOf_def split: option.splits)
  from setConversations_keeps_history [OF e, of "[]"] m show ?thesis by auto
qed

text \<open>Marking a topic read up to a numeric sequence number clears its unread counter and its mention
  badge, never lowers the read position, and turns exactly the messages not sent by the peer with a
  number up to the bound to "read", leaving ids, numbers and contents alone.\<close>

theorem markTopicRead_effect:
  assumes "map_of (conversations s) t = Some c"
  shows "\<exists>d. map_of (conversations (markTopicRead t (JNum n) s)) t = Some d \<and> c_unreadCount d = 0 \<and>
     Number (c_lastReadSeq d) = max (Number (c_lastReadSeq c)) n \<and>
     t \<notin> mentionedTopics (markTopicRead t (JNum n) s) \<and>
     map (\<lambda>m. (m_clientMsgId m, m_topicSeq m, m_content m)) (c_messages d) =
       map (\<lambda>m. (m_clientMsgId m, m_topicSeq m, m_content m)) (c_messages c) \<and>
     map m_status (c_messages d) =
       map (\<lambda>m. if m_senderId m \<noteq> c_peerId c \<and> (\<exists>k. seqOf m = Some k \<and> k \<le> n) then Read else m_status m)
         (c_messages c)"
proof -
  have "jsLessEq a (JNum n) \<longleftrightarrow> Number a \<le> n" for a
    by (cases a) (auto simp: jsLessEq_def)
  with assms show ?thesis
    by (auto simp: markTopicRead_def readOne_def seqOf_def split: option.splits)
qed

theorem markTopicRead_effect_witness:
  "\<exists>d. map_of (conversations (markTopicRead (js ''grp_1'') (JNum 10)
      (appendMessage (js ''grp_1'') (sampleMsg ''a'' (Some (JStr 9))) initialState))) (js ''grp_1'') = Some d \<and>
      map m_status (c_messages d) = [Read]"
proof -
  let ?s = "appendMessage (js ''grp_1'') (sampleMsg ''a'' (Some (JStr 9))) initialState"
  have c: "map_of (conversations ?s) (js ''grp_1'') = Some (the (map_of (conversations ?s) (js ''grp_1'')))"
    by (simp add: appendMessage_def Let_def split: prod.splits)
  have "c_messages (the (map_of (conversations ?s) (js ''grp_1''))) = [sampleMsg ''a'' (Some (JStr 9))] \<and>
        c_peerId (the (map_of (conversations ?s) (js ''grp_1''))) = JNum 0"
    by (simp add: appendMessage_def ensureConversation_def Let_def initialState_def sample_simps)
  with markTopicRead_effect [OF c, of 10] show ?thesis
    by (auto simp: sampleMsg_def seqOf_def)
qed

text \<open>When the bound is itself a proto-JSON string, as the \<open>lastSeq\<close> of a listed conversation is,
  JavaScript compares two strings by code unit: reading up to \<open>"10"\<close> leaves the pulled message \<open>"9"\<close>
  unread.\<close>

theorem markTopicRead_string_bound:
  "messagesOf (markTopicRead (js ''grp_1'') (JStr 10)
      (appendMessage (js ''grp_1'') (sampleMsg ''a'' (Some (JStr 9))) initialState)) (js ''grp_1'')
     = [sampleMsg ''a'' (Some (JStr 9))] \<and>
   map m_status (messagesOf (markTopicRead (js ''grp_1'') (JNum 10)
      (appendMessage (js ''grp_1'') (sampleMsg ''a'' (Some (JStr 9))) initialState)) (js ''grp_1''))
     = [Read]"
  by (simp add: appendMessage_def ensureConversation_def Let_def initialState_def sample_simps
        markTopicRead_def messagesOf_def readOne_def jsLessEq_def showInt_def showNat.simps)

text \<open>Recalling a message hides it everywhere in its topic: afterwards every message with that
  sequence number carries the placeholder text and the status "recalled", messages that match neither
  the number nor the message id are untouched, and the order and identity of messages stay.\<close>

theorem recallMessage_hides:
  assumes "map_of (conversations s) t = Some c"
  shows "length (messagesOf (recallMessage t n i s) t) = length (c_messages c) \<and>
     map m_clientMsgId (messagesOf (recallMessage t n i s) t) = map m_clientMsgId (c_messages c) \<and>
     (\<forall>m \<in> set (messagesOf (recallMessage t n i s) t). seqOf m = Some n \<longrightarrow>
        m_content m = recalledText \<and> m_status m = Recalled \<and> m_recalled m = Some True) \<and>
     (\<forall>m \<in> set (c_messages c). seqOf m \<noteq> Some n \<and> (i = None \<or> map_option Number (m_msgId m) \<noteq> i) \<longrightarrow>
        m \<in> set (messagesOf (recallMessage t n i s) t))"
proof -
  have ms: "messagesOf (recallMessage t n i s) t = map (recallOne n i) (c_messages c)"
    using assms by (simp add: recallMessage_def)
  have "m_clientMsgId (recallOne n i m) = m_clientMsgId m" for m
    by (simp add: recallOne_def)
  moreover have "seqOf (recallOne n i m) = Some n \<longrightarrow> m_content (recallOne n i m) = recalledText \<and>
      m_status (recallOne n i m) = Recalled \<and> m_recalled (recallOne n i m) = Some True" for m
    by (auto simp: recallOne_def seqOf_def)
  moreover have "seqOf m \<noteq> Some n \<and> (i = None \<or> map_option Number (m_msgId m) \<noteq> i) \<Longrightarrow> recallOne n i m = m" for m
    by (auto simp: recallOne_def split: option.splits)
  ultimately show ?thesis
    unfolding ms by (auto simp: image_iff) (metis (no_types, lifting))+
qed

theorem recallMessage_hides_witness:
  "m_content (hd (messagesOf (recallMessage (js ''grp_1'') 9 None
      (appendMessage (js ''grp_1'') (sampleMsg ''a'' (Some (JStr 9))) initialState)) (js ''grp_1''))) = recalledText"
proof -
  let ?s = "appendMessage (js ''grp_1'') (sampleMsg ''a'' (Some (JStr 9))) initialState"
  have c: "map_of (conversations ?s) (js ''grp_1'') = Some (the (map_of (conversations ?s) (js ''grp_1'')))"
    by (simp add: appendMessage_def Let_def split: prod.splits)
  have "messagesOf (recallMessage (js ''grp_1'') 9 None ?s) (js ''grp_1'') \<noteq> [] \<and>
        seqOf (hd (messagesOf (recallMessage (js ''grp_1'') 9 None ?s) (js ''grp_1''))) = Some 9"
    by (simp add: appendMessage_def ensureConversation_def Let_def initialState_def sample_simps
          recallMessage_def messagesOf_def recallOne_def)
  then show ?thesis
    using recallMessage_hides [OF c, of 9 None] by (simp add: hd_in_set)
qed

end
