(* ===== verification/Wire.thy ===== *)
theory Wire
  imports JS_Prelude "HOL-Library.Word"
begin

text \<open>
  What the generated Protobuf code (\<^verbatim>\<open>web/app/lib/proto/im.js\<close>) shares. The \<open>Reader\<close> and \<open>Writer\<close>
  of the \<^verbatim>\<open>protobufjs\<close> package are not part of the repository: they are a record of functions
  (\<open>runtime\<close>) every codec takes as a parameter. A writer operation is the byte string it appends; a
  reader operation takes the unread bytes and returns the value and the bytes left, or \<open>None\<close> where
  protobufjs throws. \<open>toLong\<close> is the 64-bit integer the writer makes of a number or a decimal string;
  \<open>oneOfKept names value f\<close> says whether the own property \<open>f\<close> survives the
  assignment of \<open>value\<close> through \<open>$util.oneOfSetter(names)\<close>. The locale \<open>wire_runtime\<close> states the
  documented behaviour of the package the codecs rely on.

  The \<open>while (reader.pos < end)\<close> loop of the \<open>decode\<close> functions is \<open>decodeLoop\<close>, the same for every
  message; a message contributes the \<open>switch\<close> over its fields. The position is the number of bytes
  left, the bound \<open>end\<close> the number of bytes left there (\<open>limit\<close>; negative when \<open>end\<close> lies behind the
  buffer). A reader that does not advance would make the source loop for ever: the model returns
  \<open>Diverges\<close>, and the laws exclude it.
\<close>

section \<open>The runtime\<close>

type_synonym byte = "8 word"
type_synonym bytes = "byte list"

datatype wireError = ReaderError | MaxDepth | Diverges

record runtime =
  wUint32 :: "nat \<Rightarrow> bytes"
  wInt32 :: "32 word \<Rightarrow> bytes"
  wUint64 :: "64 word \<Rightarrow> bytes"
  wInt64 :: "64 word \<Rightarrow> bytes"
  wBool :: "bool \<Rightarrow> bytes"
  wString :: "jsstring \<Rightarrow> bytes"
  wBytes :: "bytes \<Rightarrow> bytes"
  rTag :: "bytes \<Rightarrow> (nat \<times> bytes) option"
  rUint32 :: "bytes \<Rightarrow> (nat \<times> bytes) option"
  rInt32 :: "bytes \<Rightarrow> (32 word \<times> bytes) option"
  rUint64 :: "bytes \<Rightarrow> (64 word \<times> bytes) option"
  rInt64 :: "bytes \<Rightarrow> (64 word \<times> bytes) option"
  rBool :: "bytes \<Rightarrow> (bool \<times> bytes) option"
  rString :: "bytes \<Rightarrow> (jsstring \<times> bytes) option"
  rBytes :: "bytes \<Rightarrow> (bytes \<times> bytes) option"
  rSkip :: "nat \<Rightarrow> nat \<Rightarrow> nat \<Rightarrow> bytes \<Rightarrow> bytes option"
  toLong :: "jsnum \<Rightarrow> 64 word"
  oneOfKept :: "string list \<Rightarrow> string \<Rightarrow> string \<Rightarrow> bool"
  discardUnknown :: bool
  writeLimit :: nat
  readLimit :: nat

text \<open>A string without unpaired surrogates; only these survive UTF-8.\<close>

fun wellFormed :: "jsstring \<Rightarrow> bool" where
  "wellFormed [] = True"
| "wellFormed [c] = (c < 55296 \<or> (57344 \<le> c \<and> c < 65536))"
| "wellFormed (c # d # s) =
     (if c < 55296 \<or> (57344 \<le> c \<and> c < 65536) then wellFormed (d # s)
      else c < 56320 \<and> 56320 \<le> d \<and> d < 57344 \<and> wellFormed s)"

definition small :: "bytes \<Rightarrow> bool" where
  "small b \<longleftrightarrow> length b < 2 ^ 32"

section \<open>Writing\<close>

definition optional :: "'v option \<Rightarrow> ('v \<Rightarrow> bytes) \<Rightarrow> bytes" where
  "optional v f = (case v of None \<Rightarrow> [] | Some x \<Rightarrow> f x)"

text \<open>\<open>writer.uint32(tag).fork()\<close> ... \<open>ldelim()\<close>: the length of the nested bytes, then the bytes.\<close>

definition delimited :: "runtime \<Rightarrow> nat \<Rightarrow> bytes \<Rightarrow> bytes" where
  "delimited rt tag body = wUint32 rt tag @ wUint32 rt (length body) @ body"

definition packedInt64 :: "runtime \<Rightarrow> nat \<Rightarrow> 64 word list option \<Rightarrow> bytes" where
  "packedInt64 rt tag vs =
     (case vs of None \<Rightarrow> []
      | Some xs \<Rightarrow> if xs = [] then [] else delimited rt tag (concat (map (wInt64 rt) xs)))"

text \<open>A sequence of writes of which each may throw.\<close>

fun concatE :: "(wireError + bytes) list \<Rightarrow> wireError + bytes" where
  "concatE [] = Inr []"
| "concatE (x # xs) =
     (case x of Inl e \<Rightarrow> Inl e
      | Inr b \<Rightarrow> (case concatE xs of Inl e \<Rightarrow> Inl e | Inr c \<Rightarrow> Inr (b @ c)))"

definition nested :: "runtime \<Rightarrow> nat \<Rightarrow> 'v option \<Rightarrow> ('v \<Rightarrow> wireError + bytes) \<Rightarrow> wireError + bytes" where
  "nested rt tag v enc =
     (case v of None \<Rightarrow> Inr []
      | Some x \<Rightarrow> (case enc x of Inl e \<Rightarrow> Inl e | Inr b \<Rightarrow> Inr (delimited rt tag b)))"

text \<open>\<open>for (i ...) T.encode(message.f[i], writer.uint32(tag).fork(), _depth + 1).ldelim()\<close>.\<close>

definition nestedAll :: "runtime \<Rightarrow> nat \<Rightarrow> 'v list option \<Rightarrow> ('v \<Rightarrow> wireError + bytes) \<Rightarrow> wireError + bytes" where
  "nestedAll rt tag vs enc =
     (case vs of None \<Rightarrow> Inr [] | Some xs \<Rightarrow> concatE (map (\<lambda>x. nested rt tag (Some x) enc) xs))"

section \<open>Reading\<close>

text \<open>
  The result of one \<open>switch\<close>: an exception, \<open>Inr None\<close> for \<open>break\<close> (the field is skipped), or the
  updated message and the unread bytes for \<open>continue\<close>.
\<close>

type_synonym 'm fieldResult = "wireError + ('m \<times> bytes) option"

definition liftRead :: "('v \<times> bytes) option \<Rightarrow> ('v \<Rightarrow> bytes \<Rightarrow> wireError + 'r) \<Rightarrow> wireError + 'r" where
  "liftRead x k = (case x of None \<Rightarrow> Inl ReaderError | Some (v, r) \<Rightarrow> k v r)"

text \<open>\<open>if (value is not the default) message.f = value; else delete message.f; continue\<close>.\<close>

definition scalar ::
  "nat \<Rightarrow> nat \<Rightarrow> ('v \<times> bytes) option \<Rightarrow> ('v \<Rightarrow> bool) \<Rightarrow> ('v option \<Rightarrow> 'm) \<Rightarrow> 'm fieldResult" where
  "scalar wireType expected rd nonDefault put =
     (if wireType \<noteq> expected then Inr None
      else liftRead rd (\<lambda>v r. Inr (Some (put (if nonDefault v then Some v else None), r))))"

text \<open>\<open>while (reader.pos < end2) message.f.push(reader.int64())\<close>.\<close>

function readPacked :: "runtime \<Rightarrow> int \<Rightarrow> bytes \<Rightarrow> 64 word list \<Rightarrow> wireError + 64 word list \<times> bytes" where
  "readPacked rt limit r acc =
     (if int (length r) > limit then
        (case rInt64 rt r of
           None \<Rightarrow> Inl ReaderError
         | Some (v, r') \<Rightarrow>
             if length r' < length r then readPacked rt limit r' (acc @ [v]) else Inl Diverges)
      else Inr (acc, r))"
  by pat_completeness auto
termination
  by (relation "measure (\<lambda>(rt, limit, r, acc). length r)") auto

declare readPacked.simps [simp del]

definition repeatedInt64 ::
  "runtime \<Rightarrow> nat \<Rightarrow> bytes \<Rightarrow> 64 word list option \<Rightarrow> (64 word list option \<Rightarrow> 'm) \<Rightarrow> 'm fieldResult" where
  "repeatedInt64 rt wireType r cur put =
     (let acc = (case cur of None \<Rightarrow> [] | Some xs \<Rightarrow> xs) in
      if wireType = 2 then
        liftRead (rUint32 rt r) (\<lambda>len r1.
          case readPacked rt (int (length r1) - int len) r1 acc of
            Inl e \<Rightarrow> Inl e
          | Inr (xs, r2) \<Rightarrow> Inr (Some (put (Some xs), r2)))
      else if wireType \<noteq> 0 then Inr None
      else liftRead (rInt64 rt r) (\<lambda>v r1. Inr (Some (put (Some (acc @ [v])), r1))))"

text \<open>\<open>message.f = T.decode(reader, reader.uint32(), undefined, _depth + 1, message.f)\<close>.\<close>

definition subMessage ::
  "runtime \<Rightarrow> nat \<Rightarrow> bytes \<Rightarrow> (nat \<Rightarrow> bytes \<Rightarrow> wireError + 's \<times> bytes) \<Rightarrow> ('s \<Rightarrow> 'm) \<Rightarrow> 'm fieldResult" where
  "subMessage rt wireType r dec put =
     (if wireType \<noteq> 2 then Inr None
      else liftRead (rUint32 rt r) (\<lambda>len r1.
             case dec len r1 of Inl e \<Rightarrow> Inl e | Inr (x, r2) \<Rightarrow> Inr (Some (put x, r2))))"

function decodeLoop ::
  "runtime \<Rightarrow> nat \<Rightarrow> (bytes \<Rightarrow> 'm \<Rightarrow> 'm) \<Rightarrow> ('m \<Rightarrow> nat \<Rightarrow> nat \<Rightarrow> bytes \<Rightarrow> 'm fieldResult) \<Rightarrow>
   int \<Rightarrow> bytes \<Rightarrow> 'm \<Rightarrow> wireError + 'm \<times> bytes" where
  "decodeLoop rt depth addUnknown field limit r m =
     (if int (length r) > limit then
        (case rTag rt r of
           None \<Rightarrow> Inl ReaderError
         | Some (tag, r1) \<Rightarrow>
             (case field m (tag div 8) (tag mod 8) r1 of
                Inl e \<Rightarrow> Inl e
              | Inr (Some (m', r2)) \<Rightarrow>
                  if length r2 < length r then decodeLoop rt depth addUnknown field limit r2 m'
                  else Inl Diverges
              | Inr None \<Rightarrow>
                  (case rSkip rt (tag mod 8) depth (tag div 8) r1 of
                     None \<Rightarrow> Inl ReaderError
                   | Some r2 \<Rightarrow>
                       if length r2 < length r then
                         decodeLoop rt depth addUnknown field limit r2
                           (if discardUnknown rt then m else addUnknown (take (length r - length r2) r) m)
                       else Inl Diverges)))
      else Inr (m, r))"
  by pat_completeness auto
termination
  by (relation "measure (\<lambda>(rt, depth, addUnknown, field, limit, r, m). length r)") auto

declare decodeLoop.simps [simp del]

text \<open>The common frame of the \<open>decode\<close> functions: depth check, loop bound, loop.\<close>

definition decodeMessage ::
  "runtime \<Rightarrow> nat \<Rightarrow> (bytes \<Rightarrow> 'm \<Rightarrow> 'm) \<Rightarrow> ('m \<Rightarrow> nat \<Rightarrow> nat \<Rightarrow> bytes \<Rightarrow> 'm fieldResult) \<Rightarrow>
   'm \<Rightarrow> nat \<Rightarrow> bytes \<Rightarrow> wireError + 'm \<times> bytes" where
  "decodeMessage rt depth addUnknown field m len r =
     (if depth > readLimit rt then Inl MaxDepth
      else decodeLoop rt depth addUnknown field (int (length r) - int len) r m)"

text \<open>The common frame of the \<open>encode\<close> functions: depth check, then the fields, then unknown fields.\<close>

definition encodeMessage :: "runtime \<Rightarrow> nat \<Rightarrow> (wireError + bytes) list \<Rightarrow> bytes list \<Rightarrow> wireError + bytes" where
  "encodeMessage rt depth parts unknowns =
     (if depth > writeLimit rt then Inl MaxDepth
      else concatE (parts @ [Inr (concat unknowns)]))"

text \<open>What decoding makes of an optional field: a default value is not distinguished from absence.\<close>

definition withoutDefault :: "('v \<Rightarrow> bool) \<Rightarrow> 'v option \<Rightarrow> 'v option" where
  "withoutDefault nd v = (case v of None \<Rightarrow> None | Some x \<Rightarrow> if nd x then Some x else None)"

section \<open>Lemmas\<close>

lemma small_append: "small (a @ b) \<Longrightarrow> small a \<and> small b"
  by (auto simp: small_def)

lemma scalar_read:
  "rd = Some (v, r) \<Longrightarrow> scalar w w rd nd put = Inr (Some (put (if nd v then Some v else None), r))"
  by (simp add: scalar_def liftRead_def)

lemma concatE_Inr_iff:
  "concatE (x # xs) = Inr b \<longleftrightarrow> (\<exists>c e. x = Inr c \<and> concatE xs = Inr e \<and> b = c @ e)"
  by (auto split: sum.splits)

lemma encodeMessage_Inr: "encodeMessage rt d parts [] = Inr b \<Longrightarrow> concatE parts = Inr b"
proof -
  have "concatE (xs @ [Inr []]) = concatE xs" for xs
    by (induction xs) (auto split: sum.splits)
  then show "encodeMessage rt d parts [] = Inr b \<Longrightarrow> concatE parts = Inr b"
    by (simp add: encodeMessage_def split: if_splits)
qed

lemma concatE_append: "concatE (map Inr bs @ xs) = (case concatE xs of Inl e \<Rightarrow> Inl e | Inr c \<Rightarrow> Inr (concat bs @ c))"
  by (induction bs) (auto split: sum.splits)

lemma concatE_total: "\<forall>x\<in>set xs. \<exists>b. x = Inr b \<Longrightarrow> \<exists>b. concatE xs = Inr b"
  by (induction xs) fastforce+

lemma encodeMessage_total:
  "d \<le> writeLimit rt \<Longrightarrow> \<forall>x\<in>set parts. \<exists>b. x = Inr b \<Longrightarrow> \<exists>b. encodeMessage rt d parts us = Inr b"
  unfolding encodeMessage_def using concatE_total [of "parts @ [Inr (concat us)]"] by auto

lemma nested_total: "\<forall>x. \<exists>b. enc x = Inr b \<Longrightarrow> \<exists>b. nested rt tag v enc = Inr b"
  by (cases v) (simp_all add: nested_def, metis sum.simps(6))

lemma nestedAll_total: "\<forall>x. \<exists>b. enc x = Inr b \<Longrightarrow> \<exists>b. nestedAll rt tag v enc = Inr b"
  by (cases v) (auto simp: nestedAll_def intro!: concatE_total nested_total)

text \<open>What every \<open>switch\<close> and the collection of unknown fields keep holds of a decoded message.\<close>

lemma decodeLoop_invariant:
  assumes "decodeLoop rt d a f limit r m = Inr (m', r')" and "P m"
    and "\<And>u m. P m \<Longrightarrow> P (a u m)"
    and "\<And>m n w r m' r'. P m \<Longrightarrow> f m n w r = Inr (Some (m', r')) \<Longrightarrow> P m'"
  shows "P m'"
  using assms(1,2)
proof (induction "length r" arbitrary: r m rule: less_induct)
  case less
  show ?case
  proof (cases "limit < int (length r)")
    case False
    with less.prems show ?thesis by (subst (asm) decodeLoop.simps) simp
  next
    case True
    with trans [OF decodeLoop.simps [symmetric] less.prems(1)]
    obtain m1 r2 where "P m1" "length r2 < length r" "decodeLoop rt d a f limit r2 m1 = Inr (m', r')"
      using less.prems(2) assms(3,4) [OF less.prems(2)]
      by (auto split: option.splits sum.splits if_splits prod.splits) blast+
    with less.hyps show ?thesis by blast
  qed
qed

section \<open>The contract of the runtime\<close>

locale wire_runtime =
  fixes rt :: runtime
  assumes tag_nonempty: "wUint32 rt n \<noteq> []"
    and read_tag: "8 \<le> n \<Longrightarrow> n < 2 ^ 32 \<Longrightarrow> rTag rt (wUint32 rt n @ z) = Some (n, z)"
    and read_uint32: "n < 2 ^ 32 \<Longrightarrow> rUint32 rt (wUint32 rt n @ z) = Some (n, z)"
    and read_int32: "rInt32 rt (wInt32 rt i @ z) = Some (i, z)"
    and read_uint64: "rUint64 rt (wUint64 rt u @ z) = Some (u, z)"
    and read_int64: "rInt64 rt (wInt64 rt u @ z) = Some (u, z)"
    and int64_nonempty: "wInt64 rt u \<noteq> []"
    and read_bool: "rBool rt (wBool rt t @ z) = Some (t, z)"
    and read_string: "wellFormed s \<Longrightarrow> small (wString rt s) \<Longrightarrow> rString rt (wString rt s @ z) = Some (s, z)"
    and read_bytes: "small (wBytes rt b) \<Longrightarrow> rBytes rt (wBytes rt b @ z) = Some (b, z)"
    and to_long: "toLong rt (JNum k) = word_of_int k" "toLong rt (JStr k) = word_of_int k"
    and one_of: "f \<in> set names \<Longrightarrow> oneOfKept rt names v f \<longleftrightarrow> f = v"
    and limits: "2 \<le> writeLimit rt" "2 \<le> readLimit rt"
begin

text \<open>
  \<open>parses d a f m b m'\<close>: with the switch \<open>f\<close>, the loop reads the bytes \<open>b\<close>, wherever they stand, and
  takes the message \<open>m\<close> to \<open>m'\<close>. There is one rule per kind of field; \<open>wire_field\<close> collects them.
\<close>

definition parses ::
  "nat \<Rightarrow> (bytes \<Rightarrow> 'm \<Rightarrow> 'm) \<Rightarrow> ('m \<Rightarrow> nat \<Rightarrow> nat \<Rightarrow> bytes \<Rightarrow> 'm fieldResult) \<Rightarrow> 'm \<Rightarrow> bytes \<Rightarrow> 'm \<Rightarrow> bool" where
  "parses d a f m b m' \<longleftrightarrow>
     (small b \<longrightarrow>
      (\<forall>limit r. limit \<le> int (length r) \<longrightarrow> decodeLoop rt d a f limit (b @ r) m = decodeLoop rt d a f limit r m'))"

lemma parses_Nil: "parses d a f m [] m"
  by (simp add: parses_def)

lemma parses_append: "parses d a f m b m1 \<Longrightarrow> parses d a f m1 c m2 \<Longrightarrow> parses d a f m (b @ c) m2"
  by (auto simp: parses_def dest: small_append)

lemma parses_complete:
  assumes "parses d a f m b m'" and "small b" and "d \<le> 2"
  shows "decodeMessage rt d a f m (length b) (b @ r) = Inr (m', r)"
proof -
  have "decodeLoop rt d a f (int (length r)) r m' = Inr (m', r)"
    by (subst decodeLoop.simps) simp
  then show ?thesis
    using assms limits by (simp add: decodeMessage_def parses_def)
qed

lemma parses_tagged:
  assumes "8 \<le> tag" and "tag < 2 ^ 32"
    and "\<And>r. small b \<Longrightarrow> f m (tag div 8) (tag mod 8) (b @ r) = Inr (Some (m', r))"
  shows "parses d a f m (wUint32 rt tag @ b) m'"
  unfolding parses_def
proof (intro allI impI)
  fix limit and r :: bytes assume "small (wUint32 rt tag @ b)" "limit \<le> int (length r)"
  moreover have "f m (tag div 8) (tag mod 8) (b @ r) = Inr (Some (m', r))"
    using assms(3) calculation(1) small_append by blast
  moreover obtain y ys where y: "wUint32 rt tag = y # ys"
    using tag_nonempty by (meson neq_Nil_conv)
  moreover have "rTag rt (y # ys @ z) = Some (tag, z)" for z
    using read_tag [OF assms(1,2), of z] y by simp
  ultimately show "decodeLoop rt d a f limit ((wUint32 rt tag @ b) @ r) m = decodeLoop rt d a f limit r m'"
    by (subst decodeLoop.simps) simp
qed

lemma parses_scalar:
  assumes f: "\<And>r. f m (tag div 8) (tag mod 8) r = scalar wt wt (rd r) nd put"
    and put: "put None = m" and tag: "8 \<le> tag" "tag < 2 ^ 32"
    and rd: "\<And>x r. v = Some x \<Longrightarrow> small (w x) \<Longrightarrow> rd (w x @ r) = Some (x, r)"
  shows "parses d a f m (optional v (\<lambda>x. wUint32 rt tag @ w x)) (put (withoutDefault nd v))"
proof (cases v)
  case None
  with put show ?thesis by (simp add: optional_def withoutDefault_def parses_Nil)
next
  case (Some x)
  then have "small (w x) \<Longrightarrow> f m (tag div 8) (tag mod 8) (w x @ r) = Inr (Some (put (withoutDefault nd v), r))" for r
    using rd by (simp add: f scalar_def liftRead_def withoutDefault_def)
  then show ?thesis
    using Some tag by (simp add: optional_def parses_tagged)
qed

lemma readPacked_written:
  "limit = int (length r) \<Longrightarrow> readPacked rt limit (concat (map (wInt64 rt) xs) @ r) acc = Inr (acc @ xs, r)"
proof (induction xs arbitrary: acc)
  case Nil
  then show ?case by (subst readPacked.simps) simp
next
  case (Cons x xs)
  obtain y ys where y: "wInt64 rt x = y # ys"
    using int64_nonempty by (meson neq_Nil_conv)
  moreover have "rInt64 rt (y # ys @ z) = Some (x, z)" for z
    using read_int64 [of x z] y by simp
  ultimately show ?case
    using Cons by (subst readPacked.simps) simp
qed

lemma parses_packed:
  assumes f: "\<And>r. f m (tag div 8) (tag mod 8) r = repeatedInt64 rt 2 r None put"
    and put: "put None = m" and tag: "8 \<le> tag" "tag < 2 ^ 32"
  shows "parses d a f m (packedInt64 rt tag vs) (put (withoutDefault (\<lambda>v. v \<noteq> []) vs))"
proof (cases "withoutDefault (\<lambda>v. v \<noteq> []) vs")
  case None
  then have "packedInt64 rt tag vs = []"
    by (auto simp: packedInt64_def withoutDefault_def split: option.splits if_splits)
  with None put show ?thesis by (simp add: parses_Nil)
next
  case (Some xs)
  let ?body = "concat (map (wInt64 rt) xs)"
  have eq: "packedInt64 rt tag vs = wUint32 rt tag @ wUint32 rt (length ?body) @ ?body"
    using Some by (auto simp: packedInt64_def withoutDefault_def delimited_def split: option.splits if_splits)
  have "f m (tag div 8) (tag mod 8) ((wUint32 rt (length ?body) @ ?body) @ r) = Inr (Some (put (Some xs), r))"
    if "small (wUint32 rt (length ?body) @ ?body)" for r
    using that readPacked_written [of "int (length r)" r xs "[]"]
    by (simp add: f repeatedInt64_def liftRead_def read_uint32 small_def)
  then show ?thesis
    unfolding eq Some using tag by (intro parses_tagged)
qed

lemmas parses_string = parses_scalar [where rd = "rString rt" and w = "wString rt", OF _ _ _ _ read_string]

lemmas wire_field =
  parses_scalar [where rd = "rInt32 rt" and w = "wInt32 rt", OF _ _ _ _ read_int32]
  parses_scalar [where rd = "rInt64 rt" and w = "wInt64 rt", OF _ _ _ _ read_int64]
  parses_scalar [where rd = "rUint64 rt" and w = "wUint64 rt", OF _ _ _ _ read_uint64]
  parses_scalar [where rd = "rBool rt" and w = "wBool rt", OF _ _ _ _ read_bool]
  parses_scalar [where rd = "rBytes rt" and w = "wBytes rt", OF _ _ _ _ read_bytes]
  parses_string
  parses_packed

text \<open>The same for a list of writes of which each may throw.\<close>

lemma parses_writes_Nil: "concatE [] = Inr b \<Longrightarrow> m = m' \<Longrightarrow> parses d a f m b m'"
  by (simp add: parses_Nil)

lemma parses_writes_Inr:
  assumes "concatE (Inr c # xs) = Inr b" and "parses d a f m c m1"
    and "\<And>e. concatE xs = Inr e \<Longrightarrow> parses d a f m1 e m'"
  shows "parses d a f m b m'"
  using assms by (auto intro: parses_append split: sum.splits)

lemma parses_writes_Cons:
  assumes "concatE (x # xs) = Inr b" and "\<And>c. x = Inr c \<Longrightarrow> parses d a f m c m1"
    and "\<And>e. concatE xs = Inr e \<Longrightarrow> parses d a f m1 e m'"
  shows "parses d a f m b m'"
  using assms by (auto intro: parses_append split: sum.splits)

lemma parses_cong: "parses d a f m b m1 \<Longrightarrow> m1 = m2 \<Longrightarrow> parses d a f m b m2"
  by simp

end

text \<open>
  The contract of one message type: decoding what encoding produced gives the message back, up to
  fields that hold their default. A field that nests the message rests on this contract only.
\<close>

locale message_codec = wire_runtime +
  fixes enc :: "nat \<Rightarrow> 'm \<Rightarrow> wireError + bytes"
    and dec :: "nat \<Rightarrow> 'm option \<Rightarrow> nat \<Rightarrow> bytes \<Rightarrow> wireError + 'm \<times> bytes"
    and norm :: "'m \<Rightarrow> 'm"
    and ok :: "'m \<Rightarrow> bool"
    and maxDepth :: nat
  assumes roundtrip: "\<lbrakk>enc d m = Inr b; ok m; small b; d \<le> maxDepth\<rbrakk> \<Longrightarrow> dec d None (length b) (b @ r) = Inr (norm m, r)"
begin

lemma parses_nested:
  assumes b: "nested rt tag v (enc e) = Inr b"
    and f: "\<And>x r. v = Some x \<Longrightarrow> f m (tag div 8) (tag mod 8) r = subMessage rt 2 r (dec e None) put"
    and ok: "\<And>x. v = Some x \<Longrightarrow> ok x" and e: "e \<le> maxDepth" and tag: "8 \<le> tag" "tag < 2 ^ 32"
  shows "parses d a f m b (case v of None \<Rightarrow> m | Some x \<Rightarrow> put (norm x))"
proof (cases v)
  case None
  with b show ?thesis by (simp add: nested_def parses_Nil)
next
  case (Some x)
  with b obtain body where body: "enc e x = Inr body" "b = wUint32 rt tag @ wUint32 rt (length body) @ body"
    by (auto simp: nested_def delimited_def split: sum.splits)
  then have "f m (tag div 8) (tag mod 8) ((wUint32 rt (length body) @ body) @ r) = Inr (Some (put (norm x), r))"
    if "small (wUint32 rt (length body) @ body)" for r
    using that ok e roundtrip [OF body(1)] small_append [OF that]
    by (simp add: Some f [OF Some] subMessage_def liftRead_def read_uint32 small_def)
  then show ?thesis
    using tag Some body(2) by (simp add: parses_tagged)
qed

lemma parses_repeated:
  assumes b: "nestedAll rt tag vs (enc e) = Inr b"
    and f: "\<And>cur r. f (put cur) (tag div 8) (tag mod 8) r =
              subMessage rt 2 r (dec e None) (\<lambda>x. put (Some ((case cur of None \<Rightarrow> [] | Some xs \<Rightarrow> xs) @ [x])))"
    and ok: "\<And>xs. vs = Some xs \<Longrightarrow> list_all ok xs" and put: "put None = m"
    and e: "e \<le> maxDepth" and tag: "8 \<le> tag" "tag < 2 ^ 32"
  shows "parses d a f m b (put (withoutDefault (\<lambda>v. v \<noteq> []) (map_option (map norm) vs)))"
proof -
  have *: "parses d a f (put cur) b (put (if xs = [] then cur else Some ((case cur of None \<Rightarrow> [] | Some xs \<Rightarrow> xs) @ map norm xs)))"
    if "concatE (map (\<lambda>x. nested rt tag (Some x) (enc e)) xs) = Inr b" "list_all ok xs" for cur xs b
    using that
  proof (induction xs arbitrary: cur b)
    case (Cons x xs)
    from Cons.prems obtain c1 c2 where c: "nested rt tag (Some x) (enc e) = Inr c1" "b = c1 @ c2"
        "concatE (map (\<lambda>x. nested rt tag (Some x) (enc e)) xs) = Inr c2"
      by (auto simp: concatE_Inr_iff simp del: concatE.simps(2))
    have "parses d a f (put cur) c1 (put (Some ((case cur of None \<Rightarrow> [] | Some xs \<Rightarrow> xs) @ [norm x])))"
      using parses_nested [OF c(1), of f "put cur" "\<lambda>y. put (Some ((case cur of None \<Rightarrow> [] | Some xs \<Rightarrow> xs) @ [y]))"] f Cons.prems e tag by simp
    moreover note Cons.IH [OF c(3), of "Some ((case cur of None \<Rightarrow> [] | Some xs \<Rightarrow> xs) @ [norm x])"]
    ultimately show ?case
      using Cons.prems c(2) by (auto intro: parses_append split: if_splits)
  qed (simp add: parses_Nil)
  show ?thesis
  proof (cases vs)
    case None
    with b put show ?thesis by (auto simp: nestedAll_def withoutDefault_def parses_Nil)
  next
    case (Some xs)
    with b ok put show ?thesis using * [of xs b None] by (simp add: nestedAll_def withoutDefault_def split: if_splits)
  qed
qed

end

context wire_runtime
begin

lemma message_codecI:
  assumes "\<And>d m b. enc d m = Inr b \<Longrightarrow> ok m \<Longrightarrow> d \<le> k \<Longrightarrow> parses d a (f d) new b (norm m)"
    and "\<And>d len r. dec d None len r = decodeMessage rt d a (f d) new len r" and "k \<le> 2"
  shows "message_codec rt enc dec norm ok k"
proof
  fix d m b and r :: bytes
  assume "enc d m = Inr b" "ok m" "small b" "d \<le> k"
  then show "dec d None (length b) (b @ r) = Inr (norm m, r)"
    using assms parses_complete [of d a "f d" new b "norm m"] by simp
qed

end

end
