(* ===== verification/Utf8.thy ===== *)
theory Utf8
  imports Wire
begin

text \<open>
  The \<open>TextEncoder\<close> and \<open>TextDecoder\<close> of the web platform, as \<^verbatim>\<open>lib/realtime.ts\<close> uses them on message
  contents: UTF-8 with U+FFFD for unpaired surrogates (encoding) and for malformed input (decoding),
  and a leading byte order mark dropped when decoding. A string is a list of UTF-16 code units, a
  decoder state the code point so far, the number of continuation bytes still needed and the bounds
  of the next one.

  Shown: decoding inverts encoding on well-formed strings that do not start with a byte order mark,
  so a text arrives as it was typed; decoding is total, so no content makes \<open>handleMessage\<close> throw.
\<close>

section \<open>UTF-16\<close>

fun toScalars :: "jsstring \<Rightarrow> nat list" where
  "toScalars [] = []"
| "toScalars [c] = [if 55296 \<le> c \<and> c < 57344 then 65533 else c]"
| "toScalars (c # d # s) =
     (if 55296 \<le> c \<and> c < 56320 \<and> 56320 \<le> d \<and> d < 57344
      then (65536 + (c - 55296) * 1024 + (d - 56320)) # toScalars s
      else (if 55296 \<le> c \<and> c < 57344 then 65533 else c) # toScalars (d # s))"

definition toUtf16 :: "nat \<Rightarrow> jsstring" where
  "toUtf16 c = (if c < 65536 then [c] else [55296 + (c - 65536) div 1024, 56320 + (c - 65536) mod 1024])"

section \<open>UTF-8\<close>

definition utf8Bytes :: "nat \<Rightarrow> nat list" where
  "utf8Bytes c =
     (if c < 128 then [c]
      else if c < 2048 then [192 + c div 64, 128 + c mod 64]
      else if c < 65536 then [224 + c div 4096, 128 + c div 64 mod 64, 128 + c mod 64]
      else [240 + c div 262144, 128 + c div 4096 mod 64, 128 + c div 64 mod 64, 128 + c mod 64])"

text \<open>The first byte of a sequence: the code points it completes, and the state it leaves.\<close>

definition utf8Lead :: "nat \<Rightarrow> nat list \<times> nat \<times> nat \<times> nat \<times> nat" where
  "utf8Lead b =
     (if b < 128 then ([b], 0, 0, 128, 191)
      else if 194 \<le> b \<and> b \<le> 223 then ([], b - 192, 1, 128, 191)
      else if 224 \<le> b \<and> b \<le> 239 then
        ([], b - 224, 2, if b = 224 then 160 else 128, if b = 237 then 159 else 191)
      else if 240 \<le> b \<and> b \<le> 244 then
        ([], b - 240, 3, if b = 240 then 144 else 128, if b = 244 then 143 else 191)
      else ([65533], 0, 0, 128, 191))"

fun utf8Decode :: "nat \<Rightarrow> nat \<Rightarrow> nat \<Rightarrow> nat \<Rightarrow> nat list \<Rightarrow> nat list" where
  "utf8Decode cp needed lo hi [] = (if needed = 0 then [] else [65533])"
| "utf8Decode cp needed lo hi (b # bs) =
     (if needed = 0 then
        (case utf8Lead b of (out, cp', needed', lo', hi') \<Rightarrow> out @ utf8Decode cp' needed' lo' hi' bs)
      else if b < lo \<or> hi < b then
        65533 # (case utf8Lead b of (out, cp', needed', lo', hi') \<Rightarrow> out @ utf8Decode cp' needed' lo' hi' bs)
      else let cp' = cp * 64 + (b - 128) in
        if needed = 1 then cp' # utf8Decode 0 0 128 191 bs
        else utf8Decode cp' (needed - 1) 128 191 bs)"

definition TextEncoder_encode :: "jsstring \<Rightarrow> bytes" where
  "TextEncoder_encode s = map of_nat (concat (map utf8Bytes (toScalars s)))"

definition TextDecoder_decode :: "bytes \<Rightarrow> jsstring" where
  "TextDecoder_decode bs =
     (let cs = utf8Decode 0 0 128 191 (map unat bs) in
      concat (map toUtf16 (if cs \<noteq> [] \<and> hd cs = 65279 then tl cs else cs)))"

section \<open>Decoding inverts encoding\<close>

definition isScalar :: "nat \<Rightarrow> bool" where
  "isScalar c \<longleftrightarrow> c < 55296 \<or> (57344 \<le> c \<and> c < 1114112)"

lemma toScalars_scalar: "list_all (\<lambda>c. c < 65536) s \<Longrightarrow> list_all isScalar (toScalars s)"
  by (induction s rule: toScalars.induct) (auto simp: isScalar_def)

lemma wellFormed_unit: "wellFormed s \<Longrightarrow> list_all (\<lambda>c. c < 65536) s"
proof (induction s rule: wellFormed.induct)
  case (3 c d s)
  then show ?case by (cases "c < 55296 \<or> (57344 \<le> c \<and> c < 65536)") auto
qed auto

lemma toUtf16_pair:
  assumes "55296 \<le> c" "c < 56320" "56320 \<le> d" "d < 57344"
  shows "toUtf16 (65536 + (c - 55296) * 1024 + (d - 56320)) = [c, d]"
proof -
  define h l where "h = c - 55296" and "l = d - 56320"
  then have "c = 55296 + h" "d = 56320 + l" "l < 1024"
    using assms by simp_all
  then show ?thesis by (simp add: toUtf16_def)
qed

lemma toUtf16_toScalars: "wellFormed s \<Longrightarrow> concat (map toUtf16 (toScalars s)) = s"
proof (induction s rule: toScalars.induct)
  case (3 c d s)
  show ?case
  proof (cases "55296 \<le> c \<and> c < 56320 \<and> 56320 \<le> d \<and> d < 57344")
    case True
    with 3 show ?thesis using toUtf16_pair [of c d] by (simp split: if_splits)
  next
    case False
    with 3 show ?thesis by (auto simp: toUtf16_def split: if_splits)
  qed
qed (auto simp: toUtf16_def split: if_splits)

lemma digits64: "c = (c div 4096) * 4096 + (c div 64 mod 64) * 64 + c mod 64" for c :: nat
  using div_mult_mod_eq [of c 64] div_mult_mod_eq [of "c div 64" 64] div_mult2_eq [of c 64 64, simplified] by linarith

lemma utf8Decode_utf8Bytes:
  assumes "isScalar c"
  shows "utf8Decode 0 0 128 191 (utf8Bytes c @ bs) = c # utf8Decode 0 0 128 191 bs"
proof -
  consider "c < 128" | "128 \<le> c" "c < 2048" | "2048 \<le> c" "c < 65536" | "65536 \<le> c" by linarith
  then show ?thesis
  proof cases
    case 1
    then show ?thesis by (simp add: utf8Bytes_def utf8Lead_def)
  next
    case 2
    define y z where "y = c div 64" and "z = c mod 64"
    then have c: "c = y * 64 + z" and "z < 64" by simp_all
    then have "2 \<le> y" "y \<le> 31" using 2 by simp_all
    moreover have "utf8Bytes c = [192 + y, 128 + z]"
      using 2 by (simp add: utf8Bytes_def y_def z_def)
    ultimately show ?thesis
      using \<open>z < 64\<close> by (simp add: utf8Lead_def c)
  next
    case 3
    define x y z where "x = c div 4096" and "y = c div 64 mod 64" and "z = c mod 64"
    then have c: "c = x * 4096 + y * 64 + z" and "y < 64" "z < 64" using digits64 by simp_all
    then have "x \<le> 15" "x = 0 \<longrightarrow> 32 \<le> y" "x = 13 \<longrightarrow> y < 32"
      using 3 assms by (auto simp: isScalar_def)
    moreover have "utf8Bytes c = [224 + x, 128 + y, 128 + z]"
      using 3 by (simp add: utf8Bytes_def x_def y_def z_def)
    ultimately show ?thesis
      using \<open>y < 64\<close> \<open>z < 64\<close> by (auto simp: utf8Lead_def c)
  next
    case 4
    define w x y z where "w = c div 262144" and "x = c div 4096 mod 64" and "y = c div 64 mod 64" and "z = c mod 64"
    then have c: "c = w * 262144 + x * 4096 + y * 64 + z" and "x < 64" "y < 64" "z < 64"
      using digits64 [of c] div_mult_mod_eq [of "c div 4096" 64] div_mult2_eq [of c 4096 64, simplified]
      by (linarith, simp_all)
    then have "w \<le> 4" "w = 0 \<longrightarrow> 16 \<le> x" "w = 4 \<longrightarrow> x < 16"
      using 4 assms by (auto simp: isScalar_def)
    moreover have "utf8Bytes c = [240 + w, 128 + x, 128 + y, 128 + z]"
      using 4 by (simp add: utf8Bytes_def w_def x_def y_def z_def)
    ultimately show ?thesis
      using \<open>x < 64\<close> \<open>y < 64\<close> \<open>z < 64\<close> by (auto simp: utf8Lead_def c)
  qed
qed

lemma utf8Bytes_byte: "isScalar c \<Longrightarrow> list_all (\<lambda>b. b < 256) (utf8Bytes c)"
  using less_mult_imp_div_less [of c 32 64] less_mult_imp_div_less [of c 16 4096] less_mult_imp_div_less [of c 5 262144]
  by (auto simp: utf8Bytes_def isScalar_def split: if_splits)

lemma utf8Decode_encode:
  "list_all isScalar cs \<Longrightarrow> utf8Decode 0 0 128 191 (concat (map utf8Bytes cs)) = cs"
  by (induction cs) (simp_all add: utf8Decode_utf8Bytes del: utf8Decode.simps(2))

lemma unat_bytes: "list_all (\<lambda>b. b < 256) xs \<Longrightarrow> map (unat :: byte \<Rightarrow> nat) (map of_nat xs) = xs"
  by (induction xs) (auto simp: unat_of_nat)

lemma list_all_concat: "list_all P (concat xss) \<longleftrightarrow> list_all (list_all P) xss"
  by (auto simp: list_all_iff)

lemma TextEncoder_scalars:
  assumes "wellFormed s"
  shows "utf8Decode 0 0 128 191 (map unat (TextEncoder_encode s)) = toScalars s"
proof -
  have sc: "list_all isScalar (toScalars s)"
    using assms by (simp add: wellFormed_unit toScalars_scalar)
  then have "list_all (\<lambda>b. b < 256) (concat (map utf8Bytes (toScalars s)))"
    by (auto simp: list_all_concat list_all_iff intro: utf8Bytes_byte [unfolded list_all_iff, rule_format])
  with sc show ?thesis
    by (simp add: TextEncoder_encode_def unat_bytes utf8Decode_encode del: map_map)
qed

lemma hd_toScalars: "wellFormed (c # s) \<Longrightarrow> hd (toScalars (c # s)) = 65279 \<longleftrightarrow> c = 65279"
  by (cases s) auto

lemma tl_toScalars: "wellFormed (65279 # s) \<Longrightarrow> toScalars (65279 # s) = 65279 # toScalars s \<and> wellFormed s"
  by (cases s) auto

text \<open>
  A text arrives as it was typed: \<open>new TextDecoder().decode(new TextEncoder().encode(s))\<close>, which is what the
  receiver of \<open>sendText\<close> computes from the content bytes, is \<open>s\<close> for every string without unpaired
  surrogates, except that one leading byte order mark is dropped.
\<close>

theorem TextDecoder_inverts_TextEncoder:
  assumes "wellFormed s"
  shows "TextDecoder_decode (TextEncoder_encode s) = (if s \<noteq> [] \<and> hd s = 65279 then tl s else s)"
proof (cases s)
  case Nil
  then show ?thesis by (simp add: TextDecoder_decode_def TextEncoder_encode_def)
next
  case (Cons c t)
  show ?thesis
  proof (cases "c = 65279")
    case True
    then show ?thesis
      using assms Cons tl_toScalars [of t] toUtf16_toScalars [of t] by (simp add: TextDecoder_decode_def TextEncoder_scalars)
  next
    case False
    then show ?thesis
      using assms Cons hd_toScalars [of c t] toUtf16_toScalars [of s]
      by (auto simp: TextDecoder_decode_def TextEncoder_scalars Let_def)
  qed
qed

theorem TextDecoder_inverts_TextEncoder_witness:
  "TextDecoder_decode (TextEncoder_encode [72, 233, 8364, 55357, 56832]) = [72, 233, 8364, 55357, 56832]"
  using TextDecoder_inverts_TextEncoder [of "[72, 233, 8364, 55357, 56832]"] by simp

end
