(* ===== verification/Proto_Messages.thy ===== *)
theory Proto_Messages
  imports Wire
begin

text \<open>
  The generated codecs of the messages a packet carries (\<^verbatim>\<open>web/app/lib/proto/im.js\<close>). For each message:
  its record (an own property of the JavaScript object is \<open>Some\<close>, an inherited default \<open>None\<close>;
  \<open>$unknowns\<close> is kept), the object without properties (\<open>_new\<close>), \<open>encode\<close>, the \<open>switch\<close> of
  \<open>decode\<close> (\<open>_field\<close>) and \<open>decode\<close> itself. Then, per message, the contract of \<open>message_codec\<close>: \<open>decode\<close>
  inverts \<open>encode\<close> up to fields that hold their default (\<open>_norm\<close>), for messages whose strings are
  well-formed UTF-16 (\<open>_ok\<close>).
\<close>

section \<open>AuthRequest\<close>

record authRequest =
  aq_token :: "jsstring option"
  aq_deviceId :: "jsstring option"
  aq_unknowns :: "bytes list"

definition AuthRequest_new :: authRequest where
  "AuthRequest_new = \<lparr>aq_token = None, aq_deviceId = None, aq_unknowns = []\<rparr>"

definition AuthRequest_encode :: "runtime \<Rightarrow> nat \<Rightarrow> authRequest \<Rightarrow> wireError + bytes" where
  "AuthRequest_encode rt depth message =
     encodeMessage rt depth
       [Inr (optional (aq_token message) (\<lambda>v. wUint32 rt 10 @ wString rt v)),
        Inr (optional (aq_deviceId message) (\<lambda>v. wUint32 rt 18 @ wString rt v))]
       (aq_unknowns message)"

definition AuthRequest_field :: "runtime \<Rightarrow> authRequest \<Rightarrow> nat \<Rightarrow> nat \<Rightarrow> bytes \<Rightarrow> authRequest fieldResult" where
  "AuthRequest_field rt m field wireType r =
     (if field = 1 then scalar wireType 2 (rString rt r) (\<lambda>v. v \<noteq> []) (\<lambda>v. m\<lparr>aq_token := v\<rparr>)
      else if field = 2 then scalar wireType 2 (rString rt r) (\<lambda>v. v \<noteq> []) (\<lambda>v. m\<lparr>aq_deviceId := v\<rparr>)
      else Inr None)"

definition AuthRequest_decode ::
  "runtime \<Rightarrow> nat \<Rightarrow> authRequest option \<Rightarrow> nat \<Rightarrow> bytes \<Rightarrow> wireError + authRequest \<times> bytes" where
  "AuthRequest_decode rt depth target len r =
     decodeMessage rt depth (\<lambda>u m. m\<lparr>aq_unknowns := aq_unknowns m @ [u]\<rparr>) (AuthRequest_field rt)
       (case target of None \<Rightarrow> AuthRequest_new | Some m \<Rightarrow> m) len r"

definition AuthRequest_norm :: "authRequest \<Rightarrow> authRequest" where
  "AuthRequest_norm m =
     \<lparr>aq_token = withoutDefault (\<lambda>v. v \<noteq> []) (aq_token m),
      aq_deviceId = withoutDefault (\<lambda>v. v \<noteq> []) (aq_deviceId m),
      aq_unknowns = []\<rparr>"

definition AuthRequest_ok :: "authRequest \<Rightarrow> bool" where
  "AuthRequest_ok m \<longleftrightarrow> (case aq_token m of None \<Rightarrow> True | Some s \<Rightarrow> wellFormed s) \<and>
     (case aq_deviceId m of None \<Rightarrow> True | Some s \<Rightarrow> wellFormed s) \<and>
     aq_unknowns m = []"

section \<open>AuthResponse\<close>

record authResponse =
  ap_success :: "bool option"
  ap_userId :: "64 word option"
  ap_deviceId :: "jsstring option"
  ap_unknowns :: "bytes list"

definition AuthResponse_new :: authResponse where
  "AuthResponse_new = \<lparr>ap_success = None, ap_userId = None, ap_deviceId = None, ap_unknowns = []\<rparr>"

definition AuthResponse_encode :: "runtime \<Rightarrow> nat \<Rightarrow> authResponse \<Rightarrow> wireError + bytes" where
  "AuthResponse_encode rt depth message =
     encodeMessage rt depth
       [Inr (optional (ap_success message) (\<lambda>v. wUint32 rt 8 @ wBool rt v)),
        Inr (optional (ap_userId message) (\<lambda>v. wUint32 rt 16 @ wInt64 rt v)),
        Inr (optional (ap_deviceId message) (\<lambda>v. wUint32 rt 26 @ wString rt v))]
       (ap_unknowns message)"

definition AuthResponse_field :: "runtime \<Rightarrow> authResponse \<Rightarrow> nat \<Rightarrow> nat \<Rightarrow> bytes \<Rightarrow> authResponse fieldResult" where
  "AuthResponse_field rt m field wireType r =
     (if field = 1 then scalar wireType 0 (rBool rt r) (\<lambda>v. v) (\<lambda>v. m\<lparr>ap_success := v\<rparr>)
      else if field = 2 then scalar wireType 0 (rInt64 rt r) (\<lambda>v. v \<noteq> 0) (\<lambda>v. m\<lparr>ap_userId := v\<rparr>)
      else if field = 3 then scalar wireType 2 (rString rt r) (\<lambda>v. v \<noteq> []) (\<lambda>v. m\<lparr>ap_deviceId := v\<rparr>)
      else Inr None)"

definition AuthResponse_decode ::
  "runtime \<Rightarrow> nat \<Rightarrow> authResponse option \<Rightarrow> nat \<Rightarrow> bytes \<Rightarrow> wireError + authResponse \<times> bytes" where
  "AuthResponse_decode rt depth target len r =
     decodeMessage rt depth (\<lambda>u m. m\<lparr>ap_unknowns := ap_unknowns m @ [u]\<rparr>) (AuthResponse_field rt)
       (case target of None \<Rightarrow> AuthResponse_new | Some m \<Rightarrow> m) len r"

definition AuthResponse_norm :: "authResponse \<Rightarrow> authResponse" where
  "AuthResponse_norm m =
     \<lparr>ap_success = withoutDefault (\<lambda>v. v) (ap_success m),
      ap_userId = withoutDefault (\<lambda>v. v \<noteq> 0) (ap_userId m),
      ap_deviceId = withoutDefault (\<lambda>v. v \<noteq> []) (ap_deviceId m),
      ap_unknowns = []\<rparr>"

definition AuthResponse_ok :: "authResponse \<Rightarrow> bool" where
  "AuthResponse_ok m \<longleftrightarrow> (case ap_deviceId m of None \<Rightarrow> True | Some s \<Rightarrow> wellFormed s) \<and>
     ap_unknowns m = []"

section \<open>SendMessageRequest\<close>

record sendMessageRequest =
  sq_topic :: "jsstring option"
  sq_msgType :: "32 word option"
  sq_content :: "bytes option"
  sq_clientMsgId :: "jsstring option"
  sq_mentionedUserIds :: "64 word list option"
  sq_unknowns :: "bytes list"

definition SendMessageRequest_new :: sendMessageRequest where
  "SendMessageRequest_new = \<lparr>sq_topic = None, sq_msgType = None, sq_content = None, sq_clientMsgId = None, sq_mentionedUserIds = None, sq_unknowns = []\<rparr>"

definition SendMessageRequest_encode :: "runtime \<Rightarrow> nat \<Rightarrow> sendMessageRequest \<Rightarrow> wireError + bytes" where
  "SendMessageRequest_encode rt depth message =
     encodeMessage rt depth
       [Inr (optional (sq_topic message) (\<lambda>v. wUint32 rt 10 @ wString rt v)),
        Inr (optional (sq_msgType message) (\<lambda>v. wUint32 rt 16 @ wInt32 rt v)),
        Inr (optional (sq_content message) (\<lambda>v. wUint32 rt 26 @ wBytes rt v)),
        Inr (optional (sq_clientMsgId message) (\<lambda>v. wUint32 rt 34 @ wString rt v)),
        Inr (packedInt64 rt 42 (sq_mentionedUserIds message))]
       (sq_unknowns message)"

definition SendMessageRequest_field :: "runtime \<Rightarrow> sendMessageRequest \<Rightarrow> nat \<Rightarrow> nat \<Rightarrow> bytes \<Rightarrow> sendMessageRequest fieldResult" where
  "SendMessageRequest_field rt m field wireType r =
     (if field = 1 then scalar wireType 2 (rString rt r) (\<lambda>v. v \<noteq> []) (\<lambda>v. m\<lparr>sq_topic := v\<rparr>)
      else if field = 2 then scalar wireType 0 (rInt32 rt r) (\<lambda>v. v \<noteq> 0) (\<lambda>v. m\<lparr>sq_msgType := v\<rparr>)
      else if field = 3 then scalar wireType 2 (rBytes rt r) (\<lambda>v. v \<noteq> []) (\<lambda>v. m\<lparr>sq_content := v\<rparr>)
      else if field = 4 then scalar wireType 2 (rString rt r) (\<lambda>v. v \<noteq> []) (\<lambda>v. m\<lparr>sq_clientMsgId := v\<rparr>)
      else if field = 5 then repeatedInt64 rt wireType r (sq_mentionedUserIds m) (\<lambda>v. m\<lparr>sq_mentionedUserIds := v\<rparr>)
      else Inr None)"

definition SendMessageRequest_decode ::
  "runtime \<Rightarrow> nat \<Rightarrow> sendMessageRequest option \<Rightarrow> nat \<Rightarrow> bytes \<Rightarrow> wireError + sendMessageRequest \<times> bytes" where
  "SendMessageRequest_decode rt depth target len r =
     decodeMessage rt depth (\<lambda>u m. m\<lparr>sq_unknowns := sq_unknowns m @ [u]\<rparr>) (SendMessageRequest_field rt)
       (case target of None \<Rightarrow> SendMessageRequest_new | Some m \<Rightarrow> m) len r"

definition SendMessageRequest_norm :: "sendMessageRequest \<Rightarrow> sendMessageRequest" where
  "SendMessageRequest_norm m =
     \<lparr>sq_topic = withoutDefault (\<lambda>v. v \<noteq> []) (sq_topic m),
      sq_msgType = withoutDefault (\<lambda>v. v \<noteq> 0) (sq_msgType m),
      sq_content = withoutDefault (\<lambda>v. v \<noteq> []) (sq_content m),
      sq_clientMsgId = withoutDefault (\<lambda>v. v \<noteq> []) (sq_clientMsgId m),
      sq_mentionedUserIds = withoutDefault (\<lambda>v. v \<noteq> []) (sq_mentionedUserIds m),
      sq_unknowns = []\<rparr>"

definition SendMessageRequest_ok :: "sendMessageRequest \<Rightarrow> bool" where
  "SendMessageRequest_ok m \<longleftrightarrow> (case sq_topic m of None \<Rightarrow> True | Some s \<Rightarrow> wellFormed s) \<and>
     (case sq_clientMsgId m of None \<Rightarrow> True | Some s \<Rightarrow> wellFormed s) \<and>
     sq_unknowns m = []"

section \<open>SendMessageReply\<close>

record sendMessageReply =
  sp_clientMsgId :: "jsstring option"
  sp_msgId :: "64 word option"
  sp_timestamp :: "64 word option"
  sp_topicSeq :: "64 word option"
  sp_unknowns :: "bytes list"

definition SendMessageReply_new :: sendMessageReply where
  "SendMessageReply_new = \<lparr>sp_clientMsgId = None, sp_msgId = None, sp_timestamp = None, sp_topicSeq = None, sp_unknowns = []\<rparr>"

definition SendMessageReply_encode :: "runtime \<Rightarrow> nat \<Rightarrow> sendMessageReply \<Rightarrow> wireError + bytes" where
  "SendMessageReply_encode rt depth message =
     encodeMessage rt depth
       [Inr (optional (sp_clientMsgId message) (\<lambda>v. wUint32 rt 10 @ wString rt v)),
        Inr (optional (sp_msgId message) (\<lambda>v. wUint32 rt 16 @ wInt64 rt v)),
        Inr (optional (sp_timestamp message) (\<lambda>v. wUint32 rt 24 @ wInt64 rt v)),
        Inr (optional (sp_topicSeq message) (\<lambda>v. wUint32 rt 32 @ wUint64 rt v))]
       (sp_unknowns message)"

definition SendMessageReply_field :: "runtime \<Rightarrow> sendMessageReply \<Rightarrow> nat \<Rightarrow> nat \<Rightarrow> bytes \<Rightarrow> sendMessageReply fieldResult" where
  "SendMessageReply_field rt m field wireType r =
     (if field = 1 then scalar wireType 2 (rString rt r) (\<lambda>v. v \<noteq> []) (\<lambda>v. m\<lparr>sp_clientMsgId := v\<rparr>)
      else if field = 2 then scalar wireType 0 (rInt64 rt r) (\<lambda>v. v \<noteq> 0) (\<lambda>v. m\<lparr>sp_msgId := v\<rparr>)
      else if field = 3 then scalar wireType 0 (rInt64 rt r) (\<lambda>v. v \<noteq> 0) (\<lambda>v. m\<lparr>sp_timestamp := v\<rparr>)
      else if field = 4 then scalar wireType 0 (rUint64 rt r) (\<lambda>v. v \<noteq> 0) (\<lambda>v. m\<lparr>sp_topicSeq := v\<rparr>)
      else Inr None)"

definition SendMessageReply_decode ::
  "runtime \<Rightarrow> nat \<Rightarrow> sendMessageReply option \<Rightarrow> nat \<Rightarrow> bytes \<Rightarrow> wireError + sendMessageReply \<times> bytes" where
  "SendMessageReply_decode rt depth target len r =
     decodeMessage rt depth (\<lambda>u m. m\<lparr>sp_unknowns := sp_unknowns m @ [u]\<rparr>) (SendMessageReply_field rt)
       (case target of None \<Rightarrow> SendMessageReply_new | Some m \<Rightarrow> m) len r"

definition SendMessageReply_norm :: "sendMessageReply \<Rightarrow> sendMessageReply" where
  "SendMessageReply_norm m =
     \<lparr>sp_clientMsgId = withoutDefault (\<lambda>v. v \<noteq> []) (sp_clientMsgId m),
      sp_msgId = withoutDefault (\<lambda>v. v \<noteq> 0) (sp_msgId m),
      sp_timestamp = withoutDefault (\<lambda>v. v \<noteq> 0) (sp_timestamp m),
      sp_topicSeq = withoutDefault (\<lambda>v. v \<noteq> 0) (sp_topicSeq m),
      sp_unknowns = []\<rparr>"

definition SendMessageReply_ok :: "sendMessageReply \<Rightarrow> bool" where
  "SendMessageReply_ok m \<longleftrightarrow> (case sp_clientMsgId m of None \<Rightarrow> True | Some s \<Rightarrow> wellFormed s) \<and>
     sp_unknowns m = []"

section \<open>MessagePush\<close>

record messagePush =
  pu_msgId :: "64 word option"
  pu_topic :: "jsstring option"
  pu_senderId :: "64 word option"
  pu_msgType :: "32 word option"
  pu_content :: "bytes option"
  pu_timestamp :: "64 word option"
  pu_topicSeq :: "64 word option"
  pu_clientMsgId :: "jsstring option"
  pu_recalled :: "bool option"
  pu_mentionedUserIds :: "64 word list option"
  pu_unknowns :: "bytes list"

definition MessagePush_new :: messagePush where
  "MessagePush_new = \<lparr>pu_msgId = None, pu_topic = None, pu_senderId = None, pu_msgType = None, pu_content = None, pu_timestamp = None, pu_topicSeq = None, pu_clientMsgId = None, pu_recalled = None, pu_mentionedUserIds = None, pu_unknowns = []\<rparr>"

definition MessagePush_encode :: "runtime \<Rightarrow> nat \<Rightarrow> messagePush \<Rightarrow> wireError + bytes" where
  "MessagePush_encode rt depth message =
     encodeMessage rt depth
       [Inr (optional (pu_msgId message) (\<lambda>v. wUint32 rt 8 @ wInt64 rt v)),
        Inr (optional (pu_topic message) (\<lambda>v. wUint32 rt 18 @ wString rt v)),
        Inr (optional (pu_senderId message) (\<lambda>v. wUint32 rt 24 @ wInt64 rt v)),
        Inr (optional (pu_msgType message) (\<lambda>v. wUint32 rt 32 @ wInt32 rt v)),
        Inr (optional (pu_content message) (\<lambda>v. wUint32 rt 42 @ wBytes rt v)),
        Inr (optional (pu_timestamp message) (\<lambda>v. wUint32 rt 48 @ wInt64 rt v)),
        Inr (optional (pu_topicSeq message) (\<lambda>v. wUint32 rt 56 @ wUint64 rt v)),
        Inr (optional (pu_clientMsgId message) (\<lambda>v. wUint32 rt 66 @ wString rt v)),
        Inr (optional (pu_recalled message) (\<lambda>v. wUint32 rt 72 @ wBool rt v)),
        Inr (packedInt64 rt 82 (pu_mentionedUserIds message))]
       (pu_unknowns message)"

definition MessagePush_field :: "runtime \<Rightarrow> messagePush \<Rightarrow> nat \<Rightarrow> nat \<Rightarrow> bytes \<Rightarrow> messagePush fieldResult" where
  "MessagePush_field rt m field wireType r =
     (if field = 1 then scalar wireType 0 (rInt64 rt r) (\<lambda>v. v \<noteq> 0) (\<lambda>v. m\<lparr>pu_msgId := v\<rparr>)
      else if field = 2 then scalar wireType 2 (rString rt r) (\<lambda>v. v \<noteq> []) (\<lambda>v. m\<lparr>pu_topic := v\<rparr>)
      else if field = 3 then scalar wireType 0 (rInt64 rt r) (\<lambda>v. v \<noteq> 0) (\<lambda>v. m\<lparr>pu_senderId := v\<rparr>)
      else if field = 4 then scalar wireType 0 (rInt32 rt r) (\<lambda>v. v \<noteq> 0) (\<lambda>v. m\<lparr>pu_msgType := v\<rparr>)
      else if field = 5 then scalar wireType 2 (rBytes rt r) (\<lambda>v. v \<noteq> []) (\<lambda>v. m\<lparr>pu_content := v\<rparr>)
      else if field = 6 then scalar wireType 0 (rInt64 rt r) (\<lambda>v. v \<noteq> 0) (\<lambda>v. m\<lparr>pu_timestamp := v\<rparr>)
      else if field = 7 then scalar wireType 0 (rUint64 rt r) (\<lambda>v. v \<noteq> 0) (\<lambda>v. m\<lparr>pu_topicSeq := v\<rparr>)
      else if field = 8 then scalar wireType 2 (rString rt r) (\<lambda>v. v \<noteq> []) (\<lambda>v. m\<lparr>pu_clientMsgId := v\<rparr>)
      else if field = 9 then scalar wireType 0 (rBool rt r) (\<lambda>v. v) (\<lambda>v. m\<lparr>pu_recalled := v\<rparr>)
      else if field = 10 then repeatedInt64 rt wireType r (pu_mentionedUserIds m) (\<lambda>v. m\<lparr>pu_mentionedUserIds := v\<rparr>)
      else Inr None)"

definition MessagePush_decode ::
  "runtime \<Rightarrow> nat \<Rightarrow> messagePush option \<Rightarrow> nat \<Rightarrow> bytes \<Rightarrow> wireError + messagePush \<times> bytes" where
  "MessagePush_decode rt depth target len r =
     decodeMessage rt depth (\<lambda>u m. m\<lparr>pu_unknowns := pu_unknowns m @ [u]\<rparr>) (MessagePush_field rt)
       (case target of None \<Rightarrow> MessagePush_new | Some m \<Rightarrow> m) len r"

definition MessagePush_norm :: "messagePush \<Rightarrow> messagePush" where
  "MessagePush_norm m =
     \<lparr>pu_msgId = withoutDefault (\<lambda>v. v \<noteq> 0) (pu_msgId m),
      pu_topic = withoutDefault (\<lambda>v. v \<noteq> []) (pu_topic m),
      pu_senderId = withoutDefault (\<lambda>v. v \<noteq> 0) (pu_senderId m),
      pu_msgType = withoutDefault (\<lambda>v. v \<noteq> 0) (pu_msgType m),
      pu_content = withoutDefault (\<lambda>v. v \<noteq> []) (pu_content m),
      pu_timestamp = withoutDefault (\<lambda>v. v \<noteq> 0) (pu_timestamp m),
      pu_topicSeq = withoutDefault (\<lambda>v. v \<noteq> 0) (pu_topicSeq m),
      pu_clientMsgId = withoutDefault (\<lambda>v. v \<noteq> []) (pu_clientMsgId m),
      pu_recalled = withoutDefault (\<lambda>v. v) (pu_recalled m),
      pu_mentionedUserIds = withoutDefault (\<lambda>v. v \<noteq> []) (pu_mentionedUserIds m),
      pu_unknowns = []\<rparr>"

definition MessagePush_ok :: "messagePush \<Rightarrow> bool" where
  "MessagePush_ok m \<longleftrightarrow> (case pu_topic m of None \<Rightarrow> True | Some s \<Rightarrow> wellFormed s) \<and>
     (case pu_clientMsgId m of None \<Rightarrow> True | Some s \<Rightarrow> wellFormed s) \<and>
     pu_unknowns m = []"

section \<open>PullRequest\<close>

record pullRequest =
  pq_topic :: "jsstring option"
  pq_lastSeq :: "64 word option"
  pq_limit :: "32 word option"
  pq_endSeq :: "64 word option"
  pq_unknowns :: "bytes list"

definition PullRequest_new :: pullRequest where
  "PullRequest_new = \<lparr>pq_topic = None, pq_lastSeq = None, pq_limit = None, pq_endSeq = None, pq_unknowns = []\<rparr>"

definition PullRequest_encode :: "runtime \<Rightarrow> nat \<Rightarrow> pullRequest \<Rightarrow> wireError + bytes" where
  "PullRequest_encode rt depth message =
     encodeMessage rt depth
       [Inr (optional (pq_topic message) (\<lambda>v. wUint32 rt 10 @ wString rt v)),
        Inr (optional (pq_lastSeq message) (\<lambda>v. wUint32 rt 16 @ wUint64 rt v)),
        Inr (optional (pq_limit message) (\<lambda>v. wUint32 rt 24 @ wInt32 rt v)),
        Inr (optional (pq_endSeq message) (\<lambda>v. wUint32 rt 32 @ wUint64 rt v))]
       (pq_unknowns message)"

definition PullRequest_field :: "runtime \<Rightarrow> pullRequest \<Rightarrow> nat \<Rightarrow> nat \<Rightarrow> bytes \<Rightarrow> pullRequest fieldResult" where
  "PullRequest_field rt m field wireType r =
     (if field = 1 then scalar wireType 2 (rString rt r) (\<lambda>v. v \<noteq> []) (\<lambda>v. m\<lparr>pq_topic := v\<rparr>)
      else if field = 2 then scalar wireType 0 (rUint64 rt r) (\<lambda>v. v \<noteq> 0) (\<lambda>v. m\<lparr>pq_lastSeq := v\<rparr>)
      else if field = 3 then scalar wireType 0 (rInt32 rt r) (\<lambda>v. v \<noteq> 0) (\<lambda>v. m\<lparr>pq_limit := v\<rparr>)
      else if field = 4 then scalar wireType 0 (rUint64 rt r) (\<lambda>v. v \<noteq> 0) (\<lambda>v. m\<lparr>pq_endSeq := v\<rparr>)
      else Inr None)"

definition PullRequest_decode ::
  "runtime \<Rightarrow> nat \<Rightarrow> pullRequest option \<Rightarrow> nat \<Rightarrow> bytes \<Rightarrow> wireError + pullRequest \<times> bytes" where
  "PullRequest_decode rt depth target len r =
     decodeMessage rt depth (\<lambda>u m. m\<lparr>pq_unknowns := pq_unknowns m @ [u]\<rparr>) (PullRequest_field rt)
       (case target of None \<Rightarrow> PullRequest_new | Some m \<Rightarrow> m) len r"

definition PullRequest_norm :: "pullRequest \<Rightarrow> pullRequest" where
  "PullRequest_norm m =
     \<lparr>pq_topic = withoutDefault (\<lambda>v. v \<noteq> []) (pq_topic m),
      pq_lastSeq = withoutDefault (\<lambda>v. v \<noteq> 0) (pq_lastSeq m),
      pq_limit = withoutDefault (\<lambda>v. v \<noteq> 0) (pq_limit m),
      pq_endSeq = withoutDefault (\<lambda>v. v \<noteq> 0) (pq_endSeq m),
      pq_unknowns = []\<rparr>"

definition PullRequest_ok :: "pullRequest \<Rightarrow> bool" where
  "PullRequest_ok m \<longleftrightarrow> (case pq_topic m of None \<Rightarrow> True | Some s \<Rightarrow> wellFormed s) \<and>
     pq_unknowns m = []"

section \<open>PullMessage\<close>

record pullMessage =
  pm_msgId :: "64 word option"
  pm_topic :: "jsstring option"
  pm_senderId :: "64 word option"
  pm_msgType :: "32 word option"
  pm_content :: "bytes option"
  pm_timestamp :: "64 word option"
  pm_topicSeq :: "64 word option"
  pm_clientMsgId :: "jsstring option"
  pm_recalled :: "bool option"
  pm_unknowns :: "bytes list"

definition PullMessage_new :: pullMessage where
  "PullMessage_new = \<lparr>pm_msgId = None, pm_topic = None, pm_senderId = None, pm_msgType = None, pm_content = None, pm_timestamp = None, pm_topicSeq = None, pm_clientMsgId = None, pm_recalled = None, pm_unknowns = []\<rparr>"

definition PullMessage_encode :: "runtime \<Rightarrow> nat \<Rightarrow> pullMessage \<Rightarrow> wireError + bytes" where
  "PullMessage_encode rt depth message =
     encodeMessage rt depth
       [Inr (optional (pm_msgId message) (\<lambda>v. wUint32 rt 8 @ wInt64 rt v)),
        Inr (optional (pm_topic message) (\<lambda>v. wUint32 rt 18 @ wString rt v)),
        Inr (optional (pm_senderId message) (\<lambda>v. wUint32 rt 24 @ wInt64 rt v)),
        Inr (optional (pm_msgType message) (\<lambda>v. wUint32 rt 32 @ wInt32 rt v)),
        Inr (optional (pm_content message) (\<lambda>v. wUint32 rt 42 @ wBytes rt v)),
        Inr (optional (pm_timestamp message) (\<lambda>v. wUint32 rt 48 @ wInt64 rt v)),
        Inr (optional (pm_topicSeq message) (\<lambda>v. wUint32 rt 56 @ wUint64 rt v)),
        Inr (optional (pm_clientMsgId message) (\<lambda>v. wUint32 rt 66 @ wString rt v)),
        Inr (optional (pm_recalled message) (\<lambda>v. wUint32 rt 72 @ wBool rt v))]
       (pm_unknowns message)"

definition PullMessage_field :: "runtime \<Rightarrow> pullMessage \<Rightarrow> nat \<Rightarrow> nat \<Rightarrow> bytes \<Rightarrow> pullMessage fieldResult" where
  "PullMessage_field rt m field wireType r =
     (if field = 1 then scalar wireType 0 (rInt64 rt r) (\<lambda>v. v \<noteq> 0) (\<lambda>v. m\<lparr>pm_msgId := v\<rparr>)
      else if field = 2 then scalar wireType 2 (rString rt r) (\<lambda>v. v \<noteq> []) (\<lambda>v. m\<lparr>pm_topic := v\<rparr>)
      else if field = 3 then scalar wireType 0 (rInt64 rt r) (\<lambda>v. v \<noteq> 0) (\<lambda>v. m\<lparr>pm_senderId := v\<rparr>)
      else if field = 4 then scalar wireType 0 (rInt32 rt r) (\<lambda>v. v \<noteq> 0) (\<lambda>v. m\<lparr>pm_msgType := v\<rparr>)
      else if field = 5 then scalar wireType 2 (rBytes rt r) (\<lambda>v. v \<noteq> []) (\<lambda>v. m\<lparr>pm_content := v\<rparr>)
      else if field = 6 then scalar wireType 0 (rInt64 rt r) (\<lambda>v. v \<noteq> 0) (\<lambda>v. m\<lparr>pm_timestamp := v\<rparr>)
      else if field = 7 then scalar wireType 0 (rUint64 rt r) (\<lambda>v. v \<noteq> 0) (\<lambda>v. m\<lparr>pm_topicSeq := v\<rparr>)
      else if field = 8 then scalar wireType 2 (rString rt r) (\<lambda>v. v \<noteq> []) (\<lambda>v. m\<lparr>pm_clientMsgId := v\<rparr>)
      else if field = 9 then scalar wireType 0 (rBool rt r) (\<lambda>v. v) (\<lambda>v. m\<lparr>pm_recalled := v\<rparr>)
      else Inr None)"

definition PullMessage_decode ::
  "runtime \<Rightarrow> nat \<Rightarrow> pullMessage option \<Rightarrow> nat \<Rightarrow> bytes \<Rightarrow> wireError + pullMessage \<times> bytes" where
  "PullMessage_decode rt depth target len r =
     decodeMessage rt depth (\<lambda>u m. m\<lparr>pm_unknowns := pm_unknowns m @ [u]\<rparr>) (PullMessage_field rt)
       (case target of None \<Rightarrow> PullMessage_new | Some m \<Rightarrow> m) len r"

definition PullMessage_norm :: "pullMessage \<Rightarrow> pullMessage" where
  "PullMessage_norm m =
     \<lparr>pm_msgId = withoutDefault (\<lambda>v. v \<noteq> 0) (pm_msgId m),
      pm_topic = withoutDefault (\<lambda>v. v \<noteq> []) (pm_topic m),
      pm_senderId = withoutDefault (\<lambda>v. v \<noteq> 0) (pm_senderId m),
      pm_msgType = withoutDefault (\<lambda>v. v \<noteq> 0) (pm_msgType m),
      pm_content = withoutDefault (\<lambda>v. v \<noteq> []) (pm_content m),
      pm_timestamp = withoutDefault (\<lambda>v. v \<noteq> 0) (pm_timestamp m),
      pm_topicSeq = withoutDefault (\<lambda>v. v \<noteq> 0) (pm_topicSeq m),
      pm_clientMsgId = withoutDefault (\<lambda>v. v \<noteq> []) (pm_clientMsgId m),
      pm_recalled = withoutDefault (\<lambda>v. v) (pm_recalled m),
      pm_unknowns = []\<rparr>"

definition PullMessage_ok :: "pullMessage \<Rightarrow> bool" where
  "PullMessage_ok m \<longleftrightarrow> (case pm_topic m of None \<Rightarrow> True | Some s \<Rightarrow> wellFormed s) \<and>
     (case pm_clientMsgId m of None \<Rightarrow> True | Some s \<Rightarrow> wellFormed s) \<and>
     pm_unknowns m = []"

section \<open>AckRequest\<close>

record ackRequest =
  ak_msgId :: "64 word option"
  ak_topic :: "jsstring option"
  ak_topicSeq :: "64 word option"
  ak_unknowns :: "bytes list"

definition AckRequest_new :: ackRequest where
  "AckRequest_new = \<lparr>ak_msgId = None, ak_topic = None, ak_topicSeq = None, ak_unknowns = []\<rparr>"

definition AckRequest_encode :: "runtime \<Rightarrow> nat \<Rightarrow> ackRequest \<Rightarrow> wireError + bytes" where
  "AckRequest_encode rt depth message =
     encodeMessage rt depth
       [Inr (optional (ak_msgId message) (\<lambda>v. wUint32 rt 8 @ wInt64 rt v)),
        Inr (optional (ak_topic message) (\<lambda>v. wUint32 rt 18 @ wString rt v)),
        Inr (optional (ak_topicSeq message) (\<lambda>v. wUint32 rt 24 @ wUint64 rt v))]
       (ak_unknowns message)"

definition AckRequest_field :: "runtime \<Rightarrow> ackRequest \<Rightarrow> nat \<Rightarrow> nat \<Rightarrow> bytes \<Rightarrow> ackRequest fieldResult" where
  "AckRequest_field rt m field wireType r =
     (if field = 1 then scalar wireType 0 (rInt64 rt r) (\<lambda>v. v \<noteq> 0) (\<lambda>v. m\<lparr>ak_msgId := v\<rparr>)
      else if field = 2 then scalar wireType 2 (rString rt r) (\<lambda>v. v \<noteq> []) (\<lambda>v. m\<lparr>ak_topic := v\<rparr>)
      else if field = 3 then scalar wireType 0 (rUint64 rt r) (\<lambda>v. v \<noteq> 0) (\<lambda>v. m\<lparr>ak_topicSeq := v\<rparr>)
      else Inr None)"

definition AckRequest_decode ::
  "runtime \<Rightarrow> nat \<Rightarrow> ackRequest option \<Rightarrow> nat \<Rightarrow> bytes \<Rightarrow> wireError + ackRequest \<times> bytes" where
  "AckRequest_decode rt depth target len r =
     decodeMessage rt depth (\<lambda>u m. m\<lparr>ak_unknowns := ak_unknowns m @ [u]\<rparr>) (AckRequest_field rt)
       (case target of None \<Rightarrow> AckRequest_new | Some m \<Rightarrow> m) len r"

definition AckRequest_norm :: "ackRequest \<Rightarrow> ackRequest" where
  "AckRequest_norm m =
     \<lparr>ak_msgId = withoutDefault (\<lambda>v. v \<noteq> 0) (ak_msgId m),
      ak_topic = withoutDefault (\<lambda>v. v \<noteq> []) (ak_topic m),
      ak_topicSeq = withoutDefault (\<lambda>v. v \<noteq> 0) (ak_topicSeq m),
      ak_unknowns = []\<rparr>"

definition AckRequest_ok :: "ackRequest \<Rightarrow> bool" where
  "AckRequest_ok m \<longleftrightarrow> (case ak_topic m of None \<Rightarrow> True | Some s \<Rightarrow> wellFormed s) \<and>
     ak_unknowns m = []"

section \<open>ErrorResponse\<close>

record errorResponse =
  er_code :: "32 word option"
  er_message :: "jsstring option"
  er_retryable :: "bool option"
  er_retryAfterMs :: "64 word option"
  er_unknowns :: "bytes list"

definition ErrorResponse_new :: errorResponse where
  "ErrorResponse_new = \<lparr>er_code = None, er_message = None, er_retryable = None, er_retryAfterMs = None, er_unknowns = []\<rparr>"

definition ErrorResponse_encode :: "runtime \<Rightarrow> nat \<Rightarrow> errorResponse \<Rightarrow> wireError + bytes" where
  "ErrorResponse_encode rt depth message =
     encodeMessage rt depth
       [Inr (optional (er_code message) (\<lambda>v. wUint32 rt 8 @ wInt32 rt v)),
        Inr (optional (er_message message) (\<lambda>v. wUint32 rt 18 @ wString rt v)),
        Inr (optional (er_retryable message) (\<lambda>v. wUint32 rt 24 @ wBool rt v)),
        Inr (optional (er_retryAfterMs message) (\<lambda>v. wUint32 rt 32 @ wUint64 rt v))]
       (er_unknowns message)"

definition ErrorResponse_field :: "runtime \<Rightarrow> errorResponse \<Rightarrow> nat \<Rightarrow> nat \<Rightarrow> bytes \<Rightarrow> errorResponse fieldResult" where
  "ErrorResponse_field rt m field wireType r =
     (if field = 1 then scalar wireType 0 (rInt32 rt r) (\<lambda>v. v \<noteq> 0) (\<lambda>v. m\<lparr>er_code := v\<rparr>)
      else if field = 2 then scalar wireType 2 (rString rt r) (\<lambda>v. v \<noteq> []) (\<lambda>v. m\<lparr>er_message := v\<rparr>)
      else if field = 3 then scalar wireType 0 (rBool rt r) (\<lambda>v. v) (\<lambda>v. m\<lparr>er_retryable := v\<rparr>)
      else if field = 4 then scalar wireType 0 (rUint64 rt r) (\<lambda>v. v \<noteq> 0) (\<lambda>v. m\<lparr>er_retryAfterMs := v\<rparr>)
      else Inr None)"

definition ErrorResponse_decode ::
  "runtime \<Rightarrow> nat \<Rightarrow> errorResponse option \<Rightarrow> nat \<Rightarrow> bytes \<Rightarrow> wireError + errorResponse \<times> bytes" where
  "ErrorResponse_decode rt depth target len r =
     decodeMessage rt depth (\<lambda>u m. m\<lparr>er_unknowns := er_unknowns m @ [u]\<rparr>) (ErrorResponse_field rt)
       (case target of None \<Rightarrow> ErrorResponse_new | Some m \<Rightarrow> m) len r"

definition ErrorResponse_norm :: "errorResponse \<Rightarrow> errorResponse" where
  "ErrorResponse_norm m =
     \<lparr>er_code = withoutDefault (\<lambda>v. v \<noteq> 0) (er_code m),
      er_message = withoutDefault (\<lambda>v. v \<noteq> []) (er_message m),
      er_retryable = withoutDefault (\<lambda>v. v) (er_retryable m),
      er_retryAfterMs = withoutDefault (\<lambda>v. v \<noteq> 0) (er_retryAfterMs m),
      er_unknowns = []\<rparr>"

definition ErrorResponse_ok :: "errorResponse \<Rightarrow> bool" where
  "ErrorResponse_ok m \<longleftrightarrow> (case er_message m of None \<Rightarrow> True | Some s \<Rightarrow> wellFormed s) \<and>
     er_unknowns m = []"

section \<open>ReadReceipt\<close>

record readReceipt =
  rd_topic :: "jsstring option"
  rd_upToSeq :: "64 word option"
  rd_readerId :: "64 word option"
  rd_unknowns :: "bytes list"

definition ReadReceipt_new :: readReceipt where
  "ReadReceipt_new = \<lparr>rd_topic = None, rd_upToSeq = None, rd_readerId = None, rd_unknowns = []\<rparr>"

definition ReadReceipt_encode :: "runtime \<Rightarrow> nat \<Rightarrow> readReceipt \<Rightarrow> wireError + bytes" where
  "ReadReceipt_encode rt depth message =
     encodeMessage rt depth
       [Inr (optional (rd_topic message) (\<lambda>v. wUint32 rt 10 @ wString rt v)),
        Inr (optional (rd_upToSeq message) (\<lambda>v. wUint32 rt 16 @ wUint64 rt v)),
        Inr (optional (rd_readerId message) (\<lambda>v. wUint32 rt 24 @ wInt64 rt v))]
       (rd_unknowns message)"

definition ReadReceipt_field :: "runtime \<Rightarrow> readReceipt \<Rightarrow> nat \<Rightarrow> nat \<Rightarrow> bytes \<Rightarrow> readReceipt fieldResult" where
  "ReadReceipt_field rt m field wireType r =
     (if field = 1 then scalar wireType 2 (rString rt r) (\<lambda>v. v \<noteq> []) (\<lambda>v. m\<lparr>rd_topic := v\<rparr>)
      else if field = 2 then scalar wireType 0 (rUint64 rt r) (\<lambda>v. v \<noteq> 0) (\<lambda>v. m\<lparr>rd_upToSeq := v\<rparr>)
      else if field = 3 then scalar wireType 0 (rInt64 rt r) (\<lambda>v. v \<noteq> 0) (\<lambda>v. m\<lparr>rd_readerId := v\<rparr>)
      else Inr None)"

definition ReadReceipt_decode ::
  "runtime \<Rightarrow> nat \<Rightarrow> readReceipt option \<Rightarrow> nat \<Rightarrow> bytes \<Rightarrow> wireError + readReceipt \<times> bytes" where
  "ReadReceipt_decode rt depth target len r =
     decodeMessage rt depth (\<lambda>u m. m\<lparr>rd_unknowns := rd_unknowns m @ [u]\<rparr>) (ReadReceipt_field rt)
       (case target of None \<Rightarrow> ReadReceipt_new | Some m \<Rightarrow> m) len r"

definition ReadReceipt_norm :: "readReceipt \<Rightarrow> readReceipt" where
  "ReadReceipt_norm m =
     \<lparr>rd_topic = withoutDefault (\<lambda>v. v \<noteq> []) (rd_topic m),
      rd_upToSeq = withoutDefault (\<lambda>v. v \<noteq> 0) (rd_upToSeq m),
      rd_readerId = withoutDefault (\<lambda>v. v \<noteq> 0) (rd_readerId m),
      rd_unknowns = []\<rparr>"

definition ReadReceipt_ok :: "readReceipt \<Rightarrow> bool" where
  "ReadReceipt_ok m \<longleftrightarrow> (case rd_topic m of None \<Rightarrow> True | Some s \<Rightarrow> wellFormed s) \<and>
     rd_unknowns m = []"

section \<open>DeliveryReceipt\<close>

record deliveryReceipt =
  dr_topic :: "jsstring option"
  dr_topicSeq :: "64 word option"
  dr_msgId :: "64 word option"
  dr_unknowns :: "bytes list"

definition DeliveryReceipt_new :: deliveryReceipt where
  "DeliveryReceipt_new = \<lparr>dr_topic = None, dr_topicSeq = None, dr_msgId = None, dr_unknowns = []\<rparr>"

definition DeliveryReceipt_encode :: "runtime \<Rightarrow> nat \<Rightarrow> deliveryReceipt \<Rightarrow> wireError + bytes" where
  "DeliveryReceipt_encode rt depth message =
     encodeMessage rt depth
       [Inr (optional (dr_topic message) (\<lambda>v. wUint32 rt 10 @ wString rt v)),
        Inr (optional (dr_topicSeq message) (\<lambda>v. wUint32 rt 16 @ wUint64 rt v)),
        Inr (optional (dr_msgId message) (\<lambda>v. wUint32 rt 24 @ wInt64 rt v))]
       (dr_unknowns message)"

definition DeliveryReceipt_field :: "runtime \<Rightarrow> deliveryReceipt \<Rightarrow> nat \<Rightarrow> nat \<Rightarrow> bytes \<Rightarrow> deliveryReceipt fieldResult" where
  "DeliveryReceipt_field rt m field wireType r =
     (if field = 1 then scalar wireType 2 (rString rt r) (\<lambda>v. v \<noteq> []) (\<lambda>v. m\<lparr>dr_topic := v\<rparr>)
      else if field = 2 then scalar wireType 0 (rUint64 rt r) (\<lambda>v. v \<noteq> 0) (\<lambda>v. m\<lparr>dr_topicSeq := v\<rparr>)
      else if field = 3 then scalar wireType 0 (rInt64 rt r) (\<lambda>v. v \<noteq> 0) (\<lambda>v. m\<lparr>dr_msgId := v\<rparr>)
      else Inr None)"

definition DeliveryReceipt_decode ::
  "runtime \<Rightarrow> nat \<Rightarrow> deliveryReceipt option \<Rightarrow> nat \<Rightarrow> bytes \<Rightarrow> wireError + deliveryReceipt \<times> bytes" where
  "DeliveryReceipt_decode rt depth target len r =
     decodeMessage rt depth (\<lambda>u m. m\<lparr>dr_unknowns := dr_unknowns m @ [u]\<rparr>) (DeliveryReceipt_field rt)
       (case target of None \<Rightarrow> DeliveryReceipt_new | Some m \<Rightarrow> m) len r"

definition DeliveryReceipt_norm :: "deliveryReceipt \<Rightarrow> deliveryReceipt" where
  "DeliveryReceipt_norm m =
     \<lparr>dr_topic = withoutDefault (\<lambda>v. v \<noteq> []) (dr_topic m),
      dr_topicSeq = withoutDefault (\<lambda>v. v \<noteq> 0) (dr_topicSeq m),
      dr_msgId = withoutDefault (\<lambda>v. v \<noteq> 0) (dr_msgId m),
      dr_unknowns = []\<rparr>"

definition DeliveryReceipt_ok :: "deliveryReceipt \<Rightarrow> bool" where
  "DeliveryReceipt_ok m \<longleftrightarrow> (case dr_topic m of None \<Rightarrow> True | Some s \<Rightarrow> wellFormed s) \<and>
     dr_unknowns m = []"

section \<open>SendReceipt\<close>

record sendReceipt =
  sr_clientMsgId :: "jsstring option"
  sr_msgId :: "64 word option"
  sr_topic :: "jsstring option"
  sr_topicSeq :: "64 word option"
  sr_timestamp :: "64 word option"
  sr_unknowns :: "bytes list"

definition SendReceipt_new :: sendReceipt where
  "SendReceipt_new = \<lparr>sr_clientMsgId = None, sr_msgId = None, sr_topic = None, sr_topicSeq = None, sr_timestamp = None, sr_unknowns = []\<rparr>"

definition SendReceipt_encode :: "runtime \<Rightarrow> nat \<Rightarrow> sendReceipt \<Rightarrow> wireError + bytes" where
  "SendReceipt_encode rt depth message =
     encodeMessage rt depth
       [Inr (optional (sr_clientMsgId message) (\<lambda>v. wUint32 rt 10 @ wString rt v)),
        Inr (optional (sr_msgId message) (\<lambda>v. wUint32 rt 16 @ wInt64 rt v)),
        Inr (optional (sr_topic message) (\<lambda>v. wUint32 rt 26 @ wString rt v)),
        Inr (optional (sr_topicSeq message) (\<lambda>v. wUint32 rt 32 @ wUint64 rt v)),
        Inr (optional (sr_timestamp message) (\<lambda>v. wUint32 rt 40 @ wInt64 rt v))]
       (sr_unknowns message)"

definition SendReceipt_field :: "runtime \<Rightarrow> sendReceipt \<Rightarrow> nat \<Rightarrow> nat \<Rightarrow> bytes \<Rightarrow> sendReceipt fieldResult" where
  "SendReceipt_field rt m field wireType r =
     (if field = 1 then scalar wireType 2 (rString rt r) (\<lambda>v. v \<noteq> []) (\<lambda>v. m\<lparr>sr_clientMsgId := v\<rparr>)
      else if field = 2 then scalar wireType 0 (rInt64 rt r) (\<lambda>v. v \<noteq> 0) (\<lambda>v. m\<lparr>sr_msgId := v\<rparr>)
      else if field = 3 then scalar wireType 2 (rString rt r) (\<lambda>v. v \<noteq> []) (\<lambda>v. m\<lparr>sr_topic := v\<rparr>)
      else if field = 4 then scalar wireType 0 (rUint64 rt r) (\<lambda>v. v \<noteq> 0) (\<lambda>v. m\<lparr>sr_topicSeq := v\<rparr>)
      else if field = 5 then scalar wireType 0 (rInt64 rt r) (\<lambda>v. v \<noteq> 0) (\<lambda>v. m\<lparr>sr_timestamp := v\<rparr>)
      else Inr None)"

definition SendReceipt_decode ::
  "runtime \<Rightarrow> nat \<Rightarrow> sendReceipt option \<Rightarrow> nat \<Rightarrow> bytes \<Rightarrow> wireError + sendReceipt \<times> bytes" where
  "SendReceipt_decode rt depth target len r =
     decodeMessage rt depth (\<lambda>u m. m\<lparr>sr_unknowns := sr_unknowns m @ [u]\<rparr>) (SendReceipt_field rt)
       (case target of None \<Rightarrow> SendReceipt_new | Some m \<Rightarrow> m) len r"

definition SendReceipt_norm :: "sendReceipt \<Rightarrow> sendReceipt" where
  "SendReceipt_norm m =
     \<lparr>sr_clientMsgId = withoutDefault (\<lambda>v. v \<noteq> []) (sr_clientMsgId m),
      sr_msgId = withoutDefault (\<lambda>v. v \<noteq> 0) (sr_msgId m),
      sr_topic = withoutDefault (\<lambda>v. v \<noteq> []) (sr_topic m),
      sr_topicSeq = withoutDefault (\<lambda>v. v \<noteq> 0) (sr_topicSeq m),
      sr_timestamp = withoutDefault (\<lambda>v. v \<noteq> 0) (sr_timestamp m),
      sr_unknowns = []\<rparr>"

definition SendReceipt_ok :: "sendReceipt \<Rightarrow> bool" where
  "SendReceipt_ok m \<longleftrightarrow> (case sr_clientMsgId m of None \<Rightarrow> True | Some s \<Rightarrow> wellFormed s) \<and>
     (case sr_topic m of None \<Rightarrow> True | Some s \<Rightarrow> wellFormed s) \<and>
     sr_unknowns m = []"

section \<open>RecallRequest\<close>

record recallRequest =
  rq_topic :: "jsstring option"
  rq_topicSeq :: "64 word option"
  rq_msgId :: "64 word option"
  rq_unknowns :: "bytes list"

definition RecallRequest_new :: recallRequest where
  "RecallRequest_new = \<lparr>rq_topic = None, rq_topicSeq = None, rq_msgId = None, rq_unknowns = []\<rparr>"

definition RecallRequest_encode :: "runtime \<Rightarrow> nat \<Rightarrow> recallRequest \<Rightarrow> wireError + bytes" where
  "RecallRequest_encode rt depth message =
     encodeMessage rt depth
       [Inr (optional (rq_topic message) (\<lambda>v. wUint32 rt 10 @ wString rt v)),
        Inr (optional (rq_topicSeq message) (\<lambda>v. wUint32 rt 16 @ wUint64 rt v)),
        Inr (optional (rq_msgId message) (\<lambda>v. wUint32 rt 24 @ wInt64 rt v))]
       (rq_unknowns message)"

definition RecallRequest_field :: "runtime \<Rightarrow> recallRequest \<Rightarrow> nat \<Rightarrow> nat \<Rightarrow> bytes \<Rightarrow> recallRequest fieldResult" where
  "RecallRequest_field rt m field wireType r =
     (if field = 1 then scalar wireType 2 (rString rt r) (\<lambda>v. v \<noteq> []) (\<lambda>v. m\<lparr>rq_topic := v\<rparr>)
      else if field = 2 then scalar wireType 0 (rUint64 rt r) (\<lambda>v. v \<noteq> 0) (\<lambda>v. m\<lparr>rq_topicSeq := v\<rparr>)
      else if field = 3 then scalar wireType 0 (rInt64 rt r) (\<lambda>v. v \<noteq> 0) (\<lambda>v. m\<lparr>rq_msgId := v\<rparr>)
      else Inr None)"

definition RecallRequest_decode ::
  "runtime \<Rightarrow> nat \<Rightarrow> recallRequest option \<Rightarrow> nat \<Rightarrow> bytes \<Rightarrow> wireError + recallRequest \<times> bytes" where
  "RecallRequest_decode rt depth target len r =
     decodeMessage rt depth (\<lambda>u m. m\<lparr>rq_unknowns := rq_unknowns m @ [u]\<rparr>) (RecallRequest_field rt)
       (case target of None \<Rightarrow> RecallRequest_new | Some m \<Rightarrow> m) len r"

definition RecallRequest_norm :: "recallRequest \<Rightarrow> recallRequest" where
  "RecallRequest_norm m =
     \<lparr>rq_topic = withoutDefault (\<lambda>v. v \<noteq> []) (rq_topic m),
      rq_topicSeq = withoutDefault (\<lambda>v. v \<noteq> 0) (rq_topicSeq m),
      rq_msgId = withoutDefault (\<lambda>v. v \<noteq> 0) (rq_msgId m),
      rq_unknowns = []\<rparr>"

definition RecallRequest_ok :: "recallRequest \<Rightarrow> bool" where
  "RecallRequest_ok m \<longleftrightarrow> (case rq_topic m of None \<Rightarrow> True | Some s \<Rightarrow> wellFormed s) \<and>
     rq_unknowns m = []"

section \<open>RecallNotice\<close>

record recallNotice =
  rn_topic :: "jsstring option"
  rn_topicSeq :: "64 word option"
  rn_msgId :: "64 word option"
  rn_senderId :: "64 word option"
  rn_recalledAt :: "64 word option"
  rn_unknowns :: "bytes list"

definition RecallNotice_new :: recallNotice where
  "RecallNotice_new = \<lparr>rn_topic = None, rn_topicSeq = None, rn_msgId = None, rn_senderId = None, rn_recalledAt = None, rn_unknowns = []\<rparr>"

definition RecallNotice_encode :: "runtime \<Rightarrow> nat \<Rightarrow> recallNotice \<Rightarrow> wireError + bytes" where
  "RecallNotice_encode rt depth message =
     encodeMessage rt depth
       [Inr (optional (rn_topic message) (\<lambda>v. wUint32 rt 10 @ wString rt v)),
        Inr (optional (rn_topicSeq message) (\<lambda>v. wUint32 rt 16 @ wUint64 rt v)),
        Inr (optional (rn_msgId message) (\<lambda>v. wUint32 rt 24 @ wInt64 rt v)),
        Inr (optional (rn_senderId message) (\<lambda>v. wUint32 rt 32 @ wInt64 rt v)),
        Inr (optional (rn_recalledAt message) (\<lambda>v. wUint32 rt 40 @ wInt64 rt v))]
       (rn_unknowns message)"

definition RecallNotice_field :: "runtime \<Rightarrow> recallNotice \<Rightarrow> nat \<Rightarrow> nat \<Rightarrow> bytes \<Rightarrow> recallNotice fieldResult" where
  "RecallNotice_field rt m field wireType r =
     (if field = 1 then scalar wireType 2 (rString rt r) (\<lambda>v. v \<noteq> []) (\<lambda>v. m\<lparr>rn_topic := v\<rparr>)
      else if field = 2 then scalar wireType 0 (rUint64 rt r) (\<lambda>v. v \<noteq> 0) (\<lambda>v. m\<lparr>rn_topicSeq := v\<rparr>)
      else if field = 3 then scalar wireType 0 (rInt64 rt r) (\<lambda>v. v \<noteq> 0) (\<lambda>v. m\<lparr>rn_msgId := v\<rparr>)
      else if field = 4 then scalar wireType 0 (rInt64 rt r) (\<lambda>v. v \<noteq> 0) (\<lambda>v. m\<lparr>rn_senderId := v\<rparr>)
      else if field = 5 then scalar wireType 0 (rInt64 rt r) (\<lambda>v. v \<noteq> 0) (\<lambda>v. m\<lparr>rn_recalledAt := v\<rparr>)
      else Inr None)"

definition RecallNotice_decode ::
  "runtime \<Rightarrow> nat \<Rightarrow> recallNotice option \<Rightarrow> nat \<Rightarrow> bytes \<Rightarrow> wireError + recallNotice \<times> bytes" where
  "RecallNotice_decode rt depth target len r =
     decodeMessage rt depth (\<lambda>u m. m\<lparr>rn_unknowns := rn_unknowns m @ [u]\<rparr>) (RecallNotice_field rt)
       (case target of None \<Rightarrow> RecallNotice_new | Some m \<Rightarrow> m) len r"

definition RecallNotice_norm :: "recallNotice \<Rightarrow> recallNotice" where
  "RecallNotice_norm m =
     \<lparr>rn_topic = withoutDefault (\<lambda>v. v \<noteq> []) (rn_topic m),
      rn_topicSeq = withoutDefault (\<lambda>v. v \<noteq> 0) (rn_topicSeq m),
      rn_msgId = withoutDefault (\<lambda>v. v \<noteq> 0) (rn_msgId m),
      rn_senderId = withoutDefault (\<lambda>v. v \<noteq> 0) (rn_senderId m),
      rn_recalledAt = withoutDefault (\<lambda>v. v \<noteq> 0) (rn_recalledAt m),
      rn_unknowns = []\<rparr>"

definition RecallNotice_ok :: "recallNotice \<Rightarrow> bool" where
  "RecallNotice_ok m \<longleftrightarrow> (case rn_topic m of None \<Rightarrow> True | Some s \<Rightarrow> wellFormed s) \<and>
     rn_unknowns m = []"

section \<open>The contract of each codec\<close>

sublocale wire_runtime \<subseteq> aq: message_codec rt "AuthRequest_encode rt" "AuthRequest_decode rt" AuthRequest_norm AuthRequest_ok 2
proof (rule message_codecI)
  fix d m b
  assume "AuthRequest_encode rt d m = Inr b" and "AuthRequest_ok m"
  then show "parses d (\<lambda>u m. m\<lparr>aq_unknowns := aq_unknowns m @ [u]\<rparr>) (AuthRequest_field rt) AuthRequest_new b (AuthRequest_norm m)"
    by (auto simp: AuthRequest_encode_def encodeMessage_def AuthRequest_ok_def split: if_splits)
      (rule parses_cong,
       ((rule parses_append)?, rule wire_field, (simp add: AuthRequest_field_def AuthRequest_new_def; fail)+)+,
       simp add: AuthRequest_new_def AuthRequest_norm_def)
qed (simp_all add: AuthRequest_decode_def)

sublocale wire_runtime \<subseteq> ap: message_codec rt "AuthResponse_encode rt" "AuthResponse_decode rt" AuthResponse_norm AuthResponse_ok 2
proof (rule message_codecI)
  fix d m b
  assume "AuthResponse_encode rt d m = Inr b" and "AuthResponse_ok m"
  then show "parses d (\<lambda>u m. m\<lparr>ap_unknowns := ap_unknowns m @ [u]\<rparr>) (AuthResponse_field rt) AuthResponse_new b (AuthResponse_norm m)"
    by (auto simp: AuthResponse_encode_def encodeMessage_def AuthResponse_ok_def split: if_splits)
      (rule parses_cong,
       ((rule parses_append)?, rule wire_field, (simp add: AuthResponse_field_def AuthResponse_new_def; fail)+)+,
       simp add: AuthResponse_new_def AuthResponse_norm_def)
qed (simp_all add: AuthResponse_decode_def)

sublocale wire_runtime \<subseteq> sq: message_codec rt "SendMessageRequest_encode rt" "SendMessageRequest_decode rt" SendMessageRequest_norm SendMessageRequest_ok 2
proof (rule message_codecI)
  fix d m b
  assume "SendMessageRequest_encode rt d m = Inr b" and "SendMessageRequest_ok m"
  then show "parses d (\<lambda>u m. m\<lparr>sq_unknowns := sq_unknowns m @ [u]\<rparr>) (SendMessageRequest_field rt) SendMessageRequest_new b (SendMessageRequest_norm m)"
    by (auto simp: SendMessageRequest_encode_def encodeMessage_def SendMessageRequest_ok_def split: if_splits)
      (rule parses_cong,
       ((rule parses_append)?, rule wire_field, (simp add: SendMessageRequest_field_def SendMessageRequest_new_def; fail)+)+,
       simp add: SendMessageRequest_new_def SendMessageRequest_norm_def)
qed (simp_all add: SendMessageRequest_decode_def)

sublocale wire_runtime \<subseteq> sp: message_codec rt "SendMessageReply_encode rt" "SendMessageReply_decode rt" SendMessageReply_norm SendMessageReply_ok 2
proof (rule message_codecI)
  fix d m b
  assume "SendMessageReply_encode rt d m = Inr b" and "SendMessageReply_ok m"
  then show "parses d (\<lambda>u m. m\<lparr>sp_unknowns := sp_unknowns m @ [u]\<rparr>) (SendMessageReply_field rt) SendMessageReply_new b (SendMessageReply_norm m)"
    by (auto simp: SendMessageReply_encode_def encodeMessage_def SendMessageReply_ok_def split: if_splits)
      (rule parses_cong,
       ((rule parses_append)?, rule wire_field, (simp add: SendMessageReply_field_def SendMessageReply_new_def; fail)+)+,
       simp add: SendMessageReply_new_def SendMessageReply_norm_def)
qed (simp_all add: SendMessageReply_decode_def)

sublocale wire_runtime \<subseteq> pu: message_codec rt "MessagePush_encode rt" "MessagePush_decode rt" MessagePush_norm MessagePush_ok 2
proof (rule message_codecI)
  fix d m b
  assume "MessagePush_encode rt d m = Inr b" and "MessagePush_ok m"
  then show "parses d (\<lambda>u m. m\<lparr>pu_unknowns := pu_unknowns m @ [u]\<rparr>) (MessagePush_field rt) MessagePush_new b (MessagePush_norm m)"
    by (auto simp: MessagePush_encode_def encodeMessage_def MessagePush_ok_def split: if_splits)
      (rule parses_cong,
       ((rule parses_append)?, rule wire_field, (simp add: MessagePush_field_def MessagePush_new_def; fail)+)+,
       simp add: MessagePush_new_def MessagePush_norm_def)
qed (simp_all add: MessagePush_decode_def)

sublocale wire_runtime \<subseteq> pq: message_codec rt "PullRequest_encode rt" "PullRequest_decode rt" PullRequest_norm PullRequest_ok 2
proof (rule message_codecI)
  fix d m b
  assume "PullRequest_encode rt d m = Inr b" and "PullRequest_ok m"
  then show "parses d (\<lambda>u m. m\<lparr>pq_unknowns := pq_unknowns m @ [u]\<rparr>) (PullRequest_field rt) PullRequest_new b (PullRequest_norm m)"
    by (auto simp: PullRequest_encode_def encodeMessage_def PullRequest_ok_def split: if_splits)
      (rule parses_cong,
       ((rule parses_append)?, rule wire_field, (simp add: PullRequest_field_def PullRequest_new_def; fail)+)+,
       simp add: PullRequest_new_def PullRequest_norm_def)
qed (simp_all add: PullRequest_decode_def)

sublocale wire_runtime \<subseteq> pm: message_codec rt "PullMessage_encode rt" "PullMessage_decode rt" PullMessage_norm PullMessage_ok 2
proof (rule message_codecI)
  fix d m b
  assume "PullMessage_encode rt d m = Inr b" and "PullMessage_ok m"
  then show "parses d (\<lambda>u m. m\<lparr>pm_unknowns := pm_unknowns m @ [u]\<rparr>) (PullMessage_field rt) PullMessage_new b (PullMessage_norm m)"
    by (auto simp: PullMessage_encode_def encodeMessage_def PullMessage_ok_def split: if_splits)
      (rule parses_cong,
       ((rule parses_append)?, rule wire_field, (simp add: PullMessage_field_def PullMessage_new_def; fail)+)+,
       simp add: PullMessage_new_def PullMessage_norm_def)
qed (simp_all add: PullMessage_decode_def)

sublocale wire_runtime \<subseteq> ak: message_codec rt "AckRequest_encode rt" "AckRequest_decode rt" AckRequest_norm AckRequest_ok 2
proof (rule message_codecI)
  fix d m b
  assume "AckRequest_encode rt d m = Inr b" and "AckRequest_ok m"
  then show "parses d (\<lambda>u m. m\<lparr>ak_unknowns := ak_unknowns m @ [u]\<rparr>) (AckRequest_field rt) AckRequest_new b (AckRequest_norm m)"
    by (auto simp: AckRequest_encode_def encodeMessage_def AckRequest_ok_def split: if_splits)
      (rule parses_cong,
       ((rule parses_append)?, rule wire_field, (simp add: AckRequest_field_def AckRequest_new_def; fail)+)+,
       simp add: AckRequest_new_def AckRequest_norm_def)
qed (simp_all add: AckRequest_decode_def)

sublocale wire_runtime \<subseteq> er: message_codec rt "ErrorResponse_encode rt" "ErrorResponse_decode rt" ErrorResponse_norm ErrorResponse_ok 2
proof (rule message_codecI)
  fix d m b
  assume "ErrorResponse_encode rt d m = Inr b" and "ErrorResponse_ok m"
  then show "parses d (\<lambda>u m. m\<lparr>er_unknowns := er_unknowns m @ [u]\<rparr>) (ErrorResponse_field rt) ErrorResponse_new b (ErrorResponse_norm m)"
    by (auto simp: ErrorResponse_encode_def encodeMessage_def ErrorResponse_ok_def split: if_splits)
      (rule parses_cong,
       ((rule parses_append)?, rule wire_field, (simp add: ErrorResponse_field_def ErrorResponse_new_def; fail)+)+,
       simp add: ErrorResponse_new_def ErrorResponse_norm_def)
qed (simp_all add: ErrorResponse_decode_def)

sublocale wire_runtime \<subseteq> rd: message_codec rt "ReadReceipt_encode rt" "ReadReceipt_decode rt" ReadReceipt_norm ReadReceipt_ok 2
proof (rule message_codecI)
  fix d m b
  assume "ReadReceipt_encode rt d m = Inr b" and "ReadReceipt_ok m"
  then show "parses d (\<lambda>u m. m\<lparr>rd_unknowns := rd_unknowns m @ [u]\<rparr>) (ReadReceipt_field rt) ReadReceipt_new b (ReadReceipt_norm m)"
    by (auto simp: ReadReceipt_encode_def encodeMessage_def ReadReceipt_ok_def split: if_splits)
      (rule parses_cong,
       ((rule parses_append)?, rule wire_field, (simp add: ReadReceipt_field_def ReadReceipt_new_def; fail)+)+,
       simp add: ReadReceipt_new_def ReadReceipt_norm_def)
qed (simp_all add: ReadReceipt_decode_def)

sublocale wire_runtime \<subseteq> dr: message_codec rt "DeliveryReceipt_encode rt" "DeliveryReceipt_decode rt" DeliveryReceipt_norm DeliveryReceipt_ok 2
proof (rule message_codecI)
  fix d m b
  assume "DeliveryReceipt_encode rt d m = Inr b" and "DeliveryReceipt_ok m"
  then show "parses d (\<lambda>u m. m\<lparr>dr_unknowns := dr_unknowns m @ [u]\<rparr>) (DeliveryReceipt_field rt) DeliveryReceipt_new b (DeliveryReceipt_norm m)"
    by (auto simp: DeliveryReceipt_encode_def encodeMessage_def DeliveryReceipt_ok_def split: if_splits)
      (rule parses_cong,
       ((rule parses_append)?, rule wire_field, (simp add: DeliveryReceipt_field_def DeliveryReceipt_new_def; fail)+)+,
       simp add: DeliveryReceipt_new_def DeliveryReceipt_norm_def)
qed (simp_all add: DeliveryReceipt_decode_def)

sublocale wire_runtime \<subseteq> sr: message_codec rt "SendReceipt_encode rt" "SendReceipt_decode rt" SendReceipt_norm SendReceipt_ok 2
proof (rule message_codecI)
  fix d m b
  assume "SendReceipt_encode rt d m = Inr b" and "SendReceipt_ok m"
  then show "parses d (\<lambda>u m. m\<lparr>sr_unknowns := sr_unknowns m @ [u]\<rparr>) (SendReceipt_field rt) SendReceipt_new b (SendReceipt_norm m)"
    by (auto simp: SendReceipt_encode_def encodeMessage_def SendReceipt_ok_def split: if_splits)
      (rule parses_cong,
       ((rule parses_append)?, rule wire_field, (simp add: SendReceipt_field_def SendReceipt_new_def; fail)+)+,
       simp add: SendReceipt_new_def SendReceipt_norm_def)
qed (simp_all add: SendReceipt_decode_def)

sublocale wire_runtime \<subseteq> rq: message_codec rt "RecallRequest_encode rt" "RecallRequest_decode rt" RecallRequest_norm RecallRequest_ok 2
proof (rule message_codecI)
  fix d m b
  assume "RecallRequest_encode rt d m = Inr b" and "RecallRequest_ok m"
  then show "parses d (\<lambda>u m. m\<lparr>rq_unknowns := rq_unknowns m @ [u]\<rparr>) (RecallRequest_field rt) RecallRequest_new b (RecallRequest_norm m)"
    by (auto simp: RecallRequest_encode_def encodeMessage_def RecallRequest_ok_def split: if_splits)
      (rule parses_cong,
       ((rule parses_append)?, rule wire_field, (simp add: RecallRequest_field_def RecallRequest_new_def; fail)+)+,
       simp add: RecallRequest_new_def RecallRequest_norm_def)
qed (simp_all add: RecallRequest_decode_def)

sublocale wire_runtime \<subseteq> rn: message_codec rt "RecallNotice_encode rt" "RecallNotice_decode rt" RecallNotice_norm RecallNotice_ok 2
proof (rule message_codecI)
  fix d m b
  assume "RecallNotice_encode rt d m = Inr b" and "RecallNotice_ok m"
  then show "parses d (\<lambda>u m. m\<lparr>rn_unknowns := rn_unknowns m @ [u]\<rparr>) (RecallNotice_field rt) RecallNotice_new b (RecallNotice_norm m)"
    by (auto simp: RecallNotice_encode_def encodeMessage_def RecallNotice_ok_def split: if_splits)
      (rule parses_cong,
       ((rule parses_append)?, rule wire_field, (simp add: RecallNotice_field_def RecallNotice_new_def; fail)+)+,
       simp add: RecallNotice_new_def RecallNotice_norm_def)
qed (simp_all add: RecallNotice_decode_def)

end
