(* ===== verification/Proto_Packet.thy ===== *)
theory Proto_Packet
  imports Proto_Messages
begin

text \<open>
  The two codecs that nest other messages (\<^verbatim>\<open>web/app/lib/proto/im.js\<close>): \<open>PullReply\<close>, a list of
  \<open>PullMessage\<close>, and \<open>Packet\<close>, the envelope of the realtime protocol with its fourteen-way \<open>oneof
  payload\<close>. A JavaScript packet may own several payload properties; decoding assigns \<open>payload\<close> after
  each of them, which deletes the others. The enums \<open>Command\<close> and \<open>MsgType\<close> are their numbers.

  Shown: both codecs keep the contract of \<open>message_codec\<close>, so a packet with at most one payload
  survives encoding and decoding; and whatever bytes arrive, a decoded packet has at most one payload.
\<close>

section \<open>Enums\<close>

datatype command =
    CMD_UNKNOWN | CMD_HEARTBEAT | CMD_AUTH | CMD_PUBLISH | CMD_ACK | CMD_PULL | CMD_NOTIFY
  | CMD_READ_RECEIPT | CMD_DELIVERY_RECEIPT | CMD_SEND_RECEIPT | CMD_RECALL

primrec Command :: "command \<Rightarrow> 32 word" where
  "Command CMD_UNKNOWN = 0"
| "Command CMD_HEARTBEAT = 1"
| "Command CMD_AUTH = 2"
| "Command CMD_PUBLISH = 3"
| "Command CMD_ACK = 4"
| "Command CMD_PULL = 5"
| "Command CMD_NOTIFY = 6"
| "Command CMD_READ_RECEIPT = 7"
| "Command CMD_DELIVERY_RECEIPT = 8"
| "Command CMD_SEND_RECEIPT = 9"
| "Command CMD_RECALL = 10"

section \<open>PullReply\<close>

record pullReply =
  pr_messages :: "pullMessage list option"
  pr_hasMore :: "bool option"
  pr_nextSeq :: "64 word option"
  pr_unknowns :: "bytes list"

definition PullReply_new :: pullReply where
  "PullReply_new = \<lparr>pr_messages = None, pr_hasMore = None, pr_nextSeq = None, pr_unknowns = []\<rparr>"

definition PullReply_encode :: "runtime \<Rightarrow> nat \<Rightarrow> pullReply \<Rightarrow> wireError + bytes" where
  "PullReply_encode rt depth message =
     encodeMessage rt depth
       [nestedAll rt 10 (pr_messages message) (PullMessage_encode rt (depth + 1)),
        Inr (optional (pr_hasMore message) (\<lambda>v. wUint32 rt 16 @ wBool rt v)),
        Inr (optional (pr_nextSeq message) (\<lambda>v. wUint32 rt 24 @ wUint64 rt v))]
       (pr_unknowns message)"

definition PullReply_field :: "runtime \<Rightarrow> nat \<Rightarrow> pullReply \<Rightarrow> nat \<Rightarrow> nat \<Rightarrow> bytes \<Rightarrow> pullReply fieldResult" where
  "PullReply_field rt depth m field wireType r =
     (if field = 1 then
        subMessage rt wireType r (PullMessage_decode rt (depth + 1) None)
          (\<lambda>x. m\<lparr>pr_messages := Some ((case pr_messages m of None \<Rightarrow> [] | Some xs \<Rightarrow> xs) @ [x])\<rparr>)
      else if field = 2 then scalar wireType 0 (rBool rt r) (\<lambda>v. v) (\<lambda>v. m\<lparr>pr_hasMore := v\<rparr>)
      else if field = 3 then scalar wireType 0 (rUint64 rt r) (\<lambda>v. v \<noteq> 0) (\<lambda>v. m\<lparr>pr_nextSeq := v\<rparr>)
      else Inr None)"

definition PullReply_decode ::
  "runtime \<Rightarrow> nat \<Rightarrow> pullReply option \<Rightarrow> nat \<Rightarrow> bytes \<Rightarrow> wireError + pullReply \<times> bytes" where
  "PullReply_decode rt depth target len r =
     decodeMessage rt depth (\<lambda>u m. m\<lparr>pr_unknowns := pr_unknowns m @ [u]\<rparr>) (PullReply_field rt depth)
       (case target of None \<Rightarrow> PullReply_new | Some m \<Rightarrow> m) len r"

definition PullReply_norm :: "pullReply \<Rightarrow> pullReply" where
  "PullReply_norm m =
     \<lparr>pr_messages = withoutDefault (\<lambda>v. v \<noteq> []) (map_option (map PullMessage_norm) (pr_messages m)),
      pr_hasMore = withoutDefault (\<lambda>v. v) (pr_hasMore m),
      pr_nextSeq = withoutDefault (\<lambda>v. v \<noteq> 0) (pr_nextSeq m),
      pr_unknowns = []\<rparr>"

definition PullReply_ok :: "pullReply \<Rightarrow> bool" where
  "PullReply_ok m \<longleftrightarrow>
     (case pr_messages m of None \<Rightarrow> True | Some xs \<Rightarrow> list_all PullMessage_ok xs) \<and> pr_unknowns m = []"

section \<open>Packet\<close>

record packet =
  pk_cmd :: "32 word option"
  pk_seq :: "64 word option"
  pk_authReq :: "authRequest option"
  pk_authResp :: "authResponse option"
  pk_sendReq :: "sendMessageRequest option"
  pk_sendReply :: "sendMessageReply option"
  pk_pullReq :: "pullRequest option"
  pk_pullReply :: "pullReply option"
  pk_ackReq :: "ackRequest option"
  pk_notify :: "messagePush option"
  pk_readReceipt :: "readReceipt option"
  pk_deliveryReceipt :: "deliveryReceipt option"
  pk_sendReceipt :: "sendReceipt option"
  pk_recallReq :: "recallRequest option"
  pk_error :: "errorResponse option"
  pk_recallNotice :: "recallNotice option"
  pk_unknowns :: "bytes list"

definition Packet_new :: packet where
  "Packet_new =
     \<lparr>pk_cmd = None, pk_seq = None, pk_authReq = None, pk_authResp = None, pk_sendReq = None, pk_sendReply = None,
      pk_pullReq = None, pk_pullReply = None, pk_ackReq = None, pk_notify = None,
      pk_readReceipt = None, pk_deliveryReceipt = None, pk_sendReceipt = None, pk_recallReq = None,
      pk_error = None, pk_recallNotice = None,
      pk_unknowns = []\<rparr>"

text \<open>The names of \<open>$oneOfFields\<close>, and the setter of \<open>payload\<close>.\<close>

definition oneOfFields :: "string list" where
  "oneOfFields =
     [''authReq'', ''authResp'', ''sendReq'', ''sendReply'', ''pullReq'',
      ''pullReply'', ''ackReq'', ''notify'', ''readReceipt'', ''deliveryReceipt'',
      ''sendReceipt'', ''recallReq'', ''recallNotice'', ''error'']"

definition setPayload :: "runtime \<Rightarrow> string \<Rightarrow> packet \<Rightarrow> packet" where
  "setPayload rt name m =
     (let kept = oneOfKept rt oneOfFields name in
      \<lparr>pk_cmd = pk_cmd m, pk_seq = pk_seq m,
       pk_authReq = (if kept ''authReq'' then pk_authReq m else None),
       pk_authResp = (if kept ''authResp'' then pk_authResp m else None),
       pk_sendReq = (if kept ''sendReq'' then pk_sendReq m else None),
       pk_sendReply = (if kept ''sendReply'' then pk_sendReply m else None),
       pk_pullReq = (if kept ''pullReq'' then pk_pullReq m else None),
       pk_pullReply = (if kept ''pullReply'' then pk_pullReply m else None),
       pk_ackReq = (if kept ''ackReq'' then pk_ackReq m else None),
       pk_notify = (if kept ''notify'' then pk_notify m else None),
       pk_readReceipt = (if kept ''readReceipt'' then pk_readReceipt m else None),
       pk_deliveryReceipt = (if kept ''deliveryReceipt'' then pk_deliveryReceipt m else None),
       pk_sendReceipt = (if kept ''sendReceipt'' then pk_sendReceipt m else None),
       pk_recallReq = (if kept ''recallReq'' then pk_recallReq m else None),
       pk_error = (if kept ''error'' then pk_error m else None),
       pk_recallNotice = (if kept ''recallNotice'' then pk_recallNotice m else None),
       pk_unknowns = pk_unknowns m\<rparr>)"

definition Packet_encode :: "runtime \<Rightarrow> nat \<Rightarrow> packet \<Rightarrow> wireError + bytes" where
  "Packet_encode rt depth message =
     encodeMessage rt depth
       [Inr (optional (pk_cmd message) (\<lambda>v. wUint32 rt 8 @ wInt32 rt v)),
        Inr (optional (pk_seq message) (\<lambda>v. wUint32 rt 16 @ wUint64 rt v)),
        nested rt 82 (pk_authReq message) (AuthRequest_encode rt (depth + 1)),
        nested rt 90 (pk_authResp message) (AuthResponse_encode rt (depth + 1)),
        nested rt 162 (pk_sendReq message) (SendMessageRequest_encode rt (depth + 1)),
        nested rt 170 (pk_sendReply message) (SendMessageReply_encode rt (depth + 1)),
        nested rt 242 (pk_pullReq message) (PullRequest_encode rt (depth + 1)),
        nested rt 250 (pk_pullReply message) (PullReply_encode rt (depth + 1)),
        nested rt 322 (pk_ackReq message) (AckRequest_encode rt (depth + 1)),
        nested rt 402 (pk_notify message) (MessagePush_encode rt (depth + 1)),
        nested rt 482 (pk_readReceipt message) (ReadReceipt_encode rt (depth + 1)),
        nested rt 562 (pk_deliveryReceipt message) (DeliveryReceipt_encode rt (depth + 1)),
        nested rt 642 (pk_sendReceipt message) (SendReceipt_encode rt (depth + 1)),
        nested rt 722 (pk_recallReq message) (RecallRequest_encode rt (depth + 1)),
        nested rt 794 (pk_error message) (ErrorResponse_encode rt (depth + 1)),
        nested rt 802 (pk_recallNotice message) (RecallNotice_encode rt (depth + 1))]
       (pk_unknowns message)"

definition Packet_field :: "runtime \<Rightarrow> nat \<Rightarrow> packet \<Rightarrow> nat \<Rightarrow> nat \<Rightarrow> bytes \<Rightarrow> packet fieldResult" where
  "Packet_field rt depth m field wireType r =
     (if field = 1 then scalar wireType 0 (rInt32 rt r) (\<lambda>v. v \<noteq> 0) (\<lambda>v. m\<lparr>pk_cmd := v\<rparr>)
      else if field = 2 then scalar wireType 0 (rUint64 rt r) (\<lambda>v. v \<noteq> 0) (\<lambda>v. m\<lparr>pk_seq := v\<rparr>)
      else if field = 10 then
        subMessage rt wireType r (AuthRequest_decode rt (depth + 1) (pk_authReq m))
          (\<lambda>x. setPayload rt ''authReq'' (m\<lparr>pk_authReq := Some x\<rparr>))
      else if field = 11 then
        subMessage rt wireType r (AuthResponse_decode rt (depth + 1) (pk_authResp m))
          (\<lambda>x. setPayload rt ''authResp'' (m\<lparr>pk_authResp := Some x\<rparr>))
      else if field = 20 then
        subMessage rt wireType r (SendMessageRequest_decode rt (depth + 1) (pk_sendReq m))
          (\<lambda>x. setPayload rt ''sendReq'' (m\<lparr>pk_sendReq := Some x\<rparr>))
      else if field = 21 then
        subMessage rt wireType r (SendMessageReply_decode rt (depth + 1) (pk_sendReply m))
          (\<lambda>x. setPayload rt ''sendReply'' (m\<lparr>pk_sendReply := Some x\<rparr>))
      else if field = 30 then
        subMessage rt wireType r (PullRequest_decode rt (depth + 1) (pk_pullReq m))
          (\<lambda>x. setPayload rt ''pullReq'' (m\<lparr>pk_pullReq := Some x\<rparr>))
      else if field = 31 then
        subMessage rt wireType r (PullReply_decode rt (depth + 1) (pk_pullReply m))
          (\<lambda>x. setPayload rt ''pullReply'' (m\<lparr>pk_pullReply := Some x\<rparr>))
      else if field = 40 then
        subMessage rt wireType r (AckRequest_decode rt (depth + 1) (pk_ackReq m))
          (\<lambda>x. setPayload rt ''ackReq'' (m\<lparr>pk_ackReq := Some x\<rparr>))
      else if field = 50 then
        subMessage rt wireType r (MessagePush_decode rt (depth + 1) (pk_notify m))
          (\<lambda>x. setPayload rt ''notify'' (m\<lparr>pk_notify := Some x\<rparr>))
      else if field = 60 then
        subMessage rt wireType r (ReadReceipt_decode rt (depth + 1) (pk_readReceipt m))
          (\<lambda>x. setPayload rt ''readReceipt'' (m\<lparr>pk_readReceipt := Some x\<rparr>))
      else if field = 70 then
        subMessage rt wireType r (DeliveryReceipt_decode rt (depth + 1) (pk_deliveryReceipt m))
          (\<lambda>x. setPayload rt ''deliveryReceipt'' (m\<lparr>pk_deliveryReceipt := Some x\<rparr>))
      else if field = 80 then
        subMessage rt wireType r (SendReceipt_decode rt (depth + 1) (pk_sendReceipt m))
          (\<lambda>x. setPayload rt ''sendReceipt'' (m\<lparr>pk_sendReceipt := Some x\<rparr>))
      else if field = 90 then
        subMessage rt wireType r (RecallRequest_decode rt (depth + 1) (pk_recallReq m))
          (\<lambda>x. setPayload rt ''recallReq'' (m\<lparr>pk_recallReq := Some x\<rparr>))
      else if field = 100 then
        subMessage rt wireType r (RecallNotice_decode rt (depth + 1) (pk_recallNotice m))
          (\<lambda>x. setPayload rt ''recallNotice'' (m\<lparr>pk_recallNotice := Some x\<rparr>))
      else if field = 99 then
        subMessage rt wireType r (ErrorResponse_decode rt (depth + 1) (pk_error m))
          (\<lambda>x. setPayload rt ''error'' (m\<lparr>pk_error := Some x\<rparr>))
      else Inr None)"

definition Packet_decode ::
  "runtime \<Rightarrow> nat \<Rightarrow> packet option \<Rightarrow> nat \<Rightarrow> bytes \<Rightarrow> wireError + packet \<times> bytes" where
  "Packet_decode rt depth target len r =
     decodeMessage rt depth (\<lambda>u m. m\<lparr>pk_unknowns := pk_unknowns m @ [u]\<rparr>) (Packet_field rt depth)
       (case target of None \<Rightarrow> Packet_new | Some m \<Rightarrow> m) len r"

text \<open>
  The payload properties a packet owns, in the order \<open>encode\<close> writes them; what decoding keeps: the
  last of them.
\<close>

definition payloads :: "packet \<Rightarrow> string list" where
  "payloads m =
     map fst (filter snd
       [(''authReq'', pk_authReq m \<noteq> None),
        (''authResp'', pk_authResp m \<noteq> None),
        (''sendReq'', pk_sendReq m \<noteq> None),
        (''sendReply'', pk_sendReply m \<noteq> None),
        (''pullReq'', pk_pullReq m \<noteq> None),
        (''pullReply'', pk_pullReply m \<noteq> None),
        (''ackReq'', pk_ackReq m \<noteq> None),
        (''notify'', pk_notify m \<noteq> None),
        (''readReceipt'', pk_readReceipt m \<noteq> None),
        (''deliveryReceipt'', pk_deliveryReceipt m \<noteq> None),
        (''sendReceipt'', pk_sendReceipt m \<noteq> None),
        (''recallReq'', pk_recallReq m \<noteq> None),
        (''error'', pk_error m \<noteq> None),
        (''recallNotice'', pk_recallNotice m \<noteq> None)])"

definition lastPayload :: "packet \<Rightarrow> string option" where
  "lastPayload m = (if payloads m = [] then None else Some (last (payloads m)))"

definition Packet_only :: "packet \<Rightarrow> string option \<Rightarrow> packet" where
  "Packet_only m k =
     \<lparr>pk_cmd = withoutDefault (\<lambda>v. v \<noteq> 0) (pk_cmd m), pk_seq = withoutDefault (\<lambda>v. v \<noteq> 0) (pk_seq m),
      pk_authReq = (if k = Some ''authReq'' then map_option AuthRequest_norm (pk_authReq m) else None),
      pk_authResp = (if k = Some ''authResp'' then map_option AuthResponse_norm (pk_authResp m) else None),
      pk_sendReq = (if k = Some ''sendReq'' then map_option SendMessageRequest_norm (pk_sendReq m) else None),
      pk_sendReply = (if k = Some ''sendReply'' then map_option SendMessageReply_norm (pk_sendReply m) else None),
      pk_pullReq = (if k = Some ''pullReq'' then map_option PullRequest_norm (pk_pullReq m) else None),
      pk_pullReply = (if k = Some ''pullReply'' then map_option PullReply_norm (pk_pullReply m) else None),
      pk_ackReq = (if k = Some ''ackReq'' then map_option AckRequest_norm (pk_ackReq m) else None),
      pk_notify = (if k = Some ''notify'' then map_option MessagePush_norm (pk_notify m) else None),
      pk_readReceipt = (if k = Some ''readReceipt'' then map_option ReadReceipt_norm (pk_readReceipt m) else None),
      pk_deliveryReceipt = (if k = Some ''deliveryReceipt'' then map_option DeliveryReceipt_norm (pk_deliveryReceipt m) else None),
      pk_sendReceipt = (if k = Some ''sendReceipt'' then map_option SendReceipt_norm (pk_sendReceipt m) else None),
      pk_recallReq = (if k = Some ''recallReq'' then map_option RecallRequest_norm (pk_recallReq m) else None),
      pk_error = (if k = Some ''error'' then map_option ErrorResponse_norm (pk_error m) else None),
      pk_recallNotice = (if k = Some ''recallNotice'' then map_option RecallNotice_norm (pk_recallNotice m) else None),
      pk_unknowns = []\<rparr>"

definition Packet_norm :: "packet \<Rightarrow> packet" where
  "Packet_norm m = Packet_only m (lastPayload m)"

definition Packet_ok :: "packet \<Rightarrow> bool" where
  "Packet_ok m \<longleftrightarrow> pk_unknowns m = [] \<and>
     pred_option AuthRequest_ok (pk_authReq m) \<and>
     pred_option AuthResponse_ok (pk_authResp m) \<and>
     pred_option SendMessageRequest_ok (pk_sendReq m) \<and>
     pred_option SendMessageReply_ok (pk_sendReply m) \<and>
     pred_option PullRequest_ok (pk_pullReq m) \<and>
     pred_option PullReply_ok (pk_pullReply m) \<and>
     pred_option AckRequest_ok (pk_ackReq m) \<and>
     pred_option MessagePush_ok (pk_notify m) \<and>
     pred_option ReadReceipt_ok (pk_readReceipt m) \<and>
     pred_option DeliveryReceipt_ok (pk_deliveryReceipt m) \<and>
     pred_option SendReceipt_ok (pk_sendReceipt m) \<and>
     pred_option RecallRequest_ok (pk_recallReq m) \<and>
     pred_option ErrorResponse_ok (pk_error m) \<and>
     pred_option RecallNotice_ok (pk_recallNotice m)"

section \<open>The contracts\<close>

sublocale wire_runtime \<subseteq> pr: message_codec rt "PullReply_encode rt" "PullReply_decode rt" PullReply_norm PullReply_ok 1
proof (rule message_codecI)
  fix d m b
  assume enc: "PullReply_encode rt d m = Inr b" and ok: "PullReply_ok m" and d: "d \<le> (1::nat)"
  from enc ok d limits obtain c where c: "nestedAll rt 10 (pr_messages m) (PullMessage_encode rt (d + 1)) = Inr c"
    and b: "b = c @ optional (pr_hasMore m) (\<lambda>v. wUint32 rt 16 @ wBool rt v) @
                optional (pr_nextSeq m) (\<lambda>v. wUint32 rt 24 @ wUint64 rt v)"
    by (auto simp: PullReply_encode_def encodeMessage_def PullReply_ok_def split: sum.splits)
  let ?put = "\<lambda>v. PullReply_new\<lparr>pr_messages := v\<rparr>"
  have "parses d (\<lambda>u m. m\<lparr>pr_unknowns := pr_unknowns m @ [u]\<rparr>) (PullReply_field rt d) PullReply_new c
          (?put (pr_messages (PullReply_norm m)))"
    unfolding PullReply_norm_def pullReply.simps using ok d
    by (intro pm.parses_repeated [OF c])
      (simp_all add: PullReply_ok_def PullReply_field_def, simp add: PullReply_new_def)
  then show "parses d (\<lambda>u m. m\<lparr>pr_unknowns := pr_unknowns m @ [u]\<rparr>) (PullReply_field rt d) PullReply_new b (PullReply_norm m)"
    unfolding b
    by (rule parses_cong [OF parses_append])
      (((rule parses_append)?, rule wire_field, (simp add: PullReply_field_def PullReply_new_def; fail)+)+,
       simp add: PullReply_new_def PullReply_norm_def)
qed (simp_all add: PullReply_decode_def)

lemma if_flip: "(if x \<noteq> None then a else b) = (if x = None then b else a)"
  by simp

lemma last_filter_snd:
  "(if map fst (filter snd xs) = [] then k else Some (last (map fst (filter snd xs)))) =
   foldl (\<lambda>k (f, b). if b then Some f else k) k xs"
  by (induction xs arbitrary: k) (auto split: if_splits)

lemma lastPayload_last:
  "lastPayload m = (if pk_recallNotice m = None then (if pk_error m = None then (if pk_recallReq m = None then (if pk_sendReceipt m = None then (if pk_deliveryReceipt m = None then (if pk_readReceipt m = None then (if pk_notify m = None then (if pk_ackReq m = None then (if pk_pullReply m = None then (if pk_pullReq m = None then (if pk_sendReply m = None then (if pk_sendReq m = None then (if pk_authResp m = None then (if pk_authReq m = None then None else Some ''authReq'') else Some ''authResp'') else Some ''sendReq'') else Some ''sendReply'') else Some ''pullReq'') else Some ''pullReply'') else Some ''ackReq'') else Some ''notify'') else Some ''readReceipt'') else Some ''deliveryReceipt'') else Some ''sendReceipt'') else Some ''recallReq'') else Some ''error'') else Some ''recallNotice'')"
  unfolding lastPayload_def payloads_def last_filter_snd
  by (simp only: foldl.simps prod.case) (simp only: if_cancel if_flip)

context wire_runtime
begin

lemma kept [simp]: "f \<in> set oneOfFields \<Longrightarrow> oneOfKept rt oneOfFields v f \<longleftrightarrow> f = v"
  by (rule one_of)

lemma oneOfFields_set [simp]: "set oneOfFields =
  {''authReq'', ''authResp'', ''sendReq'', ''sendReply'', ''pullReq'', ''pullReply'', ''ackReq'', ''notify'', ''readReceipt'', ''deliveryReceipt'', ''sendReceipt'', ''recallReq'', ''recallNotice'', ''error''}"
  by (simp add: oneOfFields_def)

lemma step_authReq:
  assumes "nested rt 82 (pk_authReq m) (AuthRequest_encode rt (d + 1)) = Inr b" and "Packet_ok m" "d = 0" "k \<noteq> Some ''authReq''"
  shows "parses d a (Packet_field rt d) (Packet_only m k) b (Packet_only m (if pk_authReq m = None then k else Some ''authReq''))"
  by (rule parses_cong [OF aq.parses_nested [OF assms(1)]])
    (use assms in \<open>auto simp: Packet_ok_def Packet_field_def Packet_only_def setPayload_def\<close>)

lemma step_authResp:
  assumes "nested rt 90 (pk_authResp m) (AuthResponse_encode rt (d + 1)) = Inr b" and "Packet_ok m" "d = 0" "k \<noteq> Some ''authResp''"
  shows "parses d a (Packet_field rt d) (Packet_only m k) b (Packet_only m (if pk_authResp m = None then k else Some ''authResp''))"
  by (rule parses_cong [OF ap.parses_nested [OF assms(1)]])
    (use assms in \<open>auto simp: Packet_ok_def Packet_field_def Packet_only_def setPayload_def\<close>)

lemma step_sendReq:
  assumes "nested rt 162 (pk_sendReq m) (SendMessageRequest_encode rt (d + 1)) = Inr b" and "Packet_ok m" "d = 0" "k \<noteq> Some ''sendReq''"
  shows "parses d a (Packet_field rt d) (Packet_only m k) b (Packet_only m (if pk_sendReq m = None then k else Some ''sendReq''))"
  by (rule parses_cong [OF sq.parses_nested [OF assms(1)]])
    (use assms in \<open>auto simp: Packet_ok_def Packet_field_def Packet_only_def setPayload_def\<close>)

lemma step_sendReply:
  assumes "nested rt 170 (pk_sendReply m) (SendMessageReply_encode rt (d + 1)) = Inr b" and "Packet_ok m" "d = 0" "k \<noteq> Some ''sendReply''"
  shows "parses d a (Packet_field rt d) (Packet_only m k) b (Packet_only m (if pk_sendReply m = None then k else Some ''sendReply''))"
  by (rule parses_cong [OF sp.parses_nested [OF assms(1)]])
    (use assms in \<open>auto simp: Packet_ok_def Packet_field_def Packet_only_def setPayload_def\<close>)

lemma step_pullReq:
  assumes "nested rt 242 (pk_pullReq m) (PullRequest_encode rt (d + 1)) = Inr b" and "Packet_ok m" "d = 0" "k \<noteq> Some ''pullReq''"
  shows "parses d a (Packet_field rt d) (Packet_only m k) b (Packet_only m (if pk_pullReq m = None then k else Some ''pullReq''))"
  by (rule parses_cong [OF pq.parses_nested [OF assms(1)]])
    (use assms in \<open>auto simp: Packet_ok_def Packet_field_def Packet_only_def setPayload_def\<close>)

lemma step_pullReply:
  assumes "nested rt 250 (pk_pullReply m) (PullReply_encode rt (d + 1)) = Inr b" and "Packet_ok m" "d = 0" "k \<noteq> Some ''pullReply''"
  shows "parses d a (Packet_field rt d) (Packet_only m k) b (Packet_only m (if pk_pullReply m = None then k else Some ''pullReply''))"
  by (rule parses_cong [OF pr.parses_nested [OF assms(1)]])
    (use assms in \<open>auto simp: Packet_ok_def Packet_field_def Packet_only_def setPayload_def\<close>)

lemma step_ackReq:
  assumes "nested rt 322 (pk_ackReq m) (AckRequest_encode rt (d + 1)) = Inr b" and "Packet_ok m" "d = 0" "k \<noteq> Some ''ackReq''"
  shows "parses d a (Packet_field rt d) (Packet_only m k) b (Packet_only m (if pk_ackReq m = None then k else Some ''ackReq''))"
  by (rule parses_cong [OF ak.parses_nested [OF assms(1)]])
    (use assms in \<open>auto simp: Packet_ok_def Packet_field_def Packet_only_def setPayload_def\<close>)

lemma step_notify:
  assumes "nested rt 402 (pk_notify m) (MessagePush_encode rt (d + 1)) = Inr b" and "Packet_ok m" "d = 0" "k \<noteq> Some ''notify''"
  shows "parses d a (Packet_field rt d) (Packet_only m k) b (Packet_only m (if pk_notify m = None then k else Some ''notify''))"
  by (rule parses_cong [OF pu.parses_nested [OF assms(1)]])
    (use assms in \<open>auto simp: Packet_ok_def Packet_field_def Packet_only_def setPayload_def\<close>)

lemma step_readReceipt:
  assumes "nested rt 482 (pk_readReceipt m) (ReadReceipt_encode rt (d + 1)) = Inr b" and "Packet_ok m" "d = 0" "k \<noteq> Some ''readReceipt''"
  shows "parses d a (Packet_field rt d) (Packet_only m k) b (Packet_only m (if pk_readReceipt m = None then k else Some ''readReceipt''))"
  by (rule parses_cong [OF rd.parses_nested [OF assms(1)]])
    (use assms in \<open>auto simp: Packet_ok_def Packet_field_def Packet_only_def setPayload_def\<close>)

lemma step_deliveryReceipt:
  assumes "nested rt 562 (pk_deliveryReceipt m) (DeliveryReceipt_encode rt (d + 1)) = Inr b" and "Packet_ok m" "d = 0" "k \<noteq> Some ''deliveryReceipt''"
  shows "parses d a (Packet_field rt d) (Packet_only m k) b (Packet_only m (if pk_deliveryReceipt m = None then k else Some ''deliveryReceipt''))"
  by (rule parses_cong [OF dr.parses_nested [OF assms(1)]])
    (use assms in \<open>auto simp: Packet_ok_def Packet_field_def Packet_only_def setPayload_def\<close>)

lemma step_sendReceipt:
  assumes "nested rt 642 (pk_sendReceipt m) (SendReceipt_encode rt (d + 1)) = Inr b" and "Packet_ok m" "d = 0" "k \<noteq> Some ''sendReceipt''"
  shows "parses d a (Packet_field rt d) (Packet_only m k) b (Packet_only m (if pk_sendReceipt m = None then k else Some ''sendReceipt''))"
  by (rule parses_cong [OF sr.parses_nested [OF assms(1)]])
    (use assms in \<open>auto simp: Packet_ok_def Packet_field_def Packet_only_def setPayload_def\<close>)

lemma step_recallReq:
  assumes "nested rt 722 (pk_recallReq m) (RecallRequest_encode rt (d + 1)) = Inr b" and "Packet_ok m" "d = 0" "k \<noteq> Some ''recallReq''"
  shows "parses d a (Packet_field rt d) (Packet_only m k) b (Packet_only m (if pk_recallReq m = None then k else Some ''recallReq''))"
  by (rule parses_cong [OF rq.parses_nested [OF assms(1)]])
    (use assms in \<open>auto simp: Packet_ok_def Packet_field_def Packet_only_def setPayload_def\<close>)

lemma step_error:
  assumes "nested rt 794 (pk_error m) (ErrorResponse_encode rt (d + 1)) = Inr b" and "Packet_ok m" "d = 0" "k \<noteq> Some ''error''"
  shows "parses d a (Packet_field rt d) (Packet_only m k) b (Packet_only m (if pk_error m = None then k else Some ''error''))"
  by (rule parses_cong [OF er.parses_nested [OF assms(1)]])
    (use assms in \<open>auto simp: Packet_ok_def Packet_field_def Packet_only_def setPayload_def\<close>)

lemma step_recallNotice:
  assumes "nested rt 802 (pk_recallNotice m) (RecallNotice_encode rt (d + 1)) = Inr b" and "Packet_ok m" "d = 0" "k \<noteq> Some ''recallNotice''"
  shows "parses d a (Packet_field rt d) (Packet_only m k) b (Packet_only m (if pk_recallNotice m = None then k else Some ''recallNotice''))"
  by (rule parses_cong [OF rn.parses_nested [OF assms(1)]])
    (use assms in \<open>auto simp: Packet_ok_def Packet_field_def Packet_only_def setPayload_def\<close>)

lemmas payload_step =
  step_authReq step_authResp step_sendReq step_sendReply step_pullReq step_pullReply step_ackReq step_notify step_readReceipt step_deliveryReceipt step_sendReceipt step_recallReq step_error step_recallNotice

end

sublocale wire_runtime \<subseteq> pk: message_codec rt "Packet_encode rt" "Packet_decode rt" Packet_norm Packet_ok 0
proof (rule message_codecI)
  fix d m b
  assume enc: "Packet_encode rt d m = Inr b" and ok: "Packet_ok m" and d: "d \<le> (0::nat)"
  show "parses d (\<lambda>u m. m\<lparr>pk_unknowns := pk_unknowns m @ [u]\<rparr>) (Packet_field rt d) Packet_new b (Packet_norm m)"
    apply (rule parses_writes_Inr [OF encodeMessage_Inr])
    using enc ok apply (simp only: Packet_encode_def Packet_ok_def)
    apply (rule wire_field, (simp add: Packet_field_def Packet_new_def; fail)+)
    apply (erule parses_writes_Inr [where ?m1.0 = "Packet_only m None"])
    apply (rule parses_cong, rule wire_field, (simp add: Packet_field_def Packet_new_def; fail)+)
    apply (simp add: Packet_only_def Packet_new_def)
    apply ((erule parses_writes_Cons, erule payload_step, rule ok, rule d [simplified], simp)+)
    apply (erule parses_writes_Nil)
    apply (simp only: Packet_norm_def lastPayload_last)
    done
qed (simp_all add: Packet_decode_def)


section \<open>Encoding never fails below the depth limit\<close>

lemma AuthRequest_total: "d \<le> writeLimit rt \<Longrightarrow> \<exists>b. AuthRequest_encode rt d m = Inr b"
  unfolding AuthRequest_encode_def by (rule encodeMessage_total) auto

lemma AuthResponse_total: "d \<le> writeLimit rt \<Longrightarrow> \<exists>b. AuthResponse_encode rt d m = Inr b"
  unfolding AuthResponse_encode_def by (rule encodeMessage_total) auto

lemma SendMessageRequest_total: "d \<le> writeLimit rt \<Longrightarrow> \<exists>b. SendMessageRequest_encode rt d m = Inr b"
  unfolding SendMessageRequest_encode_def by (rule encodeMessage_total) auto

lemma SendMessageReply_total: "d \<le> writeLimit rt \<Longrightarrow> \<exists>b. SendMessageReply_encode rt d m = Inr b"
  unfolding SendMessageReply_encode_def by (rule encodeMessage_total) auto

lemma PullRequest_total: "d \<le> writeLimit rt \<Longrightarrow> \<exists>b. PullRequest_encode rt d m = Inr b"
  unfolding PullRequest_encode_def by (rule encodeMessage_total) auto

lemma AckRequest_total: "d \<le> writeLimit rt \<Longrightarrow> \<exists>b. AckRequest_encode rt d m = Inr b"
  unfolding AckRequest_encode_def by (rule encodeMessage_total) auto

lemma MessagePush_total: "d \<le> writeLimit rt \<Longrightarrow> \<exists>b. MessagePush_encode rt d m = Inr b"
  unfolding MessagePush_encode_def by (rule encodeMessage_total) auto

lemma ReadReceipt_total: "d \<le> writeLimit rt \<Longrightarrow> \<exists>b. ReadReceipt_encode rt d m = Inr b"
  unfolding ReadReceipt_encode_def by (rule encodeMessage_total) auto

lemma DeliveryReceipt_total: "d \<le> writeLimit rt \<Longrightarrow> \<exists>b. DeliveryReceipt_encode rt d m = Inr b"
  unfolding DeliveryReceipt_encode_def by (rule encodeMessage_total) auto

lemma SendReceipt_total: "d \<le> writeLimit rt \<Longrightarrow> \<exists>b. SendReceipt_encode rt d m = Inr b"
  unfolding SendReceipt_encode_def by (rule encodeMessage_total) auto

lemma RecallRequest_total: "d \<le> writeLimit rt \<Longrightarrow> \<exists>b. RecallRequest_encode rt d m = Inr b"
  unfolding RecallRequest_encode_def by (rule encodeMessage_total) auto

lemma ErrorResponse_total: "d \<le> writeLimit rt \<Longrightarrow> \<exists>b. ErrorResponse_encode rt d m = Inr b"
  unfolding ErrorResponse_encode_def by (rule encodeMessage_total) auto

lemma RecallNotice_total: "d \<le> writeLimit rt \<Longrightarrow> \<exists>b. RecallNotice_encode rt d m = Inr b"
  unfolding RecallNotice_encode_def by (rule encodeMessage_total) auto

lemma PullMessage_total: "d \<le> writeLimit rt \<Longrightarrow> \<exists>b. PullMessage_encode rt d m = Inr b"
  unfolding PullMessage_encode_def by (rule encodeMessage_total) auto

lemma PullReply_total: "d < writeLimit rt \<Longrightarrow> \<exists>b. PullReply_encode rt d m = Inr b"
  unfolding PullReply_encode_def
  by (rule encodeMessage_total) (auto intro!: nestedAll_total PullMessage_total)

lemmas payload_total =
  AuthRequest_total AuthResponse_total SendMessageRequest_total SendMessageReply_total PullRequest_total
  PullReply_total AckRequest_total MessagePush_total ReadReceipt_total DeliveryReceipt_total
  SendReceipt_total RecallRequest_total ErrorResponse_total RecallNotice_total

lemma Packet_total: "2 \<le> writeLimit rt \<Longrightarrow> \<exists>b. Packet_encode rt 0 m = Inr b"
  unfolding Packet_encode_def
  by (rule encodeMessage_total) (auto intro!: nested_total payload_total)

section \<open>A decoded packet has at most one payload\<close>

lemma scalar_put: "scalar w e rd nd put = Inr (Some (m, r)) \<Longrightarrow> \<exists>v. m = put v"
  by (auto simp: scalar_def liftRead_def split: if_splits option.splits)

lemma subMessage_put: "subMessage rt w r dec put = Inr (Some (m, r')) \<Longrightarrow> \<exists>x. m = put x"
  by (auto simp: subMessage_def liftRead_def split: if_splits option.splits sum.splits)

lemma ifE: "(if b then x else y) = z \<Longrightarrow> (b \<Longrightarrow> x = z \<Longrightarrow> Q) \<Longrightarrow> (y = z \<Longrightarrow> Q) \<Longrightarrow> Q"
  by (cases b) simp_all

lemma payloads_scalar: "payloads (m\<lparr>pk_cmd := c\<rparr>) = payloads m" "payloads (m\<lparr>pk_seq := s\<rparr>) = payloads m"
  "payloads (m\<lparr>pk_unknowns := u\<rparr>) = payloads m"
  by (cases m; simp only: payloads_def packet.simps packet.update_convs)+

lemma in_filter_snd: "f \<in> set (map fst (filter snd xs)) \<longleftrightarrow> (f, True) \<in> set xs"
  by force

lemma in_payloads: "f \<in> set (payloads m) \<longleftrightarrow>
  f = ''authReq'' \<and> pk_authReq m \<noteq> None \<or>
  f = ''authResp'' \<and> pk_authResp m \<noteq> None \<or>
  f = ''sendReq'' \<and> pk_sendReq m \<noteq> None \<or>
  f = ''sendReply'' \<and> pk_sendReply m \<noteq> None \<or>
  f = ''pullReq'' \<and> pk_pullReq m \<noteq> None \<or>
  f = ''pullReply'' \<and> pk_pullReply m \<noteq> None \<or>
  f = ''ackReq'' \<and> pk_ackReq m \<noteq> None \<or>
  f = ''notify'' \<and> pk_notify m \<noteq> None \<or>
  f = ''readReceipt'' \<and> pk_readReceipt m \<noteq> None \<or>
  f = ''deliveryReceipt'' \<and> pk_deliveryReceipt m \<noteq> None \<or>
  f = ''sendReceipt'' \<and> pk_sendReceipt m \<noteq> None \<or>
  f = ''recallReq'' \<and> pk_recallReq m \<noteq> None \<or>
  f = ''error'' \<and> pk_error m \<noteq> None \<or>
  f = ''recallNotice'' \<and> pk_recallNotice m \<noteq> None"
  unfolding payloads_def in_filter_snd by auto

lemma distinct_payloads: "distinct (payloads m)"
  unfolding payloads_def by (rule distinct_map_filter) simp

context wire_runtime
begin

lemma Packet_survives:
  assumes "Packet_ok m"
  shows "\<exists>b. Packet_encode rt 0 m = Inr b \<and>
           (length b < 2 ^ 32 \<longrightarrow> Packet_decode rt 0 None (length b) b = Inr (Packet_norm m, []))"
proof -
  obtain b where "Packet_encode rt 0 m = Inr b"
    using Packet_total [OF limits(1)] by blast
  with assms show ?thesis
    using pk.roundtrip [of 0 m b "[]"] by (auto simp: small_def)
qed

lemma payloads_setPayload: "length (payloads (setPayload rt name m)) \<le> 1"
proof -
  have "set (payloads (setPayload rt name m)) \<subseteq> {name}"
    by (auto simp only: in_payloads subset_iff) (auto simp: setPayload_def split: if_splits)
  then have "card (set (payloads (setPayload rt name m))) \<le> 1"
    using card_mono [of "{name}"] by fastforce
  then show ?thesis
    by (simp add: distinct_card [OF distinct_payloads])
qed

lemma Packet_field_payloads:
  assumes "length (payloads m) \<le> 1" and "Packet_field rt d m n w r = Inr (Some (m', r'))"
  shows "length (payloads m') \<le> 1"
proof -
  have "(\<exists>v. m' = m\<lparr>pk_cmd := v\<rparr>) \<or> (\<exists>v. m' = m\<lparr>pk_seq := v\<rparr>) \<or> (\<exists>name m1. m' = setPayload rt name m1)"
    using assms(2) unfolding Packet_field_def
    by (elim ifE) (blast dest: scalar_put subMessage_put)+
  with assms(1) payloads_setPayload show ?thesis by (auto simp: payloads_scalar)
qed

lemma Packet_decode_payloads:
  assumes "Packet_decode rt d None len r = Inr (m, r')"
  shows "length (payloads m) \<le> 1"
proof (rule decodeLoop_invariant [where P = "\<lambda>m. length (payloads m) \<le> 1"])
  show "decodeLoop rt d (\<lambda>u m. m\<lparr>pk_unknowns := pk_unknowns m @ [u]\<rparr>) (Packet_field rt d) (int (length r) - int len) r Packet_new = Inr (m, r')"
    using assms by (simp add: Packet_decode_def decodeMessage_def split: if_splits)
  show "length (payloads Packet_new) \<le> 1"
    by (simp add: payloads_def Packet_new_def)
qed (simp only: payloads_scalar, rule Packet_field_payloads)

end

text \<open>
  C1. A packet survives the wire: with a protobufjs runtime that behaves as documented, \<open>Packet.encode\<close>
  returns bytes for every packet whose strings are well-formed UTF-16, and \<open>Packet.decode\<close> of these
  bytes (below 4 GiB) returns the packet again, its payload included; only fields that hold
  their default are dropped and, of several payloads, all but the last.
\<close>

theorem Packet_roundtrip:
  assumes "wire_runtime rt" and "Packet_ok m"
  shows "\<exists>b. Packet_encode rt 0 m = Inr b \<and>
           (length b < 2 ^ 32 \<longrightarrow> Packet_decode rt 0 None (length b) b = Inr (Packet_norm m, []))"
  using assms by (rule wire_runtime.Packet_survives)

text \<open>
  Whatever bytes arrive, a packet \<open>Packet.decode\<close> returns owns at most one of the fourteen payload
  properties: the \<open>if\<close> chain of \<open>handleMessage\<close> never sees two.
\<close>

theorem Packet_decode_one_payload:
  assumes "wire_runtime rt" and "Packet_decode rt depth None len r = Inr (m, r')"
  shows "length (payloads m) \<le> 1"
  using assms by (rule wire_runtime.Packet_decode_payloads)

end
