(* ===== verification/Pb_Runtime.thy ===== *)
theory Pb_Runtime
  imports Utf8 Proto_Packet
begin

text \<open>
  A runtime that has the properties \<open>wire_runtime\<close> asks of protobufjs: the Protobuf wire format itself,
  written out (base-128 varints, sign-extended \<open>int32\<close>, length-delimited bytes and UTF-8 strings). It
  shows that the contract the codecs rest on can be met, and it is the runtime on which packets are
  evaluated. It stands for the package, not for a file of the repository.
\<close>

section \<open>Varints\<close>

function varint :: "nat \<Rightarrow> bytes" where
  "varint n = (if n < 128 then [of_nat n] else of_nat (128 + n mod 128) # varint (n div 128))"
  by pat_completeness auto
termination
  by (relation "measure id") auto

declare varint.simps [simp del]

fun readVarint :: "bytes \<Rightarrow> (nat \<times> bytes) option" where
  "readVarint [] = None"
| "readVarint (b # r) =
     (if unat b < 128 then Some (unat b, r)
      else case readVarint r of None \<Rightarrow> None | Some (n, r') \<Rightarrow> Some (unat b - 128 + 128 * n, r'))"

lemma readVarint_varint: "readVarint (varint n @ z) = Some (n, z)"
proof (induction n rule: varint.induct)
  case (1 n)
  show ?case
  proof (cases "n < 128")
    case True
    then show ?thesis by (simp add: varint.simps unat_of_nat)
  next
    case False
    moreover have "unat (of_nat (128 + n mod 128) :: byte) = 128 + n mod 128"
      by (simp add: unat_of_nat del: of_nat_add)
    ultimately show ?thesis
      using 1 by (subst varint.simps) (simp del: of_nat_add)
  qed
qed

lemma varint_nonempty: "varint n \<noteq> []"
  by (subst varint.simps) simp

section \<open>The runtime\<close>

definition readBytes :: "bytes \<Rightarrow> (bytes \<times> bytes) option" where
  "readBytes r =
     (case readVarint r of
        None \<Rightarrow> None
      | Some (n, r') \<Rightarrow> if n \<le> length r' then Some (take n r', drop n r') else None)"

definition readString :: "bytes \<Rightarrow> (jsstring \<times> bytes) option" where
  "readString r =
     (case readBytes r of
        None \<Rightarrow> None
      | Some (b, r') \<Rightarrow> Some (concat (map toUtf16 (utf8Decode 0 0 128 191 (map unat b))), r'))"

definition skipField :: "nat \<Rightarrow> nat \<Rightarrow> nat \<Rightarrow> bytes \<Rightarrow> bytes option" where
  "skipField wireType depth field r =
     (if wireType = 0 then map_option snd (readVarint r)
      else if wireType = 1 then (if length r < 8 then None else Some (drop 8 r))
      else if wireType = 2 then map_option snd (readBytes r)
      else if wireType = 5 then (if length r < 4 then None else Some (drop 4 r))
      else None)"

definition pbRuntime :: runtime where
  "pbRuntime =
     \<lparr>wUint32 = varint,
      wInt32 = (\<lambda>i. varint (unat (scast i :: 64 word))),
      wUint64 = (\<lambda>u. varint (unat u)),
      wInt64 = (\<lambda>u. varint (unat u)),
      wBool = (\<lambda>t. [if t then 1 else 0]),
      wString = (\<lambda>s. let b = TextEncoder_encode s in varint (length b) @ b),
      wBytes = (\<lambda>b. varint (length b) @ b),
      rTag = (\<lambda>r. case readVarint r of None \<Rightarrow> None | Some (n, z) \<Rightarrow> if n < 8 then None else Some (n, z)),
      rUint32 = readVarint,
      rInt32 = (\<lambda>r. map_option (\<lambda>(n, z). (ucast (of_nat n :: 64 word), z)) (readVarint r)),
      rUint64 = (\<lambda>r. map_option (\<lambda>(n, z). (of_nat n, z)) (readVarint r)),
      rInt64 = (\<lambda>r. map_option (\<lambda>(n, z). (of_nat n, z)) (readVarint r)),
      rBool = (\<lambda>r. map_option (\<lambda>(n, z). (n \<noteq> 0, z)) (readVarint r)),
      rString = readString,
      rBytes = readBytes,
      rSkip = skipField,
      toLong = (\<lambda>n. word_of_int (case n of JNum i \<Rightarrow> i | JStr i \<Rightarrow> i)),
      oneOfKept = (\<lambda>names v f. f = v),
      discardUnknown = False,
      writeLimit = 100,
      readLimit = 100\<rparr>"

lemma readBytes_written: "readBytes (varint (length b) @ b @ z) = Some (b, z)"
  by (simp add: readBytes_def readVarint_varint)

lemma int32_extended: "ucast (scast i :: 64 word) = (i :: 32 word)"
  by (rule bit_word_eqI) (auto simp: bit_simps)

interpretation pb: wire_runtime pbRuntime
  by unfold_locales
    (auto simp: pbRuntime_def varint_nonempty readVarint_varint readBytes_written readString_def
      TextEncoder_scalars toUtf16_toScalars int32_extended Let_def)

section \<open>A packet on the wire\<close>

definition authPacket :: packet where
  "authPacket = Packet_new\<lparr>pk_cmd := Some (Command CMD_AUTH), pk_seq := Some 1,
     pk_authReq := Some (AuthRequest_new\<lparr>aq_token := Some (js ''t''), aq_deviceId := Some (js ''web'')\<rparr>)\<rparr>"

lemma varint_small: "n < 128 \<Longrightarrow> varint n = [of_nat n]"
  by (subst varint.simps) simp

lemmas pb_simps = pbRuntime_def varint_small Let_def

lemma authPacket_bytes:
  "Packet_encode pbRuntime 0 authPacket = Inr [8, 2, 16, 1, 82, 8, 10, 1, 116, 18, 3, 119, 101, 98]"
  by (simp add: Packet_encode_def encodeMessage_def authPacket_def Packet_new_def AuthRequest_new_def pb_simps
      optional_def nested_def AuthRequest_encode_def delimited_def js_def TextEncoder_encode_def utf8Bytes_def)

lemma authPacket_ok: "Packet_ok authPacket"
  by (simp add: authPacket_def Packet_new_def AuthRequest_new_def Packet_ok_def AuthRequest_ok_def js_def)

lemma authPacket_norm: "Packet_norm authPacket = authPacket"
  by (simp add: Packet_norm_def lastPayload_last Packet_only_def authPacket_def Packet_new_def AuthRequest_new_def
      AuthRequest_norm_def withoutDefault_def js_def)

theorem Packet_roundtrip_witness:
  "\<exists>b. Packet_encode pbRuntime 0 authPacket = Inr b \<and>
       Packet_decode pbRuntime 0 None (length b) b = Inr (authPacket, [])"
  using Packet_roundtrip [OF pb.wire_runtime_axioms authPacket_ok]
  unfolding authPacket_bytes authPacket_norm by simp

theorem Packet_decode_one_payload_witness:
  "Packet_decode pbRuntime 0 None (length [8, 2, 16, 1, 82, 8, 10, 1, 116, 18, 3, 119, 101, 98 :: byte])
     ([8, 2, 16, 1, 82, 8, 10, 1, 116, 18, 3, 119, 101, 98] @ []) = Inr (authPacket, []) \<and>
   length (payloads authPacket) \<le> 1"
proof
  show "Packet_decode pbRuntime 0 None (length [8, 2, 16, 1, 82, 8, 10, 1, 116, 18, 3, 119, 101, 98 :: byte])
     ([8, 2, 16, 1, 82, 8, 10, 1, 116, 18, 3, 119, 101, 98] @ []) = Inr (authPacket, [])"
    by (rule pb.pk.roundtrip [OF authPacket_bytes authPacket_ok, unfolded authPacket_norm]) (simp_all add: small_def)
  then show "length (payloads authPacket) \<le> 1"
    by (rule Packet_decode_one_payload [OF pb.wire_runtime_axioms])
qed

end
