(* ===== verification/Proto_Progress.thy ===== *)
theory Proto_Progress
  imports Pb_Runtime
begin

text \<open>
  The decoders of \<^verbatim>\<open>web/app/lib/proto/im.js\<close> return on every input. Their loops run while
  \<open>reader.pos < end\<close>; the model marks an iteration that does not consume a byte with \<open>Diverges\<close>. With the
  laws of \<open>wire_reader\<close> (the position of a protobufjs reader never moves back, and a tag takes at least
  one byte) this mark is never reached, whatever the bytes and the lengths they claim.
\<close>

locale wire_reader = wire_runtime +
  assumes tag_progress: "rTag rt r = Some (n, z) \<Longrightarrow> length z < length r"
    and int64_progress: "rInt64 rt r = Some (v64, z) \<Longrightarrow> length z < length r"
    and uint32_progress: "rUint32 rt r = Some (n, z) \<Longrightarrow> length z \<le> length r"
    and int32_progress: "rInt32 rt r = Some (v32, z) \<Longrightarrow> length z \<le> length r"
    and uint64_progress: "rUint64 rt r = Some (v64, z) \<Longrightarrow> length z \<le> length r"
    and bool_progress: "rBool rt r = Some (t, z) \<Longrightarrow> length z \<le> length r"
    and string_progress: "rString rt r = Some (s, z) \<Longrightarrow> length z \<le> length r"
    and bytes_progress: "rBytes rt r = Some (b, z) \<Longrightarrow> length z \<le> length r"
    and skip_progress: "rSkip rt w d f r = Some z \<Longrightarrow> length z \<le> length r"

text \<open>A \<open>switch\<close>, or a whole decoder, that returns and does not move back.\<close>

definition fieldOk :: "bytes \<Rightarrow> 'm fieldResult \<Rightarrow> bool" where
  "fieldOk r x \<longleftrightarrow> x \<noteq> Inl Diverges \<and> (\<forall>m z. x = Inr (Some (m, z)) \<longrightarrow> length z \<le> length r)"

definition decodeOk :: "bytes \<Rightarrow> wireError + 'm \<times> bytes \<Rightarrow> bool" where
  "decodeOk r x \<longleftrightarrow> x \<noteq> Inl Diverges \<and> (\<forall>m z. x = Inr (m, z) \<longrightarrow> length z \<le> length r)"

named_theorems progress \<open>decoders that return and do not move back\<close>

lemma fieldOk_break [progress]: "fieldOk r (Inr None)"
  by (simp add: fieldOk_def)

lemma fieldOk_if [progress]: "fieldOk r x \<Longrightarrow> fieldOk r y \<Longrightarrow> fieldOk r (if c then x else y)"
  by simp

lemma scalar_progress:
  "(\<And>v z. rd = Some (v, z) \<Longrightarrow> length z \<le> length r) \<Longrightarrow> fieldOk r (scalar w e rd nd put)"
  by (auto simp: fieldOk_def scalar_def liftRead_def split: option.splits)

context wire_reader
begin

lemma int64_progress_le: "rInt64 rt r = Some (v, z) \<Longrightarrow> length z \<le> length r"
  using int64_progress by (simp add: less_imp_le)

lemma scalars_progress [progress]:
  "fieldOk r (scalar w e (rString rt r) nd1 put1)" "fieldOk r (scalar w e (rBytes rt r) nd2 put2)"
  "fieldOk r (scalar w e (rInt64 rt r) nd3 put3)" "fieldOk r (scalar w e (rUint64 rt r) nd4 put4)"
  "fieldOk r (scalar w e (rInt32 rt r) nd5 put5)" "fieldOk r (scalar w e (rBool rt r) nd6 put6)"
  by (rule scalar_progress,
      erule string_progress bytes_progress int64_progress_le uint64_progress int32_progress bool_progress)+

lemma readPacked_progress: "decodeOk r (readPacked rt limit r acc)"
proof (induction "length r" arbitrary: r acc rule: less_induct)
  case less
  show ?case
  proof (cases "limit < int (length r) \<and> rInt64 rt r \<noteq> None")
    case False
    then show ?thesis by (subst readPacked.simps) (auto simp: decodeOk_def split: option.split)
  next
    case True
    then obtain v z where z: "rInt64 rt r = Some (v, z)" by auto
    then have "length z < length r" by (rule int64_progress)
    with True z less [of z "acc @ [v]"] show ?thesis
      by (subst readPacked.simps) (auto simp: decodeOk_def)
  qed
qed

lemma repeated_progress [progress]: "fieldOk r (repeatedInt64 rt w r cur put)"
proof -
  have "decodeOk z (readPacked rt (int (length z) - int n) z acc)" for z n acc
    by (rule readPacked_progress)
  then show ?thesis
    unfolding repeatedInt64_def Let_def
    by (auto simp: fieldOk_def decodeOk_def liftRead_def dest: int64_progress uint32_progress split: option.splits sum.splits prod.splits)
      (meson le_trans uint32_progress)+
qed

lemma subMessage_progress [progress]:
  assumes "\<And>len z. decodeOk z (dec len z)"
  shows "fieldOk r (subMessage rt w r dec put)"
  using assms uint32_progress
  by (auto simp: fieldOk_def decodeOk_def subMessage_def liftRead_def split: option.splits sum.splits prod.splits)
    (meson le_trans uint32_progress)+

lemma decodeLoop_progress:
  assumes field: "\<And>m n w z. fieldOk z (f m n w z)"
  shows "decodeOk r (decodeLoop rt d a f limit r m)"
proof (induction "length r" arbitrary: r m rule: less_induct)
  case less
  show ?case
  proof (cases "limit < int (length r) \<and> rTag rt r \<noteq> None")
    case False
    then show ?thesis by (subst decodeLoop.simps) (auto simp: decodeOk_def split: option.split)
  next
    case True
    then obtain tag z where z: "rTag rt r = Some (tag, z)" by auto
    then have shorter: "length z < length r" by (rule tag_progress)
    have next_ok: "decodeOk r (decodeLoop rt d a f limit y m')" if "length y \<le> length z" for y m'
      using less [of y m'] that shorter by (force simp: decodeOk_def)
    have step: "decodeLoop rt d a f limit r m =
        (case f m (tag div 8) (tag mod 8) z of
           Inl e \<Rightarrow> Inl e
         | Inr (Some (m', y)) \<Rightarrow> if length y < length r then decodeLoop rt d a f limit y m' else Inl Diverges
         | Inr None \<Rightarrow>
             (case rSkip rt (tag mod 8) d (tag div 8) z of
                None \<Rightarrow> Inl ReaderError
              | Some y \<Rightarrow>
                  if length y < length r then
                    decodeLoop rt d a f limit y (if discardUnknown rt then m else a (take (length r - length y) r) m)
                  else Inl Diverges))"
      using True z by (subst decodeLoop.simps) simp
    show ?thesis
    proof (cases "f m (tag div 8) (tag mod 8) z")
      case (Inl e)
      with field [of z m "tag div 8" "tag mod 8"] show ?thesis by (auto simp: step fieldOk_def decodeOk_def)
    next
      case (Inr x)
      show ?thesis
      proof (cases x)
        case None
        with Inr show ?thesis
          using skip_progress [of "tag mod 8" d "tag div 8" z] shorter next_ok
          by (cases "rSkip rt (tag mod 8) d (tag div 8) z") (simp_all add: step decodeOk_def le_less_trans)
      next
        case (Some p)
        with Inr field [of z m "tag div 8" "tag mod 8"] have "length (snd p) \<le> length z"
          by (cases p) (simp add: fieldOk_def)
        with Inr Some shorter next_ok show ?thesis by (cases p) (simp add: step)
      qed
    qed
  qed
qed

lemma decodeMessage_progress:
  assumes "\<And>m n w z. fieldOk z (f m n w z)"
  shows "decodeOk r (decodeMessage rt d a f m len r)"
  using decodeLoop_progress [OF assms] by (simp add: decodeMessage_def decodeOk_def)

lemma AuthRequest_progress [progress]: "decodeOk r (AuthRequest_decode rt d t len r)"
  unfolding AuthRequest_decode_def AuthRequest_field_def by (intro decodeMessage_progress progress)

lemma AuthResponse_progress [progress]: "decodeOk r (AuthResponse_decode rt d t len r)"
  unfolding AuthResponse_decode_def AuthResponse_field_def by (intro decodeMessage_progress progress)

lemma SendMessageRequest_progress [progress]: "decodeOk r (SendMessageRequest_decode rt d t len r)"
  unfolding SendMessageRequest_decode_def SendMessageRequest_field_def by (intro decodeMessage_progress progress)

lemma SendMessageReply_progress [progress]: "decodeOk r (SendMessageReply_decode rt d t len r)"
  unfolding SendMessageReply_decode_def SendMessageReply_field_def by (intro decodeMessage_progress progress)

lemma MessagePush_progress [progress]: "decodeOk r (MessagePush_decode rt d t len r)"
  unfolding MessagePush_decode_def MessagePush_field_def by (intro decodeMessage_progress progress)

lemma PullRequest_progress [progress]: "decodeOk r (PullRequest_decode rt d t len r)"
  unfolding PullRequest_decode_def PullRequest_field_def by (intro decodeMessage_progress progress)

lemma PullMessage_progress [progress]: "decodeOk r (PullMessage_decode rt d t len r)"
  unfolding PullMessage_decode_def PullMessage_field_def by (intro decodeMessage_progress progress)

lemma AckRequest_progress [progress]: "decodeOk r (AckRequest_decode rt d t len r)"
  unfolding AckRequest_decode_def AckRequest_field_def by (intro decodeMessage_progress progress)

lemma ErrorResponse_progress [progress]: "decodeOk r (ErrorResponse_decode rt d t len r)"
  unfolding ErrorResponse_decode_def ErrorResponse_field_def by (intro decodeMessage_progress progress)

lemma ReadReceipt_progress [progress]: "decodeOk r (ReadReceipt_decode rt d t len r)"
  unfolding ReadReceipt_decode_def ReadReceipt_field_def by (intro decodeMessage_progress progress)

lemma DeliveryReceipt_progress [progress]: "decodeOk r (DeliveryReceipt_decode rt d t len r)"
  unfolding DeliveryReceipt_decode_def DeliveryReceipt_field_def by (intro decodeMessage_progress progress)

lemma SendReceipt_progress [progress]: "decodeOk r (SendReceipt_decode rt d t len r)"
  unfolding SendReceipt_decode_def SendReceipt_field_def by (intro decodeMessage_progress progress)

lemma RecallRequest_progress [progress]: "decodeOk r (RecallRequest_decode rt d t len r)"
  unfolding RecallRequest_decode_def RecallRequest_field_def by (intro decodeMessage_progress progress)

lemma RecallNotice_progress [progress]: "decodeOk r (RecallNotice_decode rt d t len r)"
  unfolding RecallNotice_decode_def RecallNotice_field_def by (intro decodeMessage_progress progress)

lemma PullReply_progress [progress]: "decodeOk r (PullReply_decode rt d t len r)"
  unfolding PullReply_decode_def PullReply_field_def by (intro decodeMessage_progress progress)

lemma Packet_progress [progress]: "decodeOk r (Packet_decode rt d t len r)"
  unfolding Packet_decode_def Packet_field_def by (intro decodeMessage_progress progress)

end

lemma readVarint_progress: "readVarint r = Some (n, z) \<Longrightarrow> length z < length r"
  by (induction r arbitrary: n z) (auto split: if_splits option.splits)

lemma readBytes_progress: "readBytes r = Some (b, z) \<Longrightarrow> length z \<le> length r"
  by (auto simp: readBytes_def dest!: readVarint_progress split: option.splits if_splits)

lemma skipField_progress: "skipField w d f r = Some z \<Longrightarrow> length z \<le> length r"
  by (auto simp: skipField_def dest!: readVarint_progress readBytes_progress split: if_splits)

interpretation pbr: wire_reader pbRuntime
  by unfold_locales
    (auto simp: pbRuntime_def readString_def dest!: readVarint_progress readBytes_progress skipField_progress split: option.splits if_splits)

text \<open>
  C13. \<open>Packet.decode\<close> terminates: on every input, well formed or not, whatever lengths and nested messages
  it claims to contain, decoding ends with a packet or with an exception, and never reads before its
  start.
\<close>

theorem Packet_decode_terminates:
  assumes "wire_reader rt"
  shows "Packet_decode rt depth target len r \<noteq> Inl Diverges \<and>
         (\<forall>m z. Packet_decode rt depth target len r = Inr (m, z) \<longrightarrow> length z \<le> length r)"
  using wire_reader.Packet_progress [OF assms] by (simp add: decodeOk_def)

theorem Packet_decode_terminates_witness:
  "wire_reader pbRuntime \<and> Packet_decode pbRuntime 0 None 4 [82, 255, 0, 7] \<noteq> Inl Diverges"
  using Packet_decode_terminates [OF pbr.wire_reader_axioms] by (simp add: pbr.wire_reader_axioms)

end
