(* ===== verification/Realtime_Client.thy ===== *)
theory Realtime_Client
  imports Utf8 Proto_Packet
begin

text \<open>
  The realtime client (\<^verbatim>\<open>web/app/lib/realtime.ts\<close>): the class \<open>RealtimeClient\<close>, its fields as the first
  part of the record \<open>client\<close>, one definition per method and per listener.

  The rest of the record is what the browser keeps for the class: the sockets it opened (with their
  ready state and whether the listeners of \<open>doConnect\<close> are still attached), the active timers, the
  \<open>doConnect\<close> calls that await the gateway, the token refreshes in flight, the \<open>sendAuth\<close> promises not
  yet settled with the reactions queued for them, the device id in the session storage, the number of
  random values drawn, and the log of what the client did. Sockets, timers and calls are named by
  numbers. A \<open>sendAuth\<close> promise has the number of its socket, since \<open>onOpen\<close>
  runs once per socket.

  A method runs to completion; the reactions to settled promises run right after it (\<open>flush\<close>), before
  the next event. \<open>Packet.encode\<close> of the packets built here never throws (\<open>Packet_total\<close>), so \<open>send\<close>
  logs the packet itself.

  Parameters (\<open>rtEnv\<close>): the protobufjs runtime, whether the session storage can be read and written, the
  values of \<open>crypto.randomUUID\<close> (if the browser has it) and of the clock with \<open>Math.random\<close>, the numeric
  \<open>user_id\<close> claim of a token payload (base64 and JSON), and the API base URL of the build, if set.
\<close>

section \<open>Data\<close>

datatype readyState = CONNECTING | OPEN | CLOSING | CLOSED

record socket =
  so_url :: jsstring
  so_call :: nat
  so_state :: readyState
  so_listening :: bool

datatype timerKind = ReconnectT | HeartbeatT | HeartbeatTimeoutT | AuthT nat nat

record realtimeMessage =
  rm_msgId :: int
  rm_topic :: jsstring
  rm_senderId :: int
  rm_msgType :: int
  rm_content :: jsstring
  rm_timestamp :: int
  rm_topicSeq :: int
  rm_clientMsgId :: jsstring
  rm_mentionedUserIds :: "int list"

record sendReceiptPayload =
  srp_clientMsgId :: jsstring
  srp_msgId :: int
  srp_topic :: jsstring
  srp_topicSeq :: int
  srp_timestamp :: int

record deliveryReceiptPayload =
  drp_topic :: jsstring
  drp_topicSeq :: int
  drp_msgId :: int

record readReceiptPayload =
  rrp_topic :: jsstring
  rrp_upToSeq :: int
  rrp_readerId :: int

record recallPayload =
  rcp_topic :: jsstring
  rcp_topicSeq :: int
  rcp_msgId :: int
  rcp_senderId :: int
  rcp_recalledAt :: int

datatype realtimeEvent =
    EvConnected
  | EvAuthed
  | EvDisconnected
  | EvReconnecting
  | EvMessage realtimeMessage
  | EvSendReceipt sendReceiptPayload
  | EvDeliveryReceipt deliveryReceiptPayload
  | EvReadReceipt readReceiptPayload
  | EvRecall recallPayload
  | EvError wireError

datatype action =
    Dispatch realtimeEvent
  | SendFrame nat packet
  | OpenSocket nat jsstring
  | SetTimer nat timerKind nat
  | ForceReLogin
  | Resolve nat
  | Reject nat jsstring

record pendingEntry =
  pe_auth :: nat
  pe_timer :: nat

record client =
  rc_ws :: "nat option"
  rc_token :: "jsstring option"
  rc_userId :: "int option"
  rc_seq :: nat
  rc_pending :: "(nat, pendingEntry) jsmap"
  rc_heartbeatTimer :: "nat option"
  rc_heartbeatTimeoutTimer :: "nat option"
  rc_reconnectTimer :: "nat option"
  rc_reconnectAttempt :: nat
  rc_closed :: bool
  rc_didTokenRefresh :: bool
  rc_authResolver :: "nat option"
  rc_authRejecter :: "nat option"
  rc_sockets :: "nat \<Rightarrow> socket option"
  rc_nextSocket :: nat
  rc_timers :: "nat \<Rightarrow> timerKind option"
  rc_nextTimer :: nat
  rc_calls :: "nat list"
  rc_nextCall :: nat
  rc_refreshing :: "nat list"
  rc_waiting :: "nat list"
  rc_reactions :: "(nat \<times> jsstring option) list"
  rc_deviceId :: "jsstring option"
  rc_draws :: nat
  rc_log :: "action list"

record rtEnv =
  en_rt :: runtime
  en_getItem :: bool
  en_setItem :: bool
  en_uuid :: "(nat \<Rightarrow> jsstring) option"
  en_random :: "nat \<Rightarrow> jsstring"
  en_claims :: "jsstring \<Rightarrow> int option"
  en_base :: "jsstring option"

definition newClient :: client where
  "newClient =
     \<lparr>rc_ws = None, rc_token = None, rc_userId = None, rc_seq = 0, rc_pending = [],
      rc_heartbeatTimer = None, rc_heartbeatTimeoutTimer = None, rc_reconnectTimer = None,
      rc_reconnectAttempt = 0, rc_closed = False, rc_didTokenRefresh = False,
      rc_authResolver = None, rc_authRejecter = None,
      rc_sockets = (\<lambda>_. None), rc_nextSocket = 0, rc_timers = (\<lambda>_. None), rc_nextTimer = 0,
      rc_calls = [], rc_nextCall = 0, rc_refreshing = [], rc_waiting = [], rc_reactions = [],
      rc_deviceId = None, rc_draws = 0, rc_log = []\<rparr>"

definition HEARTBEAT_INTERVAL_MS :: nat where "HEARTBEAT_INTERVAL_MS = 30000"
definition HEARTBEAT_TIMEOUT_MS :: nat where "HEARTBEAT_TIMEOUT_MS = 10000"
definition MAX_RECONNECT_DELAY_MS :: nat where "MAX_RECONNECT_DELAY_MS = 30000"

section \<open>The browser\<close>

definition logAction :: "action \<Rightarrow> client \<Rightarrow> client" where
  "logAction a s = s\<lparr>rc_log := rc_log s @ [a]\<rparr>"

definition dispatch :: "realtimeEvent \<Rightarrow> client \<Rightarrow> client" where
  "dispatch e s = logAction (Dispatch e) s"

text \<open>\<open>setTimeout\<close> and \<open>setInterval\<close>; the new timer has the number \<open>rc_nextTimer\<close>.\<close>

definition setTimer :: "timerKind \<Rightarrow> nat \<Rightarrow> client \<Rightarrow> client" where
  "setTimer kind delay s =
     logAction (SetTimer (rc_nextTimer s) kind delay)
       (s\<lparr>rc_timers := (rc_timers s)(rc_nextTimer s \<mapsto> kind), rc_nextTimer := rc_nextTimer s + 1\<rparr>)"

text \<open>\<open>clearTimeout\<close> and \<open>clearInterval\<close>, under the guard \<open>if (this.timer)\<close>.\<close>

definition unset :: "nat option \<Rightarrow> (nat \<Rightarrow> 'a option) \<Rightarrow> nat \<Rightarrow> 'a option" where
  "unset t f = (case t of None \<Rightarrow> f | Some i \<Rightarrow> f(i := None))"

definition clearTimer :: "nat option \<Rightarrow> client \<Rightarrow> client" where
  "clearTimer t s = s\<lparr>rc_timers := unset t (rc_timers s)\<rparr>"

definition updSocket :: "nat \<Rightarrow> (socket \<Rightarrow> socket) \<Rightarrow> client \<Rightarrow> client" where
  "updSocket w f s = s\<lparr>rc_sockets := (rc_sockets s)(w := map_option f (rc_sockets s w))\<rparr>"

text \<open>\<open>ws.close()\<close>.\<close>

definition closeSocket :: "nat \<Rightarrow> client \<Rightarrow> client" where
  "closeSocket w = updSocket w (\<lambda>k. if so_state k = CLOSED then k else k\<lparr>so_state := CLOSING\<rparr>)"

definition listening :: "nat \<Rightarrow> client \<Rightarrow> bool" where
  "listening w s \<longleftrightarrow> (case rc_sockets s w of None \<Rightarrow> False | Some k \<Rightarrow> so_listening k)"

definition stateOf :: "nat \<Rightarrow> client \<Rightarrow> readyState option" where
  "stateOf w s = map_option so_state (rc_sockets s w)"

text \<open>Settling a \<open>sendAuth\<close> promise: only the first time counts; its reaction is queued.\<close>

definition settle :: "nat \<Rightarrow> jsstring option \<Rightarrow> client \<Rightarrow> client" where
  "settle k outcome s =
     (if k \<in> set (rc_waiting s)
      then s\<lparr>rc_waiting := removeAll k (rc_waiting s), rc_reactions := rc_reactions s @ [(k, outcome)]\<rparr>
      else s)"

section \<open>Helpers of the class\<close>

definition isConnected :: "client \<Rightarrow> bool" where
  "isConnected s \<longleftrightarrow> (case rc_ws s of None \<Rightarrow> False | Some w \<Rightarrow> stateOf w s = Some OPEN)"

text \<open>\<open>++this.seq\<close>; the new value is \<open>rc_seq\<close> of the result.\<close>

definition nextSeq :: "client \<Rightarrow> client" where
  "nextSeq s = s\<lparr>rc_seq := rc_seq s + 1\<rparr>"

definition send :: "packet \<Rightarrow> client \<Rightarrow> client" where
  "send p s = (case rc_ws s of Some w \<Rightarrow> if isConnected s then logAction (SendFrame w p) s else s | None \<Rightarrow> s)"

text \<open>\<open>this.send(Packet.create({cmd, seq: this.nextSeq(), ...}))\<close>.\<close>

definition sendNext :: "command \<Rightarrow> (packet \<Rightarrow> packet) \<Rightarrow> client \<Rightarrow> client" where
  "sendNext cmd fill s =
     (let s1 = nextSeq s in
      send (fill (Packet_new\<lparr>pk_cmd := Some (Command cmd), pk_seq := Some (of_nat (rc_seq s1))\<rparr>)) s1)"

definition lowerAscii :: "jschar \<Rightarrow> jschar" where
  "lowerAscii c = (if 65 \<le> c \<and> c \<le> 90 then c + 32 else c)"

fun strIncludes :: "jsstring \<Rightarrow> jsstring \<Rightarrow> bool" where
  "strIncludes [] p = (p = [])"
| "strIncludes (c # s) p = (startsWith (c # s) p \<or> strIncludes s p)"

text \<open>\<open>/invalid token|auth failed|unauthorized|401/i.test(msg)\<close>.\<close>

definition isTokenError :: "jsstring \<Rightarrow> bool" where
  "isTokenError msg \<longleftrightarrow>
     list_ex (strIncludes (map lowerAscii msg))
       [js ''invalid token'', js ''auth failed'', js ''unauthorized'', js ''401'']"

text \<open>\<open>token.split(".")[1]\<close>.\<close>

definition tokenPayload :: "jsstring \<Rightarrow> jsstring option" where
  "tokenPayload token =
     (case dropWhile (\<lambda>c. c \<noteq> 46) token of
        [] \<Rightarrow> None
      | _ # rest \<Rightarrow> Some (takeWhile (\<lambda>c. c \<noteq> 46) rest))"

definition extractUserId :: "rtEnv \<Rightarrow> jsstring \<Rightarrow> int" where
  "extractUserId E token =
     (case tokenPayload token of
        None \<Rightarrow> 0
      | Some payload \<Rightarrow> (case en_claims E payload of None \<Rightarrow> 0 | Some n \<Rightarrow> n))"

definition inferGatewayUrl :: "rtEnv \<Rightarrow> jsstring" where
  "inferGatewayUrl E =
     (let base = (if strTruthy (en_base E) then the (en_base E) else js ''http://127.0.0.1:8000'')
      in (if startsWith base (js ''http'') then js ''ws'' @ drop 4 base else base) @ js ''/ws'')"

text \<open>\<open>getDeviceId\<close>: the id in the session storage, or a new one that is put there.\<close>

definition getDeviceId :: "rtEnv \<Rightarrow> client \<Rightarrow> jsstring \<times> client" where
  "getDeviceId E s =
     (let n = rc_draws s;
          fallback = js ''web-'' @ en_random E n
      in if \<not> en_getItem E then (fallback, s\<lparr>rc_draws := n + 1\<rparr>)
         else if strTruthy (rc_deviceId s) then (the (rc_deviceId s), s)
         else if \<not> en_setItem E then (fallback, s\<lparr>rc_draws := n + 1\<rparr>)
         else let suffix = (case en_uuid E of Some uuid \<Rightarrow> uuid n | None \<Rightarrow> en_random E n);
                  device = js ''web-'' @ suffix
              in (device, s\<lparr>rc_deviceId := Some device, rc_draws := n + 1\<rparr>))"

section \<open>Timers and pending requests\<close>

definition stopHeartbeat :: "client \<Rightarrow> client" where
  "stopHeartbeat s =
     (let s1 = (clearTimer (rc_heartbeatTimer s) s)\<lparr>rc_heartbeatTimer := None\<rparr> in
      (clearTimer (rc_heartbeatTimeoutTimer s1) s1)\<lparr>rc_heartbeatTimeoutTimer := None\<rparr>)"

definition startHeartbeat :: "client \<Rightarrow> client" where
  "startHeartbeat s =
     (let s1 = stopHeartbeat s in
      (setTimer HeartbeatT HEARTBEAT_INTERVAL_MS s1)\<lparr>rc_heartbeatTimer := Some (rc_nextTimer s1)\<rparr>)"

definition handleHeartbeatAck :: "client \<Rightarrow> client" where
  "handleHeartbeatAck s = (clearTimer (rc_heartbeatTimeoutTimer s) s)\<lparr>rc_heartbeatTimeoutTimer := None\<rparr>"

definition clearTimers :: "client \<Rightarrow> client" where
  "clearTimers s =
     (let s1 = stopHeartbeat s in (clearTimer (rc_reconnectTimer s1) s1)\<lparr>rc_reconnectTimer := None\<rparr>)"

definition rejectPending :: "jsstring \<Rightarrow> client \<Rightarrow> client" where
  "rejectPending err s =
     (let s1 = fold (\<lambda>(q, p) s. settle (pe_auth p) (Some err) (clearTimer (Some (pe_timer p)) s)) (rc_pending s) s;
          s2 = s1\<lparr>rc_pending := []\<rparr>
      in case rc_authRejecter s2 of
           None \<Rightarrow> s2
         | Some k \<Rightarrow> (settle k (Some err) s2)\<lparr>rc_authResolver := None, rc_authRejecter := None\<rparr>)"

text \<open>\<open>Math.min(1000 * 2 ** this.reconnectAttempt, MAX_RECONNECT_DELAY_MS)\<close>.\<close>

definition reconnectDelay :: "nat \<Rightarrow> nat" where
  "reconnectDelay attempt = min (1000 * 2 ^ attempt) MAX_RECONNECT_DELAY_MS"

definition scheduleReconnect :: "client \<Rightarrow> client" where
  "scheduleReconnect s =
     (if rc_closed s \<or> rc_reconnectTimer s \<noteq> None then s
      else let s1 = dispatch EvReconnecting s;
               delay = reconnectDelay (rc_reconnectAttempt s1);
               s2 = s1\<lparr>rc_reconnectAttempt := rc_reconnectAttempt s1 + 1\<rparr>
           in (setTimer ReconnectT delay s2)\<lparr>rc_reconnectTimer := Some (rc_nextTimer s2)\<rparr>)"

definition handleDisconnect :: "client \<Rightarrow> client" where
  "handleDisconnect s =
     (let s1 = rejectPending (js ''disconnected'') (stopHeartbeat s);
          s2 = dispatch EvDisconnected (s1\<lparr>rc_ws := None\<rparr>)
      in if rc_closed s2 then s2 else scheduleReconnect s2)"

section \<open>Connecting\<close>

text \<open>The synchronous part of \<open>doConnect\<close>: up to the \<open>await\<close> of the gateway call.\<close>

definition doConnect :: "rtEnv \<Rightarrow> nat \<Rightarrow> client \<Rightarrow> client" where
  "doConnect E c s =
     (if rc_closed s then logAction (Resolve c) s
      else s\<lparr>rc_userId := Some (case rc_token s of None \<Rightarrow> 0 | Some t \<Rightarrow> extractUserId E t),
             rc_calls := rc_calls s @ [c]\<rparr>)"

definition newCall :: "rtEnv \<Rightarrow> client \<Rightarrow> client" where
  "newCall E s = doConnect E (rc_nextCall s) (s\<lparr>rc_nextCall := rc_nextCall s + 1\<rparr>)"

definition connect :: "rtEnv \<Rightarrow> jsstring \<Rightarrow> client \<Rightarrow> client" where
  "connect E token s =
     (if isConnected s then logAction (Resolve (rc_nextCall s)) (s\<lparr>rc_nextCall := rc_nextCall s + 1\<rparr>)
      else newCall E (s\<lparr>rc_token := Some token, rc_closed := False, rc_didTokenRefresh := False\<rparr>))"

definition disconnect :: "client \<Rightarrow> client" where
  "disconnect s =
     (let s1 = rejectPending (js ''disconnected'') (clearTimers (s\<lparr>rc_closed := True\<rparr>));
          s2 = (case rc_ws s1 of None \<Rightarrow> s1 | Some w \<Rightarrow> (closeSocket w s1)\<lparr>rc_ws := None\<rparr>)
      in (clearTimer (rc_reconnectTimer s2) s2)\<lparr>rc_reconnectTimer := None\<rparr>)"

text \<open>The gateway call \<open>c\<close> returned: the executor of the promise opens the socket.\<close>

definition gatewayReply :: "rtEnv \<Rightarrow> nat \<Rightarrow> jsstring \<Rightarrow> client \<Rightarrow> client" where
  "gatewayReply E c gatewayUrl s =
     (let url = (if gatewayUrl \<noteq> [] then gatewayUrl else inferGatewayUrl E);
          w = rc_nextSocket s
      in logAction (OpenSocket w url)
           (s\<lparr>rc_calls := removeAll c (rc_calls s),
              rc_sockets := (rc_sockets s)(w \<mapsto>
                \<lparr>so_url = url, so_call = c, so_state = CONNECTING, so_listening = True\<rparr>),
              rc_nextSocket := w + 1,
              rc_ws := Some w\<rparr>))"

text \<open>It failed: the \<open>catch\<close> of \<open>doConnect\<close>.\<close>

definition gatewayError :: "nat \<Rightarrow> jsstring \<Rightarrow> client \<Rightarrow> client" where
  "gatewayError c err s =
     (let s1 = s\<lparr>rc_calls := removeAll c (rc_calls s)\<rparr> in
      logAction (Reject c err) (if rc_closed s1 then s1 else scheduleReconnect s1))"

text \<open>
  \<open>new WebSocket(url)\<close> threw inside the executor: the promise is rejected; the promise is returned, not
  awaited, so the \<open>catch\<close> does not run.
\<close>

definition gatewayBadUrl :: "nat \<Rightarrow> jsstring \<Rightarrow> client \<Rightarrow> client" where
  "gatewayBadUrl c err s = logAction (Reject c err) (s\<lparr>rc_calls := removeAll c (rc_calls s)\<rparr>)"

definition callOf :: "nat \<Rightarrow> client \<Rightarrow> nat" where
  "callOf w s = (case rc_sockets s w of None \<Rightarrow> 0 | Some k \<Rightarrow> so_call k)"

definition cleanup :: "nat \<Rightarrow> client \<Rightarrow> client" where
  "cleanup w = updSocket w (\<lambda>k. k\<lparr>so_listening := False\<rparr>)"

definition sendAuth :: "rtEnv \<Rightarrow> nat \<Rightarrow> client \<Rightarrow> client" where
  "sendAuth E w s =
     (let s1 = nextSeq (s\<lparr>rc_authResolver := Some w, rc_authRejecter := Some w, rc_waiting := rc_waiting s @ [w]\<rparr>);
          q = rc_seq s1;
          s2 = setTimer (AuthT q w) 10000 s1;
          s3 = s2\<lparr>rc_pending := AList.update q \<lparr>pe_auth = w, pe_timer = rc_nextTimer s1\<rparr> (rc_pending s2)\<rparr>
      in case getDeviceId E s3 of (device, s4) \<Rightarrow>
           send (Packet_new\<lparr>pk_cmd := Some (Command CMD_AUTH), pk_seq := Some (of_nat q),
                   pk_authReq := Some (AuthRequest_new\<lparr>aq_token := rc_token s4, aq_deviceId := Some device\<rparr>)\<rparr>)
             s4)"

definition onOpen :: "rtEnv \<Rightarrow> nat \<Rightarrow> client \<Rightarrow> client" where
  "onOpen E w s = sendAuth E w (dispatch EvConnected s)"

definition onClose :: "nat \<Rightarrow> client \<Rightarrow> client" where
  "onClose w s = handleDisconnect (cleanup w s)"

definition onError :: "nat \<Rightarrow> client \<Rightarrow> client" where
  "onError w s = logAction (Reject (callOf w s) (js ''websocket error'')) (cleanup w s)"

text \<open>The reactions of \<open>onOpen\<close> to its \<open>sendAuth\<close> promise: \<open>.then\<close> and \<open>.catch\<close>.\<close>

definition react :: "nat \<times> jsstring option \<Rightarrow> client \<Rightarrow> client" where
  "react r s =
     (case r of
        (w, None) \<Rightarrow>
          logAction (Resolve (callOf w s)) (dispatch EvAuthed (startHeartbeat (s\<lparr>rc_reconnectAttempt := 0\<rparr>)))
      | (w, Some err) \<Rightarrow>
          if \<not> rc_didTokenRefresh s \<and> isTokenError err then
            (closeSocket w (cleanup w (s\<lparr>rc_didTokenRefresh := True\<rparr>)))\<lparr>rc_ws := None,
               rc_refreshing := rc_refreshing s @ [callOf w s]\<rparr>
          else logAction (Reject (callOf w s) err) s)"

definition flush :: "client \<Rightarrow> client" where
  "flush s = fold react (rc_reactions s) (s\<lparr>rc_reactions := []\<rparr>)"

text \<open>The token refresh of call \<open>c\<close> succeeded, or failed.\<close>

definition refreshOk :: "rtEnv \<Rightarrow> nat \<Rightarrow> jsstring \<Rightarrow> client \<Rightarrow> client" where
  "refreshOk E c newToken s =
     doConnect E c (s\<lparr>rc_refreshing := removeAll c (rc_refreshing s), rc_token := Some newToken\<rparr>)"

definition refreshError :: "nat \<Rightarrow> jsstring \<Rightarrow> client \<Rightarrow> client" where
  "refreshError c err s =
     logAction (Reject c err) (logAction ForceReLogin
       (s\<lparr>rc_refreshing := removeAll c (rc_refreshing s), rc_closed := True\<rparr>))"

section \<open>Sending\<close>

text \<open>\<open>sendMessage\<close> returns whether the frame was handed to the socket (\<open>ok\<close>).\<close>

definition sendMessage_rt ::
  "jsstring \<Rightarrow> int \<Rightarrow> bytes \<Rightarrow> jsstring \<Rightarrow> 64 word list option \<Rightarrow> client \<Rightarrow> bool \<times> client" where
  "sendMessage_rt topic msgType data clientMsgId mentionedUserIds s =
     (isConnected s,
      sendNext CMD_PUBLISH
        (\<lambda>p. p\<lparr>pk_sendReq := Some (SendMessageRequest_new\<lparr>sq_topic := Some topic, sq_msgType := Some (word_of_int msgType),
                 sq_content := Some data, sq_clientMsgId := Some clientMsgId,
                 sq_mentionedUserIds := mentionedUserIds\<rparr>)\<rparr>) s)"

definition sendText ::
  "jsstring \<Rightarrow> jsstring \<Rightarrow> jsstring \<Rightarrow> 64 word list option \<Rightarrow> client \<Rightarrow> bool \<times> client" where
  "sendText topic text clientMsgId mentionedUserIds s =
     sendMessage_rt topic 1 (TextEncoder_encode text) clientMsgId mentionedUserIds s"

definition pullMessages_rt :: "rtEnv \<Rightarrow> jsstring \<Rightarrow> jsnum \<Rightarrow> int \<Rightarrow> client \<Rightarrow> client" where
  "pullMessages_rt E topic lastSeq limit =
     sendNext CMD_PULL
       (\<lambda>p. p\<lparr>pk_pullReq := Some (PullRequest_new\<lparr>pq_topic := Some topic, pq_lastSeq := Some (toLong (en_rt E) lastSeq),
                pq_limit := Some (word_of_int limit)\<rparr>)\<rparr>)"

definition sendReadReceipt :: "rtEnv \<Rightarrow> jsstring \<Rightarrow> jsnum \<Rightarrow> client \<Rightarrow> client" where
  "sendReadReceipt E topic upToSeq s =
     sendNext CMD_READ_RECEIPT
       (\<lambda>p. p\<lparr>pk_readReceipt := Some (ReadReceipt_new\<lparr>rd_topic := Some topic, rd_upToSeq := Some (toLong (en_rt E) upToSeq),
                rd_readerId := Some (toLong (en_rt E) (JNum (case rc_userId s of None \<Rightarrow> 0 | Some u \<Rightarrow> u)))\<rparr>)\<rparr>) s"

definition recallMessage_rt :: "rtEnv \<Rightarrow> jsstring \<Rightarrow> jsnum \<Rightarrow> jsnum \<Rightarrow> client \<Rightarrow> client" where
  "recallMessage_rt E topic topicSeq msgId =
     sendNext CMD_RECALL
       (\<lambda>p. p\<lparr>pk_recallReq := Some (RecallRequest_new\<lparr>rq_topic := Some topic,
                rq_topicSeq := Some (toLong (en_rt E) topicSeq), rq_msgId := Some (toLong (en_rt E) msgId)\<rparr>)\<rparr>)"

definition sendAck :: "rtEnv \<Rightarrow> int \<Rightarrow> jsstring \<Rightarrow> int \<Rightarrow> client \<Rightarrow> client" where
  "sendAck E msgId topic topicSeq =
     sendNext CMD_ACK
       (\<lambda>p. p\<lparr>pk_ackReq := Some (AckRequest_new\<lparr>ak_msgId := Some (toLong (en_rt E) (JNum msgId)),
                ak_topic := Some topic, ak_topicSeq := Some (toLong (en_rt E) (JNum topicSeq))\<rparr>)\<rparr>)"

section \<open>Receiving\<close>

text \<open>\<open>Number(long)\<close>, with the field's default for an absent property.\<close>

definition numInt64 :: "64 word option \<Rightarrow> int" where
  "numInt64 v = (case v of None \<Rightarrow> 0 | Some w \<Rightarrow> roundDouble (sint w))"

definition numUint64 :: "64 word option \<Rightarrow> int" where
  "numUint64 v = (case v of None \<Rightarrow> 0 | Some w \<Rightarrow> roundDouble (uint w))"

definition numInt32 :: "32 word option \<Rightarrow> int" where
  "numInt32 v = (case v of None \<Rightarrow> 0 | Some w \<Rightarrow> sint w)"

definition strField :: "jsstring option \<Rightarrow> jsstring" where
  "strField v = (case v of None \<Rightarrow> [] | Some x \<Rightarrow> x)"

definition cmdIs :: "packet \<Rightarrow> command \<Rightarrow> bool" where
  "cmdIs p c \<longleftrightarrow> numInt32 (pk_cmd p) = sint (Command c)"

definition messageOf :: "messagePush \<Rightarrow> realtimeMessage" where
  "messageOf n =
     \<lparr>rm_msgId = numInt64 (pu_msgId n), rm_topic = strField (pu_topic n), rm_senderId = numInt64 (pu_senderId n),
      rm_msgType = numInt32 (pu_msgType n),
      rm_content = TextDecoder_decode (case pu_content n of None \<Rightarrow> [] | Some b \<Rightarrow> b),
      rm_timestamp = numInt64 (pu_timestamp n), rm_topicSeq = numUint64 (pu_topicSeq n),
      rm_clientMsgId = strField (pu_clientMsgId n),
      rm_mentionedUserIds =
        (case pu_mentionedUserIds n of None \<Rightarrow> [] | Some xs \<Rightarrow> map (\<lambda>x. numInt64 (Some x)) xs)\<rparr>"

definition handleAuthResp :: "authResponse \<Rightarrow> client \<Rightarrow> client" where
  "handleAuthResp a s =
     (case rc_authResolver s of
        None \<Rightarrow> s
      | Some k \<Rightarrow>
          (if ap_success a = Some True then settle k None s
           else case rc_authRejecter s of None \<Rightarrow> s | Some j \<Rightarrow> settle j (Some (js ''auth failed'')) s)
          \<lparr>rc_authResolver := None, rc_authRejecter := None\<rparr>)"

text \<open>The entry \<open>p\<close> of \<open>pending\<close> for the number \<open>q\<close> of the packet: its timer stops, its promise settles.\<close>

definition handlePending :: "packet \<Rightarrow> nat \<Rightarrow> pendingEntry \<Rightarrow> client \<Rightarrow> client" where
  "handlePending pkt q p s =
     (let s1 = (clearTimer (Some (pe_timer p)) s)\<lparr>rc_pending := AList.delete q (rc_pending s)\<rparr>
      in settle (pe_auth p)
           (case pk_error pkt of
              Some e \<Rightarrow> Some (if strTruthy (er_message e) then strField (er_message e)
                              else js ''error '' @ showInt (numInt32 (er_code e)))
            | None \<Rightarrow> (case pk_authResp pkt of
                         Some a \<Rightarrow> if ap_success a = Some True then None else Some (js ''auth failed'')
                       | None \<Rightarrow> Some (js ''auth failed''))) s1)"

definition handleNotify :: "rtEnv \<Rightarrow> messagePush \<Rightarrow> client \<Rightarrow> client" where
  "handleNotify E n s =
     sendAck E (numInt64 (pu_msgId n)) (strField (pu_topic n)) (numUint64 (pu_topicSeq n))
       (dispatch (EvMessage (messageOf n)) s)"

definition receiptEvent :: "packet \<Rightarrow> realtimeEvent option" where
  "receiptEvent pkt =
     (if cmdIs pkt CMD_SEND_RECEIPT \<and> pk_sendReceipt pkt \<noteq> None then
        map_option (\<lambda>r. EvSendReceipt
          \<lparr>srp_clientMsgId = strField (sr_clientMsgId r), srp_msgId = numInt64 (sr_msgId r),
           srp_topic = strField (sr_topic r), srp_topicSeq = numUint64 (sr_topicSeq r),
           srp_timestamp = numInt64 (sr_timestamp r)\<rparr>) (pk_sendReceipt pkt)
      else if cmdIs pkt CMD_DELIVERY_RECEIPT \<and> pk_deliveryReceipt pkt \<noteq> None then
        map_option (\<lambda>r. EvDeliveryReceipt
          \<lparr>drp_topic = strField (dr_topic r), drp_topicSeq = numUint64 (dr_topicSeq r),
           drp_msgId = numInt64 (dr_msgId r)\<rparr>) (pk_deliveryReceipt pkt)
      else if cmdIs pkt CMD_READ_RECEIPT \<and> pk_readReceipt pkt \<noteq> None then
        map_option (\<lambda>r. EvReadReceipt
          \<lparr>rrp_topic = strField (rd_topic r), rrp_upToSeq = numUint64 (rd_upToSeq r),
           rrp_readerId = numInt64 (rd_readerId r)\<rparr>) (pk_readReceipt pkt)
      else if cmdIs pkt CMD_RECALL then
        map_option (\<lambda>r. EvRecall
          \<lparr>rcp_topic = strField (rn_topic r), rcp_topicSeq = numUint64 (rn_topicSeq r),
           rcp_msgId = numInt64 (rn_msgId r), rcp_senderId = numInt64 (rn_senderId r),
           rcp_recalledAt = numInt64 (rn_recalledAt r)\<rparr>) (pk_recallNotice pkt)
      else None)"

definition handlePacket :: "rtEnv \<Rightarrow> packet \<Rightarrow> client \<Rightarrow> client" where
  "handlePacket E pkt s =
     (if cmdIs pkt CMD_HEARTBEAT then handleHeartbeatAck s
      else if cmdIs pkt CMD_AUTH \<and> pk_authResp pkt \<noteq> None then
        (case pk_authResp pkt of None \<Rightarrow> s | Some a \<Rightarrow> handleAuthResp a s)
      else case map_of (rc_pending s) (nat (numUint64 (pk_seq pkt))) of
        Some p \<Rightarrow> handlePending pkt (nat (numUint64 (pk_seq pkt))) p s
      | None \<Rightarrow>
          if cmdIs pkt CMD_NOTIFY \<and> pk_notify pkt \<noteq> None then
            (case pk_notify pkt of None \<Rightarrow> s | Some n \<Rightarrow> handleNotify E n s)
          else (case receiptEvent pkt of None \<Rightarrow> s | Some e \<Rightarrow> dispatch e s))"

definition handleMessage :: "rtEnv \<Rightarrow> bytes \<Rightarrow> client \<Rightarrow> client" where
  "handleMessage E data s =
     (case Packet_decode (en_rt E) 0 None (length data) data of
        Inl err \<Rightarrow> dispatch (EvError err) s
      | Inr (pkt, _) \<Rightarrow> handlePacket E pkt s)"

section \<open>Timers that fire\<close>

definition heartbeatTick :: "client \<Rightarrow> client" where
  "heartbeatTick s =
     (if \<not> isConnected s then s
      else let s1 = sendNext CMD_HEARTBEAT id s in
           (setTimer HeartbeatTimeoutT HEARTBEAT_TIMEOUT_MS s1)\<lparr>rc_heartbeatTimeoutTimer := Some (rc_nextTimer s1)\<rparr>)"

text \<open>A timeout is gone when it fires, an interval stays.\<close>

definition fireTimer :: "rtEnv \<Rightarrow> nat \<Rightarrow> timerKind \<Rightarrow> client \<Rightarrow> client" where
  "fireTimer E t kind s =
     (case kind of
        HeartbeatT \<Rightarrow> heartbeatTick s
      | ReconnectT \<Rightarrow> newCall E ((clearTimer (Some t) s)\<lparr>rc_reconnectTimer := None\<rparr>)
      | HeartbeatTimeoutT \<Rightarrow>
          (let s1 = clearTimer (Some t) s in case rc_ws s1 of None \<Rightarrow> s1 | Some w \<Rightarrow> closeSocket w s1)
      | AuthT q k \<Rightarrow>
          (let s1 = clearTimer (Some t) s in
           settle k (Some (js ''auth timeout'')) (s1\<lparr>rc_pending := AList.delete q (rc_pending s1)\<rparr>)))"

end
