(* ===== verification/Realtime.thy ===== *)
theory Realtime
  imports Realtime_Client Pb_Runtime
begin

text \<open>
  The realtime client as a state machine: what the page, the browser and the server can make happen
  (\<open>rtInput\<close>), when it can happen (\<open>enabled\<close>), what the client does (\<open>rtStep\<close>, the handlers of
  \<open>Realtime_Client\<close> followed by the queued promise reactions), and the states a client can reach.
\<close>

section \<open>Steps\<close>

datatype rtInput =
    Connect jsstring
  | Disconnect
  | GatewayReply nat jsstring
  | GatewayError nat jsstring
  | GatewayBadUrl nat jsstring
  | WsOpen nat
  | WsData nat bytes
  | WsClose nat
  | WsFail nat
  | Fire nat
  | RefreshOk nat jsstring
  | RefreshError nat jsstring
  | SendMessage jsstring int bytes jsstring "64 word list option"
  | PullMessages jsstring jsnum int
  | SendReadReceipt jsstring jsnum
  | RecallMsg jsstring jsnum jsnum

fun enabled :: "rtInput \<Rightarrow> client \<Rightarrow> bool" where
  "enabled (GatewayReply c _) s = (c \<in> set (rc_calls s))"
| "enabled (GatewayError c _) s = (c \<in> set (rc_calls s))"
| "enabled (GatewayBadUrl c _) s = (c \<in> set (rc_calls s))"
| "enabled (WsOpen w) s = (stateOf w s = Some CONNECTING)"
| "enabled (WsData w _) s = (stateOf w s = Some OPEN)"
| "enabled (WsClose w) s = (stateOf w s \<in> {Some OPEN, Some CLOSING})"
| "enabled (WsFail w) s = (stateOf w s \<in> {Some CONNECTING, Some OPEN, Some CLOSING})"
| "enabled (Fire t) s = (rc_timers s t \<noteq> None)"
| "enabled (RefreshOk c _) s = (c \<in> set (rc_refreshing s))"
| "enabled (RefreshError c _) s = (c \<in> set (rc_refreshing s))"
| "enabled _ s = True"

definition setState :: "nat \<Rightarrow> readyState \<Rightarrow> client \<Rightarrow> client" where
  "setState w r = updSocket w (\<lambda>k. k\<lparr>so_state := r\<rparr>)"

text \<open>
  The browser changes the ready state, then calls the listener if it is still attached. A failed
  connection fires \<open>error\<close> and then \<open>close\<close>.
\<close>

fun handle :: "rtEnv \<Rightarrow> rtInput \<Rightarrow> client \<Rightarrow> client" where
  "handle E (Connect token) s = connect E token s"
| "handle E Disconnect s = disconnect s"
| "handle E (GatewayReply c url) s = gatewayReply E c url s"
| "handle E (GatewayError c err) s = gatewayError c err s"
| "handle E (GatewayBadUrl c err) s = gatewayBadUrl c err s"
| "handle E (WsOpen w) s =
     (let s1 = setState w OPEN s in if listening w s1 then onOpen E w s1 else s1)"
| "handle E (WsData w data) s = (if listening w s then handleMessage E data s else s)"
| "handle E (WsClose w) s =
     (let s1 = setState w CLOSED s in if listening w s1 then onClose w s1 else s1)"
| "handle E (WsFail w) s =
     (let s1 = setState w CLOSED s;
          s2 = (if listening w s1 then onError w s1 else s1)
      in if listening w s2 then onClose w s2 else s2)"
| "handle E (Fire t) s = (case rc_timers s t of None \<Rightarrow> s | Some kind \<Rightarrow> fireTimer E t kind s)"
| "handle E (RefreshOk c token) s = refreshOk E c token s"
| "handle E (RefreshError c err) s = refreshError c err s"
| "handle E (SendMessage topic msgType data clientMsgId ids) s = snd (sendMessage_rt topic msgType data clientMsgId ids s)"
| "handle E (PullMessages topic lastSeq limit) s = pullMessages_rt E topic lastSeq limit s"
| "handle E (SendReadReceipt topic upToSeq) s = sendReadReceipt E topic upToSeq s"
| "handle E (RecallMsg topic topicSeq msgId) s = recallMessage_rt E topic topicSeq msgId s"

definition rtStep :: "rtEnv \<Rightarrow> rtInput \<Rightarrow> client \<Rightarrow> client" where
  "rtStep E i s = flush (handle E i s)"

inductive rtReach :: "rtEnv \<Rightarrow> client \<Rightarrow> bool" for E where
  start: "rtReach E newClient"
| step: "rtReach E s \<Longrightarrow> enabled i s \<Longrightarrow> rtReach E (rtStep E i s)"

section \<open>The invariant\<close>

text \<open>
  Each part of the invariant is a predicate on the fields it constrains, so that an operation that
  leaves these fields alone keeps it by rewriting. \<open>timersOk\<close>: each timer variable names the active
  timer of its kind, and there is at most one.
\<close>

definition names :: "nat option \<Rightarrow> (nat \<Rightarrow> timerKind option) \<Rightarrow> timerKind \<Rightarrow> bool" where
  "names v tm K \<longleftrightarrow> (\<forall>t. tm t = Some K \<longleftrightarrow> v = Some t)"

definition timersOk ::
  "(nat \<Rightarrow> timerKind option) \<Rightarrow> nat option \<Rightarrow> nat option \<Rightarrow> nat option \<Rightarrow> nat \<Rightarrow> bool" where
  "timersOk tm reconnect heartbeat timeout n \<longleftrightarrow>
     names reconnect tm ReconnectT \<and> names heartbeat tm HeartbeatT \<and>
     (\<forall>t. timeout = Some t \<longrightarrow> t < n \<and> (tm t = None \<or> tm t = Some HeartbeatTimeoutT)) \<and>
     (\<forall>t \<ge> n. tm t = None)"

text \<open>
  \<open>pendingOk\<close>: the pending requests are exactly those with an active timeout, and every unsettled
  authentication is one of them.
\<close>

definition pendingOk ::
  "(nat \<Rightarrow> timerKind option) \<Rightarrow> (nat, pendingEntry) jsmap \<Rightarrow> nat \<Rightarrow> nat list \<Rightarrow> bool" where
  "pendingOk tm pend q0 wait \<longleftrightarrow>
     distinct (map fst pend) \<and>
     (\<forall>q \<in> fst ` set pend. 0 < q \<and> q \<le> q0) \<and>
     (\<forall>t q k. tm t = Some (AuthT q k) \<longleftrightarrow> (q, \<lparr>pe_auth = k, pe_timer = t\<rparr>) \<in> set pend) \<and>
     (\<forall>k \<in> set wait. \<exists>e \<in> set pend. pe_auth (snd e) = k)"

definition socketsOk :: "(nat \<Rightarrow> socket option) \<Rightarrow> nat \<Rightarrow> nat option \<Rightarrow> bool" where
  "socketsOk so n ws \<longleftrightarrow> (\<forall>w \<ge> n. so w = None) \<and> (case ws of None \<Rightarrow> True | Some w \<Rightarrow> so w \<noteq> None)"

text \<open>The numbers of the frames sent so far, and the delays of the reconnects scheduled so far.\<close>

fun sentSeqs :: "action list \<Rightarrow> nat list" where
  "sentSeqs [] = []"
| "sentSeqs (SendFrame w p # as) = (case pk_seq p of None \<Rightarrow> [] | Some q \<Rightarrow> [unat q]) @ sentSeqs as"
| "sentSeqs (_ # as) = sentSeqs as"

fun reconnectDelays :: "action list \<Rightarrow> nat list" where
  "reconnectDelays [] = []"
| "reconnectDelays (SetTimer t ReconnectT d # as) = d # reconnectDelays as"
| "reconnectDelays (_ # as) = reconnectDelays as"

definition seqsOk :: "nat \<Rightarrow> nat list \<Rightarrow> bool" where
  "seqsOk q0 qs \<longleftrightarrow> (q0 < 2 ^ 64 \<longrightarrow> sorted_wrt (<) qs \<and> (\<forall>q \<in> set qs. q \<le> q0))"

definition delaysOk :: "nat list \<Rightarrow> bool" where
  "delaysOk ds \<longleftrightarrow> (\<forall>d \<in> set ds. 1000 \<le> d \<and> d \<le> MAX_RECONNECT_DELAY_MS)"

definition rtOk :: "client \<Rightarrow> bool" where
  "rtOk s \<longleftrightarrow>
     timersOk (rc_timers s) (rc_reconnectTimer s) (rc_heartbeatTimer s) (rc_heartbeatTimeoutTimer s) (rc_nextTimer s) \<and>
     pendingOk (rc_timers s) (rc_pending s) (rc_seq s) (rc_waiting s) \<and>
     rc_authResolver s = rc_authRejecter s \<and>
     socketsOk (rc_sockets s) (rc_nextSocket s) (rc_ws s) \<and>
     seqsOk (rc_seq s) (sentSeqs (rc_log s)) \<and>
     delaysOk (reconnectDelays (rc_log s))"

named_theorems rt_slice \<open>updates of a field that keep the predicates over it\<close>
named_theorems rt_keeps \<open>operations of the client that keep its invariant\<close>

lemma sentSeqs_append [simp]: "sentSeqs (as @ bs) = sentSeqs as @ sentSeqs bs"
  by (induction as rule: sentSeqs.induct) auto

lemma reconnectDelays_append [simp]: "reconnectDelays (as @ bs) = reconnectDelays as @ reconnectDelays bs"
  by (induction as rule: reconnectDelays.induct) auto

subsection \<open>Fields\<close>

lemma names_at: "names (Some t) tm K \<Longrightarrow> tm t = Some K"
  by (simp add: names_def)

lemma names_other:
  assumes "names v tm K" and "tm t \<noteq> Some K" and "x \<noteq> Some K"
  shows "names v (tm(t := x)) K"
proof -
  have "(tm(t := x)) u = Some K \<longleftrightarrow> tm u = Some K" for u
    using assms(2,3) by simp
  with assms(1) show ?thesis by (simp add: names_def)
qed

lemma names_set: "names None tm K \<Longrightarrow> names (Some n) (tm(n \<mapsto> K)) K"
  by (auto simp: names_def)

lemma names_clear: "names v tm K \<Longrightarrow> names None (unset v tm) K"
  by (auto simp: names_def unset_def split: option.splits)

lemma names_clear_other:
  assumes "names v tm K" and "\<And>t. w = Some t \<Longrightarrow> tm t \<noteq> Some K"
  shows "names v (unset w tm) K"
  using assms names_other [of v tm K] by (cases w) (simp_all add: unset_def)

lemma timersOk_var:
  "timersOk tm (Some t) h z n \<Longrightarrow> tm t = Some ReconnectT"
  "timersOk tm r (Some t) z n \<Longrightarrow> tm t = Some HeartbeatT"
  "timersOk tm r h (Some t) n \<Longrightarrow> tm t = None \<or> tm t = Some HeartbeatTimeoutT"
  by (simp_all add: timersOk_def names_at)

lemma unset_None: "tm u = None \<Longrightarrow> unset v tm u = None"
  by (simp add: unset_def split: option.splits)

lemma timeout_unset:
  "\<forall>t. z = Some t \<longrightarrow> t < n \<and> (tm t = None \<or> tm t = Some K) \<Longrightarrow>
   \<forall>t. z = Some t \<longrightarrow> t < n \<and> (unset v tm t = None \<or> unset v tm t = Some K)"
  by (auto simp: unset_def split: option.splits)

lemma timersOk_unset [rt_slice]:
  assumes ok: "timersOk tm r h z n"
  shows "timersOk (unset r tm) None h z n"
    and "timersOk (unset h tm) r None z n"
    and "timersOk (unset z tm) r h None n"
proof -
  have r: "tm t = Some ReconnectT" if "r = Some t" for t
    using ok that timersOk_var(1) by blast
  have h: "tm t = Some HeartbeatT" if "h = Some t" for t
    using ok that timersOk_var(2) by blast
  have z: "tm t = None \<or> tm t = Some HeartbeatTimeoutT" if "z = Some t" for t
    using ok that timersOk_var(3) by blast
  have rn: "names r tm ReconnectT" and hn: "names h tm HeartbeatT" and free: "\<forall>t \<ge> n. unset v tm t = None" for v
    using ok by (simp_all add: timersOk_def unset_None)
  have zt: "\<forall>t. z = Some t \<longrightarrow> t < n \<and> (unset v tm t = None \<or> unset v tm t = Some HeartbeatTimeoutT)" for v
    using ok by (intro timeout_unset) (simp add: timersOk_def)
  have "names h (unset r tm) HeartbeatT" by (rule names_clear_other [OF hn]) (simp add: r)
  with rn zt [of r] free show "timersOk (unset r tm) None h z n"
    unfolding timersOk_def by (intro conjI names_clear)
  have "names r (unset h tm) ReconnectT" by (rule names_clear_other [OF rn]) (simp add: h)
  with hn zt [of h] free show "timersOk (unset h tm) r None z n"
    unfolding timersOk_def by (intro conjI names_clear)
  have "names r (unset z tm) ReconnectT" by (rule names_clear_other [OF rn]) (drule z, auto)
  moreover have "names h (unset z tm) HeartbeatT" by (rule names_clear_other [OF hn]) (drule z, auto)
  ultimately show "timersOk (unset z tm) r h None n"
    unfolding timersOk_def using free by simp
qed

lemma timersOk_fresh: "timersOk tm r h z n \<Longrightarrow> tm n = None"
  by (simp add: timersOk_def)

lemma timersOk_set [rt_slice]:
  "timersOk tm None h z n \<Longrightarrow> timersOk (tm(n \<mapsto> ReconnectT)) (Some n) h z (Suc n)"
  "timersOk tm r None z n \<Longrightarrow> timersOk (tm(n \<mapsto> HeartbeatT)) r (Some n) z (Suc n)"
  "timersOk tm r h z n \<Longrightarrow> timersOk (tm(n \<mapsto> HeartbeatTimeoutT)) r h (Some n) (Suc n)"
  "timersOk tm r h z n \<Longrightarrow> timersOk (tm(n \<mapsto> AuthT q k)) r h z (Suc n)"
  by (auto simp: timersOk_def intro!: names_set names_other)

lemma timersOk_fired [rt_slice]:
  "timersOk tm r h z n \<Longrightarrow> tm t = Some (AuthT q k) \<Longrightarrow> timersOk (tm(t := None)) r h z n"
  "timersOk tm r h z n \<Longrightarrow> tm t = Some HeartbeatTimeoutT \<Longrightarrow> timersOk (tm(t := None)) r h z n"
  by (auto simp: timersOk_def intro!: names_other)

lemma timersOk_reconnect: "timersOk tm r h z n \<Longrightarrow> tm t = Some ReconnectT \<Longrightarrow> r = Some t"
  by (simp add: timersOk_def names_def)

definition isAuth :: "timerKind option \<Rightarrow> bool" where
  "isAuth x \<longleftrightarrow> (\<exists>q k. x = Some (AuthT q k))"

lemma isAuth_simps [simp]:
  "\<not> isAuth None" "\<not> isAuth (Some ReconnectT)" "\<not> isAuth (Some HeartbeatT)" "\<not> isAuth (Some HeartbeatTimeoutT)"
  "isAuth (Some (AuthT q k))"
  by (simp_all add: isAuth_def)

lemma pendingOk_other:
  "\<not> isAuth (tm t) \<Longrightarrow> \<not> isAuth x \<Longrightarrow> pendingOk (tm(t := x)) pend q wait \<longleftrightarrow> pendingOk tm pend q wait"
proof -
  assume "\<not> isAuth (tm t)" and "\<not> isAuth x"
  then have "(tm(t := x)) u = Some (AuthT a b) \<longleftrightarrow> tm u = Some (AuthT a b)" for u a b
    by (auto simp: isAuth_def)
  then show ?thesis by (simp only: pendingOk_def)
qed

lemma pendingOk_unset [rt_slice]:
  "timersOk tm r h z n \<Longrightarrow> pendingOk tm pend q wait \<Longrightarrow> pendingOk (unset r tm) pend q wait"
  "timersOk tm r h z n \<Longrightarrow> pendingOk tm pend q wait \<Longrightarrow> pendingOk (unset h tm) pend q wait"
  "timersOk tm r h z n \<Longrightarrow> pendingOk tm pend q wait \<Longrightarrow> pendingOk (unset z tm) pend q wait"
  by (auto simp: unset_def pendingOk_other dest: timersOk_var split: option.splits)

lemma pendingOk_set [rt_slice]:
  "timersOk tm r h z n \<Longrightarrow> \<not> isAuth (Some x) \<Longrightarrow> pendingOk tm pend q wait \<Longrightarrow> pendingOk (tm(n \<mapsto> x)) pend q wait"
  by (simp add: timersOk_fresh pendingOk_other)

lemma pendingOk_seq [rt_slice]: "pendingOk tm pend q wait \<Longrightarrow> pendingOk tm pend (Suc q) wait"
  by (auto simp: pendingOk_def)

lemma pendingOk_waiting [rt_slice]: "pendingOk tm pend q wait \<Longrightarrow> pendingOk tm pend q (removeAll k wait)"
  by (auto simp: pendingOk_def)

lemma pendingOk_auth [rt_slice]:
  assumes "timersOk tm r h z n" and "pendingOk tm pend q wait"
  shows "pendingOk (tm(n \<mapsto> AuthT (Suc q) k)) (AList.update (Suc q) \<lparr>pe_auth = k, pe_timer = n\<rparr> pend) (Suc q) (wait @ [k])"
proof -
  have "Suc q \<notin> fst ` set pend"
    using assms(2) by (auto simp: pendingOk_def)
  then have "AList.update (Suc q) e pend = pend @ [(Suc q, e)]" for e
    by (induction pend) auto
  moreover from assms have "(x, \<lparr>pe_auth = y, pe_timer = n\<rparr>) \<notin> set pend" for x y
    using timersOk_fresh [OF assms(1)] unfolding pendingOk_def by (metis option.distinct(1))
  ultimately show ?thesis
    using assms(2) by (auto simp: pendingOk_def)
qed

lemma pendingOk_done [rt_slice]:
  assumes ok: "pendingOk tm pend q0 wait" and p: "(q, p) \<in> set pend"
  shows "pendingOk (tm(pe_timer p := None)) (AList.delete q pend) q0 (removeAll (pe_auth p) wait)"
proof -
  have unique: "p' = p" if "(q, p') \<in> set pend" for p'
    using ok that p by (auto simp: pendingOk_def dest: eq_key_imp_eq_value)
  have entry: "tm t = Some (AuthT q' k) \<longleftrightarrow> (q', \<lparr>pe_auth = k, pe_timer = t\<rparr>) \<in> set pend" for t q' k
    using ok by (simp add: pendingOk_def)
  then have at: "tm (pe_timer p) = Some (AuthT q (pe_auth p))"
    using p by (cases p) simp
  have tm: "(tm(pe_timer p := None)) t = Some (AuthT q' k) \<longleftrightarrow>
      (q', \<lparr>pe_auth = k, pe_timer = t\<rparr>) \<in> set pend \<and> q' \<noteq> q" for t q' k
  proof (cases "t = pe_timer p")
    case True
    then show ?thesis using at entry [of t q' k] by auto
  next
    case False
    then show ?thesis using entry [of t q' k] unique [of "\<lparr>pe_auth = k, pe_timer = t\<rparr>"] by auto
  qed
  have "\<exists>e \<in> set (AList.delete q pend). pe_auth (snd e) = k" if "k \<in> set wait" "k \<noteq> pe_auth p" for k
  proof -
    from ok that(1) obtain q' e where e: "(q', e) \<in> set pend" "pe_auth e = k"
      by (fastforce simp: pendingOk_def)
    with that(2) unique have "q' \<noteq> q" by auto
    with e show ?thesis by (force simp: AList.delete_eq)
  qed
  with ok tm show ?thesis
    by (auto simp: pendingOk_def AList.delete_eq distinct_map_filter)
qed

lemma pendingOk_waits: "pendingOk tm pend q0 wait \<Longrightarrow> k \<in> set wait \<Longrightarrow> k \<in> pe_auth ` snd ` set pend"
  unfolding pendingOk_def by (metis imageI)

lemma pendingOk_timer:
  "pendingOk tm pend q0 wait \<Longrightarrow> (q, p) \<in> set pend \<Longrightarrow> tm (pe_timer p) = Some (AuthT q (pe_auth p))"
  by (cases p) (simp add: pendingOk_def)

lemma pendingOk_entry:
  "pendingOk tm pend q0 wait \<Longrightarrow> tm t = Some (AuthT q k) \<Longrightarrow> (q, \<lparr>pe_auth = k, pe_timer = t\<rparr>) \<in> set pend"
  by (simp add: pendingOk_def)

text \<open>All pending requests at once, as \<open>rejectPending\<close> drops them.\<close>

lemma pendingOk_none [rt_slice]:
  assumes "pendingOk tm pend q0 wait"
  shows "pendingOk (\<lambda>t. if t \<in> pe_timer ` snd ` set pend then None else tm t) [] q0 []"
proof -
  have "t \<in> pe_timer ` snd ` set pend" if "tm t = Some (AuthT q k)" for t q k
    using pendingOk_entry [OF assms that] by (metis imageI pendingEntry.select_convs(2) snd_conv)
  then have "(if t \<in> pe_timer ` snd ` set pend then None else tm t) \<noteq> Some (AuthT q k)" for t q k
    by auto
  then show ?thesis by (simp add: pendingOk_def)
qed

lemma timersOk_none [rt_slice]:
  assumes ok: "timersOk tm r h z n" and T: "\<And>t. t \<in> T \<Longrightarrow> isAuth (tm t)"
  shows "timersOk (\<lambda>t. if t \<in> T then None else tm t) r h z n"
proof -
  have "(if t \<in> T then None else tm t) = Some K \<longleftrightarrow> tm t = Some K" if "\<not> isAuth (Some K)" for t K
    using T [of t] that by auto
  then have "names v (\<lambda>t. if t \<in> T then None else tm t) K \<longleftrightarrow> names v tm K" if "\<not> isAuth (Some K)" for v K
    using that by (simp add: names_def)
  with ok show ?thesis by (auto simp: timersOk_def)
qed

lemma seqsOk_seq [rt_slice]: "seqsOk q qs \<Longrightarrow> seqsOk (Suc q) qs"
  by (auto simp: seqsOk_def)

lemma seqsOk_sent [rt_slice]: "seqsOk q qs \<Longrightarrow> seqsOk (Suc q) (qs @ [unat (of_nat (Suc q) :: 64 word)])"
proof (cases "Suc q < 2 ^ 64")
  case True
  then have "unat (of_nat (Suc q) :: 64 word) = Suc q"
    by (simp add: unat_of_nat del: of_nat_Suc)
  then show "seqsOk q qs \<Longrightarrow> ?thesis"
    by (auto simp: seqsOk_def sorted_wrt_append simp del: of_nat_Suc)
qed (simp add: seqsOk_def)

lemma delaysOk_scheduled [rt_slice]: "delaysOk ds \<Longrightarrow> delaysOk (ds @ [reconnectDelay a])"
  by (auto simp: delaysOk_def reconnectDelay_def MAX_RECONNECT_DELAY_MS_def)

lemma socketsOk_upd [rt_slice]: "socketsOk so n ws \<Longrightarrow> socketsOk (so(w := map_option f (so w))) n ws"
  by (auto simp: socketsOk_def split: option.splits)

lemma socketsOk_ws [rt_slice]: "socketsOk so n ws \<Longrightarrow> socketsOk so n None"
  by (simp add: socketsOk_def)

lemma socketsOk_new [rt_slice]: "socketsOk so n ws \<Longrightarrow> socketsOk (so(n \<mapsto> k)) (Suc n) (Some n)"
  by (simp add: socketsOk_def)

subsection \<open>Operations\<close>

lemma rtOk_new: "rtOk newClient"
  by (simp add: rtOk_def newClient_def timersOk_def names_def pendingOk_def socketsOk_def seqsOk_def delaysOk_def)

text \<open>Fields no part of the invariant speaks of.\<close>

lemma rtOk_frame [simp]:
  "rtOk (s\<lparr>rc_token := a\<rparr>) \<longleftrightarrow> rtOk s"
  "rtOk (s\<lparr>rc_userId := b\<rparr>) \<longleftrightarrow> rtOk s"
  "rtOk (s\<lparr>rc_reconnectAttempt := c\<rparr>) \<longleftrightarrow> rtOk s"
  "rtOk (s\<lparr>rc_closed := d\<rparr>) \<longleftrightarrow> rtOk s"
  "rtOk (s\<lparr>rc_didTokenRefresh := d\<rparr>) \<longleftrightarrow> rtOk s"
  "rtOk (s\<lparr>rc_calls := e\<rparr>) \<longleftrightarrow> rtOk s"
  "rtOk (s\<lparr>rc_nextCall := c\<rparr>) \<longleftrightarrow> rtOk s"
  "rtOk (s\<lparr>rc_refreshing := e\<rparr>) \<longleftrightarrow> rtOk s"
  "rtOk (s\<lparr>rc_reactions := f\<rparr>) \<longleftrightarrow> rtOk s"
  by (simp_all add: rtOk_def)

lemma rtOk_ws [rt_keeps]: "rtOk s \<Longrightarrow> rtOk (s\<lparr>rc_ws := None\<rparr>)"
  by (auto simp: rtOk_def intro: rt_slice)

lemma rtOk_log [rt_keeps]:
  "rtOk s \<Longrightarrow> rtOk (dispatch e s)"
  "rtOk s \<Longrightarrow> rtOk (logAction (Resolve c) s)"
  "rtOk s \<Longrightarrow> rtOk (logAction (Reject c err) s)"
  "rtOk s \<Longrightarrow> rtOk (logAction ForceReLogin s)"
  by (simp_all add: rtOk_def dispatch_def logAction_def)

lemma rtOk_updSocket [rt_keeps]: "rtOk s \<Longrightarrow> rtOk (updSocket w f s)"
  by (simp add: rtOk_def updSocket_def socketsOk_upd)

lemma rtOk_closeSocket [rt_keeps]: "rtOk s \<Longrightarrow> rtOk (closeSocket w s)"
  unfolding closeSocket_def by (rule rtOk_updSocket)

lemma rtOk_cleanup [rt_keeps]: "rtOk s \<Longrightarrow> rtOk (cleanup w s)"
  unfolding cleanup_def by (rule rtOk_updSocket)

lemma rtOk_setState [rt_keeps]: "rtOk s \<Longrightarrow> rtOk (setState w r s)"
  unfolding setState_def by (rule rtOk_updSocket)

lemma rtOk_settle [rt_keeps]: "rtOk s \<Longrightarrow> rtOk (settle k r s)"
  by (simp add: rtOk_def settle_def pendingOk_waiting)

lemma rtOk_settled [rt_keeps]: "rtOk s \<Longrightarrow> rtOk (s\<lparr>rc_authResolver := None, rc_authRejecter := None\<rparr>)"
  by (simp add: rtOk_def)

lemma rtOk_handleHeartbeatAck [rt_keeps]: "rtOk s \<Longrightarrow> rtOk (handleHeartbeatAck s)"
  by (auto simp: rtOk_def handleHeartbeatAck_def clearTimer_def intro: rt_slice)

lemma stopHeartbeat_eq: "stopHeartbeat s = handleHeartbeatAck ((clearTimer (rc_heartbeatTimer s) s)\<lparr>rc_heartbeatTimer := None\<rparr>)"
  by (simp add: stopHeartbeat_def handleHeartbeatAck_def Let_def)

lemma rtOk_stopHeartbeat [rt_keeps]: "rtOk s \<Longrightarrow> rtOk (stopHeartbeat s)"
  unfolding stopHeartbeat_eq
  by (rule rtOk_handleHeartbeatAck) (auto simp: rtOk_def clearTimer_def intro: rt_slice)

lemma stopHeartbeat_stops [simp]: "rc_heartbeatTimer (stopHeartbeat s) = None" "rc_heartbeatTimeoutTimer (stopHeartbeat s) = None"
  by (simp_all add: stopHeartbeat_def clearTimer_def Let_def)

lemma rtOk_startHeartbeat [rt_keeps]: "rtOk s \<Longrightarrow> rtOk (startHeartbeat s)"
  using rtOk_stopHeartbeat [of s]
  by (auto simp: rtOk_def startHeartbeat_def setTimer_def logAction_def Let_def intro: rt_slice)

lemma rtOk_clearReconnect [rt_keeps]: "rtOk s \<Longrightarrow> rtOk ((clearTimer (rc_reconnectTimer s) s)\<lparr>rc_reconnectTimer := None\<rparr>)"
  by (auto simp: rtOk_def clearTimer_def intro: rt_slice)

lemma rtOk_clearTimers [rt_keeps]: "rtOk s \<Longrightarrow> rtOk (clearTimers s)"
  by (simp add: clearTimers_def Let_def rt_keeps)

lemma rtOk_scheduleReconnect [rt_keeps]: "rtOk s \<Longrightarrow> rtOk (scheduleReconnect s)"
  by (auto simp: rtOk_def scheduleReconnect_def setTimer_def logAction_def dispatch_def Let_def intro: rt_slice)

text \<open>\<open>rejectPending\<close> stops the timers of all pending requests and leaves no authentication open.\<close>

lemma settle_eq: "\<exists>rs. settle k r s = s\<lparr>rc_waiting := removeAll k (rc_waiting s), rc_reactions := rs\<rparr>"
proof (cases "k \<in> set (rc_waiting s)")
  case True
  then show ?thesis by (auto simp: settle_def)
next
  case False
  then have "settle k r s = s\<lparr>rc_waiting := removeAll k (rc_waiting s), rc_reactions := rc_reactions s\<rparr>"
    by (simp add: settle_def)
  then show ?thesis by blast
qed

lemma rejectPending_loop:
  "\<exists>rs. fold (\<lambda>(q, p) s. settle (pe_auth p) (Some err) (clearTimer (Some (pe_timer p)) s)) ps s =
   s\<lparr>rc_timers := (\<lambda>t. if t \<in> pe_timer ` snd ` set ps then None else rc_timers s t),
     rc_waiting := filter (\<lambda>k. k \<notin> pe_auth ` snd ` set ps) (rc_waiting s), rc_reactions := rs\<rparr>"
proof (induction ps arbitrary: s)
  case Nil
  show ?case by (intro exI [of _ "rc_reactions s"]) simp
next
  case (Cons e ps)
  obtain q p where e: "e = (q, p)" by (cases e)
  define s1 where "s1 = settle (pe_auth p) (Some err) (clearTimer (Some (pe_timer p)) s)"
  obtain rs where s1: "s1 =
      s\<lparr>rc_timers := (rc_timers s)(pe_timer p := None), rc_waiting := removeAll (pe_auth p) (rc_waiting s), rc_reactions := rs\<rparr>"
    unfolding s1_def using settle_eq [of "pe_auth p" "Some err" "clearTimer (Some (pe_timer p)) s"]
    by (auto simp: clearTimer_def unset_def)
  have T: "(\<lambda>t. if t \<in> pe_timer ` snd ` set ps then None else rc_timers s1 t) =
        (\<lambda>t. if t \<in> pe_timer ` snd ` set (e # ps) then None else rc_timers s t)"
    by (rule ext) (simp add: e s1)
  have W: "filter (\<lambda>k. k \<notin> pe_auth ` snd ` set ps) (rc_waiting s1) =
        filter (\<lambda>k. k \<notin> pe_auth ` snd ` set (e # ps)) (rc_waiting s)"
    by (simp add: e s1 removeAll_filter_not_eq) (rule filter_cong, auto)
  obtain rs' where "fold (\<lambda>(q, p) s. settle (pe_auth p) (Some err) (clearTimer (Some (pe_timer p)) s)) ps s1 =
   s1\<lparr>rc_timers := (\<lambda>t. if t \<in> pe_timer ` snd ` set ps then None else rc_timers s1 t),
     rc_waiting := filter (\<lambda>k. k \<notin> pe_auth ` snd ` set ps) (rc_waiting s1), rc_reactions := rs'\<rparr>"
    using Cons.IH by blast
  then have "fold (\<lambda>(q, p) s. settle (pe_auth p) (Some err) (clearTimer (Some (pe_timer p)) s)) (e # ps) s =
   s1\<lparr>rc_timers := (\<lambda>t. if t \<in> pe_timer ` snd ` set (e # ps) then None else rc_timers s t),
     rc_waiting := filter (\<lambda>k. k \<notin> pe_auth ` snd ` set (e # ps)) (rc_waiting s), rc_reactions := rs'\<rparr>"
    unfolding T W by (simp add: e s1_def)
  then show ?case
    by (intro exI [of _ rs']) (simp add: s1)
qed

lemma rtOk_rejectPending [rt_keeps]:
  assumes ok: "rtOk s"
  shows "rtOk (rejectPending err s)"
proof -
  let ?T = "pe_timer ` snd ` set (rc_pending s)" and ?W = "\<lambda>k. k \<notin> pe_auth ` snd ` set (rc_pending s)"
  have pend: "pendingOk (rc_timers s) (rc_pending s) (rc_seq s) (rc_waiting s)"
    using ok by (simp add: rtOk_def)
  obtain rs where loop: "fold (\<lambda>(q, p) s. settle (pe_auth p) (Some err) (clearTimer (Some (pe_timer p)) s)) (rc_pending s) s =
     s\<lparr>rc_timers := (\<lambda>t. if t \<in> ?T then None else rc_timers s t),
       rc_waiting := filter ?W (rc_waiting s), rc_reactions := rs\<rparr>"
    using rejectPending_loop by blast
  have "filter ?W (rc_waiting s) = []"
    unfolding filter_empty_conv using pendingOk_waits [OF pend] by blast
  moreover have "isAuth (rc_timers s t)" if "t \<in> ?T" for t
    using that pendingOk_timer [OF pend] by auto
  ultimately have "rtOk (s\<lparr>rc_timers := (\<lambda>t. if t \<in> ?T then None else rc_timers s t),
       rc_waiting := filter ?W (rc_waiting s), rc_reactions := rs, rc_pending := []\<rparr>)"
    using ok timersOk_none [of "rc_timers s" _ _ _ _ ?T] pendingOk_none [OF pend] by (simp add: rtOk_def)
  then have "rtOk ((fold (\<lambda>(q, p) s. settle (pe_auth p) (Some err) (clearTimer (Some (pe_timer p)) s)) (rc_pending s) s)\<lparr>rc_pending := []\<rparr>)"
    by (simp only: loop)
  then show ?thesis
    unfolding rejectPending_def Let_def by (auto intro!: rt_keeps split: option.split)
qed

lemma rtOk_handleDisconnect [rt_keeps]: "rtOk s \<Longrightarrow> rtOk (handleDisconnect s)"
  by (simp add: handleDisconnect_def Let_def rt_keeps)

lemma rtOk_disconnect [rt_keeps]: "rtOk s \<Longrightarrow> rtOk (disconnect s)"
  unfolding disconnect_def Let_def by (rule rtOk_clearReconnect) (auto intro!: rt_keeps split: option.split)

lemma rtOk_doConnect [rt_keeps]: "rtOk s \<Longrightarrow> rtOk (doConnect E c s)"
  by (simp add: doConnect_def rt_keeps)

lemma rtOk_newCall [rt_keeps]: "rtOk s \<Longrightarrow> rtOk (newCall E s)"
  by (simp add: newCall_def rt_keeps)

lemma rtOk_connect [rt_keeps]: "rtOk s \<Longrightarrow> rtOk (connect E token s)"
  by (simp add: connect_def rt_keeps)

lemma rtOk_gatewayReply [rt_keeps]: "rtOk s \<Longrightarrow> rtOk (gatewayReply E c url s)"
  by (auto simp: gatewayReply_def rtOk_def logAction_def Let_def intro: rt_slice)

lemma rtOk_gatewayFails [rt_keeps]:
  "rtOk s \<Longrightarrow> rtOk (gatewayError c err s)"
  "rtOk s \<Longrightarrow> rtOk (gatewayBadUrl c err s)"
  by (simp_all add: gatewayError_def gatewayBadUrl_def Let_def rt_keeps)

lemma rtOk_refresh [rt_keeps]:
  "rtOk s \<Longrightarrow> rtOk (refreshOk E c token s)"
  "rtOk s \<Longrightarrow> rtOk (refreshError c err s)"
  by (simp_all add: refreshOk_def refreshError_def rt_keeps)

lemma rtOk_react [rt_keeps]: "rtOk s \<Longrightarrow> rtOk (react r s)"
  by (auto simp: react_def intro!: rt_keeps split: prod.split option.split)

lemma rtOk_flush [rt_keeps]: "rtOk s \<Longrightarrow> rtOk (flush s)"
proof -
  have "rtOk s \<Longrightarrow> rtOk (fold react rs s)" for rs s
    by (induction rs arbitrary: s) (simp_all add: rtOk_react)
  then show "rtOk s \<Longrightarrow> rtOk (flush s)"
    by (simp add: flush_def)
qed

text \<open>Sending: a frame carries the next number.\<close>

definition numbered :: "(packet \<Rightarrow> packet) \<Rightarrow> bool" where
  "numbered fill \<longleftrightarrow> (\<forall>p. pk_seq (fill p) = pk_seq p)"

lemma rtOk_sendNext: "numbered fill \<Longrightarrow> rtOk s \<Longrightarrow> rtOk (sendNext cmd fill s)"
  by (auto simp: sendNext_def send_def nextSeq_def logAction_def numbered_def rtOk_def Let_def simp del: of_nat_Suc
      intro: rt_slice split: option.split)

lemma rtOk_senders [rt_keeps]:
  "rtOk s \<Longrightarrow> rtOk (snd (sendMessage_rt topic msgType data cid ids s))"
  "rtOk s \<Longrightarrow> rtOk (pullMessages_rt E topic lastSeq limit s)"
  "rtOk s \<Longrightarrow> rtOk (sendReadReceipt E topic upTo s)"
  "rtOk s \<Longrightarrow> rtOk (recallMessage_rt E topic topicSeq msgId s)"
  "rtOk s \<Longrightarrow> rtOk (sendAck E i topic q s)"
  "rtOk s \<Longrightarrow> rtOk (sendNext CMD_HEARTBEAT id s)"
  unfolding sendMessage_rt_def pullMessages_rt_def sendReadReceipt_def recallMessage_rt_def sendAck_def snd_conv
  by (rule rtOk_sendNext, simp add: numbered_def, assumption)+

text \<open>\<open>getDeviceId\<close> touches the session storage and the random values only.\<close>

lemma getDeviceId_frame:
  "snd (getDeviceId E s) = s\<lparr>rc_deviceId := rc_deviceId (snd (getDeviceId E s)), rc_draws := rc_draws (snd (getDeviceId E s))\<rparr>"
  by (simp add: getDeviceId_def Let_def)

lemma rtOk_sendAuth [rt_keeps]:
  assumes "rtOk s"
  shows "rtOk (sendAuth E w s)"
proof -
  let ?s1 = "nextSeq (s\<lparr>rc_authResolver := Some w, rc_authRejecter := Some w, rc_waiting := rc_waiting s @ [w]\<rparr>)"
  let ?s2 = "setTimer (AuthT (rc_seq ?s1) w) 10000 ?s1"
  let ?s3 = "?s2\<lparr>rc_pending := AList.update (rc_seq ?s1) \<lparr>pe_auth = w, pe_timer = rc_nextTimer ?s1\<rparr> (rc_pending ?s2)\<rparr>"
  obtain device d n where "getDeviceId E ?s3 = (device, ?s3\<lparr>rc_deviceId := d, rc_draws := n\<rparr>)"
    using getDeviceId_frame by (metis prod.collapse)
  with assms show ?thesis
    by (auto simp: sendAuth_def send_def nextSeq_def setTimer_def logAction_def rtOk_def Let_def simp del: of_nat_Suc
        intro: rt_slice split: option.split)
qed

lemma rtOk_onOpen [rt_keeps]: "rtOk s \<Longrightarrow> rtOk (onOpen E w s)"
  by (simp add: onOpen_def rt_keeps)

lemma rtOk_onClose [rt_keeps]: "rtOk s \<Longrightarrow> rtOk (onClose w s)"
  by (simp add: onClose_def rt_keeps)

lemma rtOk_onError [rt_keeps]: "rtOk s \<Longrightarrow> rtOk (onError w s)"
  by (simp add: onError_def rt_keeps)

lemma rtOk_answered:
  assumes ok: "rtOk s" and p: "(q, p) \<in> set (rc_pending s)"
  shows "rtOk (settle (pe_auth p) r ((clearTimer (Some (pe_timer p)) s)\<lparr>rc_pending := AList.delete q (rc_pending s)\<rparr>))"
proof -
  have "rc_timers s (pe_timer p) = Some (AuthT q (pe_auth p))"
    using ok p by (cases p) (simp add: rtOk_def pendingOk_def)
  then show ?thesis
    using ok p settle_eq [of "pe_auth p" r "(clearTimer (Some (pe_timer p)) s)\<lparr>rc_pending := AList.delete q (rc_pending s)\<rparr>"]
    by (auto simp: rtOk_def clearTimer_def unset_def intro: rt_slice)
qed

lemma rtOk_handlePending [rt_keeps]:
  assumes "rtOk s" and "map_of (rc_pending s) q = Some p"
  shows "rtOk (handlePending pkt q p s)"
  unfolding handlePending_def Let_def using assms(1) map_of_SomeD [OF assms(2)] by (rule rtOk_answered)

lemma rtOk_handlePacket [rt_keeps]: "rtOk s \<Longrightarrow> rtOk (handlePacket E pkt s)"
  by (auto simp: handlePacket_def handleAuthResp_def handleNotify_def intro!: rt_keeps split: option.split)

lemma rtOk_handleMessage [rt_keeps]: "rtOk s \<Longrightarrow> rtOk (handleMessage E data s)"
  by (auto simp: handleMessage_def intro!: rt_keeps split: sum.split)

lemma rtOk_fireTimer [rt_keeps]:
  assumes ok: "rtOk s" and t: "rc_timers s t = Some kind"
  shows "rtOk (fireTimer E t kind s)"
proof (cases kind)
  case ReconnectT
  with ok t have "rc_reconnectTimer s = Some t"
    by (auto simp: rtOk_def dest: timersOk_reconnect)
  then show ?thesis
    using rtOk_clearReconnect [OF ok] ReconnectT by (simp add: fireTimer_def rtOk_newCall)
next
  case HeartbeatT
  with ok show ?thesis
    using rtOk_senders(6) [OF ok]
    by (auto simp: fireTimer_def heartbeatTick_def Let_def rtOk_def setTimer_def logAction_def intro: rt_slice)
next
  case HeartbeatTimeoutT
  with ok t have "rtOk (clearTimer (Some t) s)"
    by (auto simp: rtOk_def clearTimer_def unset_def pendingOk_other intro: rt_slice)
  then show ?thesis
    using HeartbeatTimeoutT by (auto simp: fireTimer_def Let_def intro: rt_keeps split: option.split)
next
  case (AuthT q k)
  with ok t have "(q, \<lparr>pe_auth = k, pe_timer = t\<rparr>) \<in> set (rc_pending s)"
    by (simp add: rtOk_def pendingOk_def)
  from rtOk_answered [OF ok this] show ?thesis
    using AuthT by (simp add: fireTimer_def Let_def clearTimer_def)
qed

lemma rtOk_handle: "rtOk s \<Longrightarrow> rtOk (handle E i s)"
  by (cases i) (auto simp: Let_def intro!: rt_keeps split: option.split)

lemma rtReach_ok: "rtReach E s \<Longrightarrow> rtOk s"
  by (induction rule: rtReach.induct) (simp_all add: rtOk_new rtStep_def rtOk_flush rtOk_handle)

text \<open>The reactions are all done between two steps.\<close>

lemma react_reactions [simp]: "rc_reactions (react r s) = rc_reactions s"
  by (auto simp: react_def startHeartbeat_def stopHeartbeat_def setTimer_def logAction_def dispatch_def Let_def
      clearTimer_def closeSocket_def cleanup_def updSocket_def split: prod.split option.split)

lemma fold_react_reactions: "rc_reactions (fold react rs s) = rc_reactions s"
  by (induction rs arbitrary: s) simp_all

lemma rtReach_reactions: "rtReach E s \<Longrightarrow> rc_reactions s = []"
  by (induction rule: rtReach.induct) (simp_all add: newClient_def rtStep_def flush_def fold_react_reactions)

end
