(* ===== verification/Realtime_Properties.thy ===== *)
theory Realtime_Properties
  imports Realtime
begin

text \<open>
  What the realtime client promises, over the reachable states of \<open>Realtime\<close>: its timers and pending
  requests, the numbers of its frames, how it reconnects, what it does with the frames that arrive,
  and where it does not do what it means to. The witnesses run the client on concrete inputs.
\<close>

section \<open>Runs\<close>

fun runOk :: "rtEnv \<Rightarrow> rtInput list \<Rightarrow> client \<Rightarrow> bool" where
  "runOk E [] s = True"
| "runOk E (i # is) s = (enabled i s \<and> runOk E is (rtStep E i s))"

definition rtRun :: "rtEnv \<Rightarrow> rtInput list \<Rightarrow> client \<Rightarrow> client" where
  "rtRun E is s = fold (rtStep E) is s"

lemma rtReach_run: "rtReach E s \<Longrightarrow> runOk E is s \<Longrightarrow> rtReach E (rtRun E is s)"
  by (induction "is" arbitrary: s) (simp_all add: rtRun_def rtReach.step)

definition sampleEnv :: rtEnv where
  "sampleEnv = \<lparr>en_rt = pbRuntime, en_getItem = True, en_setItem = True, en_uuid = Some (\<lambda>_. js ''u''),
     en_random = (\<lambda>_. js ''r''), en_claims = (\<lambda>_. Some 7), en_base = None\<rparr>"

definition opened :: "rtInput list" where
  "opened = [Connect (js ''t''), GatewayReply 0 (js ''ws://g''), WsOpen 0]"

lemmas rt_defs = newClient_def logAction_def dispatch_def setTimer_def unset_def clearTimer_def updSocket_def
  closeSocket_def listening_def stateOf_def settle_def isConnected_def nextSeq_def send_def sendNext_def
  extractUserId_def inferGatewayUrl_def stopHeartbeat_def startHeartbeat_def handleHeartbeatAck_def
  clearTimers_def rejectPending_def scheduleReconnect_def handleDisconnect_def doConnect_def newCall_def
  connect_def disconnect_def gatewayReply_def gatewayError_def gatewayBadUrl_def callOf_def cleanup_def getDeviceId_def
  sendAuth_def onOpen_def onClose_def onError_def react_def flush_def refreshOk_def refreshError_def setState_def
  rtStep_def heartbeatTick_def fireTimer_def Let_def

lemmas rt_eval = rt_defs js_eval sampleEnv_def tokenPayload_def

text \<open>The client once the socket is open and the authentication is sent.\<close>

definition openedState :: client where
  "openedState =
     \<lparr>rc_ws = Some 0, rc_token = Some (js ''t''), rc_userId = Some 0, rc_seq = 1,
      rc_pending = [(1, \<lparr>pe_auth = 0, pe_timer = 0\<rparr>)],
      rc_heartbeatTimer = None, rc_heartbeatTimeoutTimer = None, rc_reconnectTimer = None,
      rc_reconnectAttempt = 0, rc_closed = False, rc_didTokenRefresh = False,
      rc_authResolver = Some 0, rc_authRejecter = Some 0,
      rc_sockets = [0 \<mapsto> \<lparr>so_url = js ''ws://g'', so_call = 0, so_state = OPEN, so_listening = True\<rparr>],
      rc_nextSocket = 1, rc_timers = [0 \<mapsto> AuthT 1 0], rc_nextTimer = 1,
      rc_calls = [], rc_nextCall = 1, rc_refreshing = [], rc_waiting = [0], rc_reactions = [],
      rc_deviceId = Some (js ''web-u''), rc_draws = 1,
      rc_log = [OpenSocket 0 (js ''ws://g''), Dispatch EvConnected, SetTimer 0 (AuthT 1 0) 10000,
        SendFrame 0 (Packet_new\<lparr>pk_cmd := Some 2, pk_seq := Some 1,
          pk_authReq := Some (AuthRequest_new\<lparr>aq_token := Some (js ''t''), aq_deviceId := Some (js ''web-u'')\<rparr>)\<rparr>)]\<rparr>"

lemma openedState_run: "rtRun sampleEnv opened newClient = openedState"
  by (simp add: opened_def rtRun_def rt_eval openedState_def)

lemma opened_ok: "runOk sampleEnv opened newClient"
  by (simp add: opened_def rt_eval)

lemma openedState_reach: "rtReach sampleEnv openedState"
  using rtReach_run [OF rtReach.start opened_ok] by (simp add: openedState_run)

section \<open>Timers and requests\<close>

text \<open>
  C7. In every reachable state \<open>reconnectTimer\<close> and \<open>heartbeatTimer\<close> name exactly the active timers of
  their kind, so that at most one of each is active, and the pending requests are those whose timeout
  is active. For \<open>heartbeatTimeoutTimer\<close> less holds, as its callback does not reset the variable and a
  later heartbeat overwrites it: what it names is an active heartbeat timeout or no longer active, never
  a timer of another kind, so clearing it stops no other timer.
\<close>

theorem rtReach_timers:
  assumes "rtReach E s"
  shows "(rc_timers s t = Some ReconnectT \<longleftrightarrow> rc_reconnectTimer s = Some t) \<and>
         (rc_timers s t = Some HeartbeatT \<longleftrightarrow> rc_heartbeatTimer s = Some t) \<and>
         (rc_timers s t = Some (AuthT q k) \<longleftrightarrow> map_of (rc_pending s) q = Some \<lparr>pe_auth = k, pe_timer = t\<rparr>) \<and>
         (rc_heartbeatTimeoutTimer s = Some t \<longrightarrow> rc_timers s t \<in> {None, Some HeartbeatTimeoutT})"
  using rtReach_ok [OF assms] by (simp add: rtOk_def timersOk_def names_def pendingOk_def)

theorem rtReach_timers_witness:
  "rc_timers openedState 0 = Some (AuthT 1 0) \<and>
   map_of (rc_pending openedState) 1 = Some \<lparr>pe_auth = 0, pe_timer = 0\<rparr>"
  using rtReach_timers [OF openedState_reach, of 0 1 0] by (simp add: openedState_def)

text \<open>What one reaction does to a promise that failed for another reason than the token.\<close>

lemma react_rejected: "\<not> isTokenError err \<Longrightarrow> react (k, Some err) s = logAction (Reject (callOf k s) err) s"
  by (simp add: react_def)

lemma not_token_error [simp]:
  "\<not> isTokenError (js ''auth timeout'')" "\<not> isTokenError (js ''disconnected'')" "isTokenError (js ''auth failed'')"
  by code_simp+

text \<open>
  C10. No authentication waits forever: as long as its promise is not settled a timeout is active, and
  when it fires the promise of \<open>doConnect\<close> is rejected with "auth timeout".
\<close>

theorem auth_settles:
  assumes "rtReach E s" and "k \<in> set (rc_waiting s)"
  shows "\<exists>t q. rc_timers s t = Some (AuthT q k) \<and>
           k \<notin> set (rc_waiting (rtStep E (Fire t) s)) \<and>
           rc_log (rtStep E (Fire t) s) = rc_log s @ [Reject (callOf k s) (js ''auth timeout'')]"
proof -
  have ok: "pendingOk (rc_timers s) (rc_pending s) (rc_seq s) (rc_waiting s)"
    using rtReach_ok [OF assms(1)] by (simp add: rtOk_def)
  from pendingOk_waits [OF ok assms(2)] obtain q p where p: "(q, p) \<in> set (rc_pending s)" "k = pe_auth p"
    by auto
  then have "rc_timers s (pe_timer p) = Some (AuthT q k)"
    using pendingOk_timer [OF ok] by simp
  then show ?thesis
    using rtReach_reactions [OF assms(1)] assms(2)
    by (intro exI [of _ "pe_timer p"] exI [of _ q])
      (simp add: rtStep_def fireTimer_def Let_def settle_def clearTimer_def flush_def react_rejected logAction_def callOf_def)
qed

theorem auth_settles_witness:
  "\<exists>t q. rc_timers openedState t = Some (AuthT q 0) \<and> 0 \<notin> set (rc_waiting (rtStep sampleEnv (Fire t) openedState))"
proof -
  have "0 \<in> set (rc_waiting openedState)" by (simp add: openedState_def)
  with auth_settles [OF openedState_reach] show ?thesis by blast
qed

text \<open>
  C12. The frames of a client carry strictly increasing numbers, over all its connections, as long as
  the counter is a number JavaScript counts exactly.
\<close>

theorem frames_numbered:
  assumes "rtReach E s" and "rc_seq s \<le> 2 ^ 53"
  shows "sorted_wrt (<) (sentSeqs (rc_log s)) \<and> (\<forall>q \<in> set (sentSeqs (rc_log s)). q \<le> rc_seq s)"
  using rtReach_ok [OF assms(1)] assms(2) by (simp add: rtOk_def seqsOk_def)

theorem frames_numbered_witness:
  "let s = rtRun sampleEnv [SendReadReceipt (js ''p2p'') (JNum 3), SendReadReceipt (js ''p2p'') (JNum 4)] openedState
   in sentSeqs (rc_log s) = [1, 2, 3] \<and> sorted_wrt (<) (sentSeqs (rc_log s))"
proof -
  let ?is = "[SendReadReceipt (js ''p2p'') (JNum 3), SendReadReceipt (js ''p2p'') (JNum 4)]"
  have "rtReach sampleEnv (rtRun sampleEnv ?is openedState)"
    by (rule rtReach_run [OF openedState_reach]) simp
  moreover have "rc_seq (rtRun sampleEnv ?is openedState) = 3"
    and "sentSeqs (rc_log (rtRun sampleEnv ?is openedState)) = [1, 2, 3]"
    by (simp_all add: rtRun_def openedState_def rt_eval sendReadReceipt_def)
  ultimately show ?thesis
    using frames_numbered [of sampleEnv "rtRun sampleEnv ?is openedState"] by simp
qed

section \<open>Reconnecting\<close>

lemma react_keeps [simp]:
  "rc_reconnectTimer (react r s) = rc_reconnectTimer s" "rc_closed (react r s) = rc_closed s"
  "rc_calls (react r s) = rc_calls s" "rc_nextCall (react r s) = rc_nextCall s"
  by (auto simp: react_def startHeartbeat_def stopHeartbeat_def setTimer_def logAction_def dispatch_def Let_def
      clearTimer_def closeSocket_def cleanup_def updSocket_def split: prod.split option.split)

lemma flush_keeps [simp]:
  "rc_reconnectTimer (flush s) = rc_reconnectTimer s" "rc_closed (flush s) = rc_closed s"
  "rc_calls (flush s) = rc_calls s" "rc_nextCall (flush s) = rc_nextCall s"
proof -
  have "rc_reconnectTimer (fold react rs s) = rc_reconnectTimer s \<and> rc_closed (fold react rs s) = rc_closed s \<and>
        rc_calls (fold react rs s) = rc_calls s \<and> rc_nextCall (fold react rs s) = rc_nextCall s" for rs s
    by (induction rs arbitrary: s) simp_all
  then show "rc_reconnectTimer (flush s) = rc_reconnectTimer s" "rc_closed (flush s) = rc_closed s"
  "rc_calls (flush s) = rc_calls s" "rc_nextCall (flush s) = rc_nextCall s"
    by (simp_all add: flush_def)
qed

lemma flush_idle: "rc_reactions s = [] \<Longrightarrow> flush s = s"
  by (cases s) (simp add: flush_def)

text \<open>
  C26. Every reconnect is scheduled at least one second and at most thirty seconds ahead.
\<close>

theorem reconnect_delay_bounds:
  assumes "rtReach E s" and "SetTimer t ReconnectT d \<in> set (rc_log s)"
  shows "1000 \<le> d \<and> d \<le> MAX_RECONNECT_DELAY_MS"
proof -
  have "SetTimer t ReconnectT d \<in> set as \<Longrightarrow> d \<in> set (reconnectDelays as)" for as
    by (induction as rule: reconnectDelays.induct) auto
  then show ?thesis
    using rtReach_ok [OF assms(1)] assms(2) by (auto simp: rtOk_def delaysOk_def)
qed

text \<open>A client whose first gateway call failed.\<close>

definition failedState :: client where
  "failedState = rtRun sampleEnv [Connect (js ''t''), GatewayError 0 (js ''e'')] newClient"

lemma failedState_reach: "rtReach sampleEnv failedState"
  unfolding failedState_def by (rule rtReach_run [OF rtReach.start]) (simp add: rt_eval)

lemma failedState_fields:
  "rc_closed failedState = False" "rc_reconnectTimer failedState = Some 0" "rc_reconnectAttempt failedState = 1"
  "rc_log failedState = [Dispatch EvReconnecting, SetTimer 0 ReconnectT 1000, Reject 0 (js ''e'')]"
  by (simp_all add: failedState_def rtRun_def rt_eval reconnectDelay_def MAX_RECONNECT_DELAY_MS_def)

theorem reconnect_delay_bounds_witness:
  "SetTimer 0 ReconnectT 1000 \<in> set (rc_log failedState) \<and> (1000 :: nat) \<le> MAX_RECONNECT_DELAY_MS"
  using reconnect_delay_bounds [OF failedState_reach, of 0 1000] by (simp add: failedState_fields)

text \<open>Rejecting the pending requests queues rejections only, and changes no more than the requests.\<close>

definition rejections :: "jsstring \<Rightarrow> client \<Rightarrow> bool" where
  "rejections err s \<longleftrightarrow> (\<forall>r \<in> set (rc_reactions s). snd r = Some err)"

lemma rejections_settle: "rejections err s \<Longrightarrow> rejections err (settle k (Some err) s)"
  by (simp add: rejections_def settle_def)

lemma rejectPending_reactions:
  assumes "rc_reactions s = []"
  shows "rejections err (rejectPending err s)"
proof -
  have clear: "rejections err (clearTimer t s) = rejections err s" for t s
    by (simp add: rejections_def clearTimer_def)
  have "rejections err s \<Longrightarrow>
        rejections err (fold (\<lambda>(q, p) s. settle (pe_auth p) (Some err) (clearTimer (Some (pe_timer p)) s)) ps s)" for ps s
    by (induction ps arbitrary: s) (simp_all add: split_beta rejections_settle clear)
  from this [of s "rc_pending s"] show ?thesis
    using assms by (auto simp: rejectPending_def Let_def rejections_def settle_def split: option.split)
qed

lemma rejectPending_keeps:
  "rc_closed (rejectPending err s) = rc_closed s" "rc_ws (rejectPending err s) = rc_ws s"
  "rc_pending (rejectPending err s) = []" "rc_heartbeatTimer (rejectPending err s) = rc_heartbeatTimer s"
  "rc_heartbeatTimeoutTimer (rejectPending err s) = rc_heartbeatTimeoutTimer s" "rc_sockets (rejectPending err s) = rc_sockets s"
  "rc_reconnectTimer (rejectPending err s) = rc_reconnectTimer s"
  "rc_reconnectAttempt (rejectPending err s) = rc_reconnectAttempt s" "rc_log (rejectPending err s) = rc_log s"
  "rc_calls (rejectPending err s) = rc_calls s" "rc_token (rejectPending err s) = rc_token s"
  "rc_nextSocket (rejectPending err s) = rc_nextSocket s" "rc_timers s t = None \<Longrightarrow> rc_timers (rejectPending err s) t = None"
proof -
  obtain rs where "fold (\<lambda>(q, p) s. settle (pe_auth p) (Some err) (clearTimer (Some (pe_timer p)) s)) (rc_pending s) s =
   s\<lparr>rc_timers := (\<lambda>t. if t \<in> pe_timer ` snd ` set (rc_pending s) then None else rc_timers s t),
     rc_waiting := filter (\<lambda>k. k \<notin> pe_auth ` snd ` set (rc_pending s)) (rc_waiting s), rc_reactions := rs\<rparr>"
    using rejectPending_loop by blast
  then show "rc_closed (rejectPending err s) = rc_closed s" "rc_ws (rejectPending err s) = rc_ws s"
    "rc_pending (rejectPending err s) = []" "rc_heartbeatTimer (rejectPending err s) = rc_heartbeatTimer s"
    "rc_heartbeatTimeoutTimer (rejectPending err s) = rc_heartbeatTimeoutTimer s" "rc_sockets (rejectPending err s) = rc_sockets s"
    "rc_reconnectTimer (rejectPending err s) = rc_reconnectTimer s"
    "rc_reconnectAttempt (rejectPending err s) = rc_reconnectAttempt s" "rc_log (rejectPending err s) = rc_log s"
    "rc_calls (rejectPending err s) = rc_calls s" "rc_token (rejectPending err s) = rc_token s"
    "rc_nextSocket (rejectPending err s) = rc_nextSocket s" "rc_timers s t = None \<Longrightarrow> rc_timers (rejectPending err s) t = None"
    by (simp_all add: rejectPending_def Let_def settle_def split: option.split)
qed

lemma flush_rejected:
  assumes "rejections err s" and "\<not> isTokenError err"
  shows "\<exists>as. flush s = s\<lparr>rc_reactions := [], rc_log := rc_log s @ as\<rparr> \<and> reconnectDelays as = []"
proof -
  have "\<forall>r \<in> set rs. snd r = Some err \<Longrightarrow>
    \<exists>as. fold react rs s = s\<lparr>rc_log := rc_log s @ as\<rparr> \<and> reconnectDelays as = []" for rs s
  proof (induction rs arbitrary: s)
    case Nil
    show ?case by (intro exI [of _ "[]"]) simp
  next
    case (Cons r rs)
    then obtain k where r: "r = (k, Some err)" by (cases r) auto
    obtain as where "fold react rs (logAction (Reject (callOf k s) err) s) =
        (logAction (Reject (callOf k s) err) s)\<lparr>rc_log := rc_log (logAction (Reject (callOf k s) err) s) @ as\<rparr>"
      and "reconnectDelays as = []"
      using Cons by (metis list.set_intros(2))
    then show ?case
      by (intro exI [of _ "Reject (callOf k s) err # as"]) (simp add: r react_rejected assms(2) logAction_def)
  qed
  from this [OF assms(1) [unfolded rejections_def]] obtain as where
    "fold react (rc_reactions s) (s\<lparr>rc_reactions := []\<rparr>) = s\<lparr>rc_reactions := [], rc_log := rc_log s @ as\<rparr>" "reconnectDelays as = []"
    by (metis client.select_convs(25) client.surjective client.update_convs(22) client.update_convs(25))
  then show ?thesis by (auto simp: flush_def)
qed

lemma handleDisconnect_effect:
  assumes "\<not> rc_closed s"
  shows "rc_reconnectTimer (handleDisconnect s) \<noteq> None" "rc_ws (handleDisconnect s) = None"
    "\<not> rc_closed (handleDisconnect s)"
    "rc_reconnectTimer s = None \<Longrightarrow> rc_reconnectAttempt (handleDisconnect s) = Suc (rc_reconnectAttempt s)"
    "rc_reconnectTimer s = None \<Longrightarrow> reconnectDelays (rc_log (handleDisconnect s)) =
       reconnectDelays (rc_log s) @ [reconnectDelay (rc_reconnectAttempt s)]"
  using assms rejectPending_keeps [where err = "js ''disconnected''" and s = "stopHeartbeat s"]
  by (auto simp: handleDisconnect_def Let_def scheduleReconnect_def dispatch_def logAction_def setTimer_def
      stopHeartbeat_def clearTimer_def)

text \<open>A socket that closes while the client listens: \<open>handleDisconnect\<close>, and then rejections only.\<close>

lemma close_step:
  assumes "rtReach E s" and "listening w s"
  obtains as where "rtStep E (WsClose w) s = (handleDisconnect (cleanup w (setState w CLOSED s)))
      \<lparr>rc_reactions := [], rc_log := rc_log (handleDisconnect (cleanup w (setState w CLOSED s))) @ as\<rparr>"
    "reconnectDelays as = []"
proof -
  let ?s0 = "cleanup w (setState w CLOSED s)"
  have s0: "rc_reactions ?s0 = []"
    using rtReach_reactions [OF assms(1)] by (simp add: cleanup_def setState_def updSocket_def)
  have step: "rtStep E (WsClose w) s = flush (handleDisconnect ?s0)"
    using assms(2) by (auto simp: rtStep_def setState_def updSocket_def listening_def onClose_def split: option.splits)
  have "rejections (js ''disconnected'') (handleDisconnect ?s0)"
    using rejectPending_reactions [of "stopHeartbeat ?s0" "js ''disconnected''"] s0
    by (simp add: rejections_def handleDisconnect_def Let_def scheduleReconnect_def dispatch_def logAction_def setTimer_def
        stopHeartbeat_def clearTimer_def)
  from flush_rejected [OF this not_token_error(2)] that step show thesis by auto
qed

text \<open>
  C8. A lost connection comes back: when the socket closes and the page did not disconnect, a reconnect
  is scheduled; when it fires and the gateway answers, the client opens and listens on a new socket.
\<close>

theorem lost_connection_reconnects:
  assumes "rtReach E s" and "enabled (WsClose w) s" and "listening w s" and "\<not> rc_closed s"
  shows "\<exists>t. let s1 = rtStep E (WsClose w) s; s2 = rtStep E (Fire t) s1; c = rc_nextCall s1;
               s3 = rtStep E (GatewayReply c url) s2
           in rc_ws s1 = None \<and> rc_timers s1 t = Some ReconnectT \<and> enabled (GatewayReply c url) s2 \<and>
              rc_ws s3 = Some (rc_nextSocket s2) \<and> stateOf (rc_nextSocket s2) s3 = Some CONNECTING \<and>
              listening (rc_nextSocket s2) s3"
proof -
  let ?s0 = "cleanup w (setState w CLOSED s)" and ?s1 = "rtStep E (WsClose w) s"
  have r1: "rtReach E ?s1" using assms(1,2) by (rule rtReach.step)
  have s0: "\<not> rc_closed ?s0"
    using assms(4) by (simp add: cleanup_def setState_def updSocket_def)
  obtain as where "?s1 = (handleDisconnect ?s0)\<lparr>rc_reactions := [], rc_log := rc_log (handleDisconnect ?s0) @ as\<rparr>"
    using close_step [OF assms(1,3)] by blast
  with handleDisconnect_effect [OF s0] obtain t where
    t: "rc_reconnectTimer ?s1 = Some t" "rc_ws ?s1 = None" "\<not> rc_closed ?s1" by auto
  then have t1: "rc_timers ?s1 t = Some ReconnectT"
    using rtReach_ok [OF r1] by (simp add: rtOk_def timersOk_def names_def)
  let ?s2 = "rtStep E (Fire t) ?s1"
  have "rc_nextCall ?s1 \<in> set (rc_calls ?s2) \<and> rc_reactions ?s2 = []"
    using t t1 rtReach_reactions [OF r1]
    by (simp add: rtStep_def [of E "Fire t"] fireTimer_def newCall_def doConnect_def clearTimer_def flush_idle)
  moreover from this have "rtStep E (GatewayReply (rc_nextCall ?s1) url) ?s2 = gatewayReply E (rc_nextCall ?s1) url ?s2"
    by (simp add: rtStep_def [of E "GatewayReply _ _"] gatewayReply_def logAction_def Let_def flush_idle)
  ultimately show ?thesis
    using t(2) t1 by (intro exI [of _ t]) (simp add: Let_def gatewayReply_def logAction_def stateOf_def listening_def)
qed

theorem lost_connection_reconnects_witness:
  "\<exists>t. let s1 = rtStep sampleEnv (WsClose 0) openedState; s2 = rtStep sampleEnv (Fire t) s1;
         s3 = rtStep sampleEnv (GatewayReply (rc_nextCall s1) (js ''ws://h'')) s2
     in rc_ws s1 = None \<and> rc_ws s3 = Some (rc_nextSocket s2) \<and> listening (rc_nextSocket s2) s3"
proof -
  have "enabled (WsClose 0) openedState" "listening 0 openedState" "\<not> rc_closed openedState"
    by (simp_all add: openedState_def stateOf_def listening_def)
  from lost_connection_reconnects [OF openedState_reach this, of "js ''ws://h''"] show ?thesis
    unfolding Let_def by blast
qed

section \<open>Failed attempts\<close>

text \<open>
  How an attempt to connect can fail and be tried again: the gateway call fails, or the gateway answers,
  the socket opens, and the server closes it before it answered the authentication.
\<close>

datatype attemptFailure = GatewayFails jsstring | ServerCloses jsstring

text \<open>One more failed attempt: the reconnect timer fires, and the attempt fails that way.\<close>

definition failInputs :: "attemptFailure \<Rightarrow> nat \<Rightarrow> nat \<Rightarrow> rtInput list" where
  "failInputs f c w =
     (case f of
        GatewayFails err \<Rightarrow> [GatewayError c err]
      | ServerCloses url \<Rightarrow> [GatewayReply c url, WsOpen w, WsClose w])"

definition failRound :: "rtEnv \<Rightarrow> attemptFailure \<Rightarrow> client \<Rightarrow> client" where
  "failRound E f s =
     (case rc_reconnectTimer s of
        None \<Rightarrow> s
      | Some t \<Rightarrow> rtRun E (Fire t # failInputs f (rc_nextCall s) (rc_nextSocket s)) s)"

lemma getDeviceId_keeps:
  obtains device d n where "getDeviceId E s = (device, s\<lparr>rc_deviceId := d, rc_draws := n\<rparr>)"
proof -
  have "\<exists>device d n. getDeviceId E s = (device, s\<lparr>rc_deviceId := d, rc_draws := n\<rparr>)"
  proof -
    have same: "s = s\<lparr>rc_deviceId := rc_deviceId s, rc_draws := rc_draws s\<rparr>" by simp
    have draw: "s\<lparr>rc_draws := n\<rparr> = s\<lparr>rc_deviceId := rc_deviceId s, rc_draws := n\<rparr>" for n by simp
    show ?thesis unfolding getDeviceId_def Let_def by (metis same draw)
  qed
  with that show thesis by blast
qed

text \<open>What \<open>onOpen\<close> does on the socket the client has: the request, its timeout and its frame.\<close>

lemma onOpen_result:
  assumes "rc_ws s = Some w" and "stateOf w s = Some OPEN"
  shows "\<exists>device d n. onOpen E w s = s\<lparr>rc_authResolver := Some w, rc_authRejecter := Some w, rc_waiting := rc_waiting s @ [w],
      rc_seq := Suc (rc_seq s), rc_timers := (rc_timers s)(rc_nextTimer s \<mapsto> AuthT (Suc (rc_seq s)) w), rc_nextTimer := Suc (rc_nextTimer s),
      rc_pending := AList.update (Suc (rc_seq s)) \<lparr>pe_auth = w, pe_timer = rc_nextTimer s\<rparr> (rc_pending s), rc_deviceId := d, rc_draws := n,
      rc_log := rc_log s @ [Dispatch EvConnected, SetTimer (rc_nextTimer s) (AuthT (Suc (rc_seq s)) w) 10000,
        SendFrame w (Packet_new\<lparr>pk_cmd := Some (Command CMD_AUTH), pk_seq := Some (of_nat (Suc (rc_seq s))),
          pk_authReq := Some (AuthRequest_new\<lparr>aq_token := rc_token s, aq_deviceId := Some device\<rparr>)\<rparr>)]\<rparr>"
proof -
  let ?s3 = "s\<lparr>rc_authResolver := Some w, rc_authRejecter := Some w, rc_waiting := rc_waiting s @ [w],
      rc_seq := Suc (rc_seq s), rc_timers := (rc_timers s)(rc_nextTimer s \<mapsto> AuthT (Suc (rc_seq s)) w), rc_nextTimer := Suc (rc_nextTimer s),
      rc_log := rc_log s @ [Dispatch EvConnected, SetTimer (rc_nextTimer s) (AuthT (Suc (rc_seq s)) w) 10000],
      rc_pending := AList.update (Suc (rc_seq s)) \<lparr>pe_auth = w, pe_timer = rc_nextTimer s\<rparr> (rc_pending s)\<rparr>"
  obtain device d n where id: "getDeviceId E ?s3 = (device, ?s3\<lparr>rc_deviceId := d, rc_draws := n\<rparr>)"
    using getDeviceId_keeps by blast
  have "onOpen E w s = (case getDeviceId E ?s3 of (device, s4) \<Rightarrow>
      send (Packet_new\<lparr>pk_cmd := Some (Command CMD_AUTH), pk_seq := Some (of_nat (Suc (rc_seq s))),
        pk_authReq := Some (AuthRequest_new\<lparr>aq_token := rc_token s4, aq_deviceId := Some device\<rparr>)\<rparr>) s4)"
    by (simp add: onOpen_def sendAuth_def dispatch_def logAction_def nextSeq_def setTimer_def Let_def del: of_nat_Suc)
  then have "onOpen E w s = send (Packet_new\<lparr>pk_cmd := Some (Command CMD_AUTH), pk_seq := Some (of_nat (Suc (rc_seq s))),
        pk_authReq := Some (AuthRequest_new\<lparr>aq_token := rc_token s, aq_deviceId := Some device\<rparr>)\<rparr>)
      (?s3\<lparr>rc_deviceId := d, rc_draws := n\<rparr>)"
    unfolding id by simp
  then show ?thesis
    using assms by (intro exI [of _ device] exI [of _ d] exI [of _ n])
      (simp add: send_def isConnected_def stateOf_def logAction_def del: of_nat_Suc)
qed

text \<open>The socket that a call opens: it authenticates with the token the client has.\<close>

lemma open_step:
  fixes url :: jsstring
  assumes "rtReach E s" and "c \<in> set (rc_calls s)"
  defines "w \<equiv> rc_nextSocket s"
  defines "s2 \<equiv> rtStep E (WsOpen w) (rtStep E (GatewayReply c url) s)"
  shows "enabled (WsOpen w) (rtStep E (GatewayReply c url) s)" "rtReach E s2"
    and "rc_ws s2 = Some w" "stateOf w s2 = Some OPEN" "listening w s2"
    and "rc_closed s2 = rc_closed s" "rc_reconnectTimer s2 = rc_reconnectTimer s"
      "rc_reconnectAttempt s2 = rc_reconnectAttempt s" "reconnectDelays (rc_log s2) = reconnectDelays (rc_log s)"
    and "\<exists>as p a. rc_log s2 = rc_log s @ as @ [SendFrame w p] \<and> pk_cmd p = Some (Command CMD_AUTH) \<and>
           pk_authReq p = Some a \<and> aq_token a = rc_token s"
proof -
  let ?s1 = "rtStep E (GatewayReply c url) s"
  have s1: "?s1 = gatewayReply E c url s"
    using rtReach_reactions [OF assms(1)] by (simp add: rtStep_def gatewayReply_def logAction_def Let_def flush_idle)
  have new: "stateOf w ?s1 = Some CONNECTING" "listening w (setState w OPEN ?s1)"
    by (simp_all add: s1 gatewayReply_def logAction_def Let_def stateOf_def w_def listening_def setState_def updSocket_def)
  then show on: "enabled (WsOpen w) ?s1" by simp
  have r1: "rtReach E ?s1" by (rule rtReach.step [OF assms(1)]) (simp add: assms(2))
  from r1 on show "rtReach E s2" unfolding s2_def by (rule rtReach.step)
  define s0 where "s0 = setState w OPEN ?s1"
  have s0: "rc_ws s0 = Some w" "stateOf w s0 = Some OPEN" "listening w s0" "rc_reactions s0 = []"
    "rc_closed s0 = rc_closed s" "rc_reconnectTimer s0 = rc_reconnectTimer s" "rc_reconnectAttempt s0 = rc_reconnectAttempt s"
    "rc_token s0 = rc_token s" "\<exists>u. rc_log s0 = rc_log s @ [OpenSocket w u]"
    using rtReach_reactions [OF assms(1)]
    by (simp_all add: s0_def s1 gatewayReply_def logAction_def Let_def stateOf_def w_def listening_def setState_def updSocket_def)
  let ?p = "\<lambda>device. Packet_new\<lparr>pk_cmd := Some (Command CMD_AUTH), pk_seq := Some (of_nat (Suc (rc_seq s0))),
    pk_authReq := Some (AuthRequest_new\<lparr>aq_token := rc_token s, aq_deviceId := Some device\<rparr>)\<rparr>"
  obtain device d n where on_open: "onOpen E w s0 = s0\<lparr>rc_authResolver := Some w, rc_authRejecter := Some w, rc_waiting := rc_waiting s0 @ [w],
      rc_seq := Suc (rc_seq s0), rc_timers := (rc_timers s0)(rc_nextTimer s0 \<mapsto> AuthT (Suc (rc_seq s0)) w), rc_nextTimer := Suc (rc_nextTimer s0),
      rc_pending := AList.update (Suc (rc_seq s0)) \<lparr>pe_auth = w, pe_timer = rc_nextTimer s0\<rparr> (rc_pending s0), rc_deviceId := d, rc_draws := n,
      rc_log := rc_log s0 @ [Dispatch EvConnected, SetTimer (rc_nextTimer s0) (AuthT (Suc (rc_seq s0)) w) 10000, SendFrame w (?p device)]\<rparr>"
    using onOpen_result [OF s0(1,2)] s0(8) by metis
  have "s2 = onOpen E w s0"
    using new(2) s0(4) by (simp add: s2_def rtStep_def [of E "WsOpen w"] s0_def [symmetric] on_open flush_idle)
  then have s2: "s2 = onOpen E w s0" .
  show "rc_ws s2 = Some w" "stateOf w s2 = Some OPEN" "listening w s2"
    and "rc_closed s2 = rc_closed s" "rc_reconnectTimer s2 = rc_reconnectTimer s"
      "rc_reconnectAttempt s2 = rc_reconnectAttempt s" "reconnectDelays (rc_log s2) = reconnectDelays (rc_log s)"
    using s0 by (auto simp: s2 on_open stateOf_def listening_def)
  obtain u where "rc_log s0 = rc_log s @ [OpenSocket w u]" using s0(9) by blast
  then have "rc_log s2 = rc_log s @ [OpenSocket w u, Dispatch EvConnected,
      SetTimer (rc_nextTimer s0) (AuthT (Suc (rc_seq s0)) w) 10000] @ [SendFrame w (?p device)]"
    by (simp add: s2 on_open)
  then have "\<exists>as. rc_log s2 = rc_log s @ as @ [SendFrame w (?p device)]" by blast
  then show "\<exists>as p a. rc_log s2 = rc_log s @ as @ [SendFrame w p] \<and> pk_cmd p = Some (Command CMD_AUTH) \<and>
           pk_authReq p = Some a \<and> aq_token a = rc_token s"
    by (elim ex_forward) (intro exI [of _ "?p device"] exI [of _ "AuthRequest_new\<lparr>aq_token := rc_token s, aq_deviceId := Some device\<rparr>"],
       auto simp: Packet_new_def AuthRequest_new_def)
qed

lemma failRound_step:
  assumes "rtReach E s" and "\<not> rc_closed s" and "rc_reconnectTimer s \<noteq> None"
  shows "rtReach E (failRound E f s)"
    and "\<not> rc_closed (failRound E f s)"
    and "rc_reconnectTimer (failRound E f s) \<noteq> None"
    and "rc_reconnectAttempt (failRound E f s) = Suc (rc_reconnectAttempt s)"
    and "reconnectDelays (rc_log (failRound E f s)) =
         reconnectDelays (rc_log s) @ [reconnectDelay (rc_reconnectAttempt s)]"
proof -
  obtain t where timer: "rc_reconnectTimer s = Some t" using assms(3) by blast
  then have t: "rc_timers s t = Some ReconnectT"
    using rtReach_ok [OF assms(1)] by (simp add: rtOk_def timersOk_def names_def)
  let ?c = "rc_nextCall s" and ?w = "rc_nextSocket s"
  define s1 where "s1 = rtStep E (Fire t) s"
  have s1: "s1 = s\<lparr>rc_timers := (rc_timers s)(t := None), rc_reconnectTimer := None, rc_nextCall := ?c + 1,
      rc_userId := Some (case rc_token s of None \<Rightarrow> 0 | Some t \<Rightarrow> extractUserId E t), rc_calls := rc_calls s @ [?c]\<rparr>"
    using t assms(2) rtReach_reactions [OF assms(1)]
    by (simp add: s1_def rtStep_def fireTimer_def newCall_def doConnect_def clearTimer_def unset_def flush_idle)
  have r1: "rtReach E s1" unfolding s1_def by (rule rtReach.step [OF assms(1)]) (simp add: t)
  have call: "?c \<in> set (rc_calls s1)" by (simp add: s1)
  have "rtReach E (failRound E f s) \<and> \<not> rc_closed (failRound E f s) \<and> rc_reconnectTimer (failRound E f s) \<noteq> None \<and>
    rc_reconnectAttempt (failRound E f s) = Suc (rc_reconnectAttempt s) \<and>
    reconnectDelays (rc_log (failRound E f s)) = reconnectDelays (rc_log s) @ [reconnectDelay (rc_reconnectAttempt s)]"
  proof (cases f)
    case (GatewayFails err)
    then have f: "failRound E f s = rtStep E (GatewayError ?c err) s1"
      by (simp add: failRound_def timer failInputs_def rtRun_def s1_def)
    have "rtReach E (failRound E f s)" unfolding f by (rule rtReach.step [OF r1]) (simp add: call)
    then show ?thesis
      using assms(2) rtReach_reactions [OF assms(1)]
      by (simp add: f rtStep_def s1 gatewayError_def scheduleReconnect_def dispatch_def setTimer_def logAction_def flush_idle Let_def)
  next
    case (ServerCloses url)
    let ?s3 = "rtStep E (WsOpen ?w) (rtStep E (GatewayReply ?c url) s1)"
    have w: "rc_nextSocket s1 = ?w" by (simp add: s1)
    note s3 = open_step [OF r1 call, of url, unfolded w]
    let ?s0 = "cleanup ?w (setState ?w CLOSED ?s3)"
    have f: "failRound E f s = rtStep E (WsClose ?w) ?s3"
      by (simp add: ServerCloses failRound_def timer failInputs_def rtRun_def s1_def)
    have "rtReach E (failRound E f s)"
      unfolding f by (rule rtReach.step [OF s3(2)]) (simp add: s3(4))
    moreover obtain as where "failRound E f s = (handleDisconnect ?s0)\<lparr>rc_reactions := [], rc_log := rc_log (handleDisconnect ?s0) @ as\<rparr>"
      and "reconnectDelays as = []"
      using close_step [OF s3(2,5)] unfolding f by blast
    moreover have "\<not> rc_closed ?s0" "rc_reconnectTimer ?s0 = None" "rc_reconnectAttempt ?s0 = rc_reconnectAttempt s"
      "reconnectDelays (rc_log ?s0) = reconnectDelays (rc_log s)"
      using s3(6-9) assms(2) by (simp_all add: cleanup_def setState_def updSocket_def) (simp_all add: s1)
    ultimately show ?thesis
      using handleDisconnect_effect [of ?s0] by simp
  qed
  then show "rtReach E (failRound E f s)" "\<not> rc_closed (failRound E f s)" "rc_reconnectTimer (failRound E f s) \<noteq> None"
    "rc_reconnectAttempt (failRound E f s) = Suc (rc_reconnectAttempt s)"
    "reconnectDelays (rc_log (failRound E f s)) = reconnectDelays (rc_log s) @ [reconnectDelay (rc_reconnectAttempt s)]"
    by blast+
qed

text \<open>
  C11. The backoff goes on: an attempt that fails because the gateway call failed, or because the server
  closed the opened socket before it answered the authentication, is followed by the next one, for
  any sequence of such failures, and the delays double from one to the next up to thirty seconds.
  Other ways to fail are not covered; after a socket error no attempt follows.
\<close>

theorem backoff_never_ends:
  assumes "rtReach E s" and "\<not> rc_closed s" and "rc_reconnectTimer s \<noteq> None"
  shows "rc_reconnectTimer (fold (failRound E) fs s) \<noteq> None \<and>
         reconnectDelays (rc_log (fold (failRound E) fs s)) =
           reconnectDelays (rc_log s) @ map (\<lambda>i. min (1000 * 2 ^ (rc_reconnectAttempt s + i)) 30000) [0..<length fs]"
  using assms
proof (induction fs arbitrary: s)
  case Nil
  then show ?case by simp
next
  case (Cons f fs)
  have "map (\<lambda>i. min (1000 * 2 ^ (rc_reconnectAttempt s + i)) 30000) [0..<length (f # fs)] =
      reconnectDelay (rc_reconnectAttempt s) #
      map (\<lambda>i. min (1000 * 2 ^ (Suc (rc_reconnectAttempt s) + i)) 30000) [0..<length fs]"
    by (simp add: upt_conv_Cons map_Suc_upt [symmetric] reconnectDelay_def MAX_RECONNECT_DELAY_MS_def comp_def
        del: upt_Suc map_Suc_upt)
  with Cons.IH [OF failRound_step(1-3) [OF Cons.prems, of f]] failRound_step(4,5) [OF Cons.prems, of f]
  show ?case by simp
qed

theorem backoff_never_ends_witness:
  "reconnectDelays (rc_log (fold (failRound sampleEnv)
       [GatewayFails (js ''e''), ServerCloses (js ''ws://g''), GatewayFails (js ''e''), ServerCloses (js ''ws://g''),
        ServerCloses (js ''ws://g''), GatewayFails (js ''e'')] failedState)) =
     [1000, 2000, 4000, 8000, 16000, 30000, 30000]"
  using backoff_never_ends [OF failedState_reach, of "[GatewayFails (js ''e''), ServerCloses (js ''ws://g''),
      GatewayFails (js ''e''), ServerCloses (js ''ws://g''), ServerCloses (js ''ws://g''), GatewayFails (js ''e'')]"]
  by (simp add: failedState_fields upt_rec)

section \<open>Disconnecting\<close>

lemma disconnect_step:
  assumes "rtReach E s"
  obtains as where "rtStep E Disconnect s = (disconnect s)\<lparr>rc_reactions := [], rc_log := rc_log (disconnect s) @ as\<rparr>"
proof -
  have "rejections (js ''disconnected'') (disconnect s)"
    using rejectPending_reactions [of "clearTimers (s\<lparr>rc_closed := True\<rparr>)" "js ''disconnected''"] rtReach_reactions [OF assms]
    by (auto simp: rejections_def disconnect_def Let_def clearTimers_def stopHeartbeat_def clearTimer_def closeSocket_def
        updSocket_def split: option.splits)
  from flush_rejected [OF this not_token_error(2)] that show thesis by (auto simp: rtStep_def)
qed

lemma disconnect_effect:
  "rc_closed (disconnect s)" "rc_ws (disconnect s) = None" "rc_pending (disconnect s) = []"
  "rc_heartbeatTimer (disconnect s) = None" "rc_reconnectTimer (disconnect s) = None"
  "rc_heartbeatTimeoutTimer (disconnect s) = None"
  "rc_calls (disconnect s) = rc_calls s" "rc_token (disconnect s) = rc_token s"
  "rc_ws s = Some w \<Longrightarrow> stateOf w s \<noteq> None \<Longrightarrow> stateOf w (disconnect s) \<in> {Some CLOSING, Some CLOSED}"
  "rc_heartbeatTimeoutTimer s = Some t \<Longrightarrow> rc_timers (disconnect s) t = None"
proof -
  let ?c = "clearTimers (s\<lparr>rc_closed := True\<rparr>)"
  have c: "rc_closed ?c" "rc_ws ?c = rc_ws s" "rc_heartbeatTimer ?c = None" "rc_reconnectTimer ?c = None"
    "rc_heartbeatTimeoutTimer ?c = None" "rc_calls ?c = rc_calls s" "rc_token ?c = rc_token s" "rc_sockets ?c = rc_sockets s"
    "rc_heartbeatTimeoutTimer s = Some t \<Longrightarrow> rc_timers ?c t = None"
    by (simp_all add: clearTimers_def stopHeartbeat_def clearTimer_def unset_def Let_def split: option.split)
  note eff = rejectPending_keeps [where err = "js ''disconnected''" and s = ?c] c
  show "rc_closed (disconnect s)" "rc_ws (disconnect s) = None" "rc_pending (disconnect s) = []"
    "rc_heartbeatTimer (disconnect s) = None" "rc_reconnectTimer (disconnect s) = None"
    "rc_heartbeatTimeoutTimer (disconnect s) = None"
    "rc_calls (disconnect s) = rc_calls s" "rc_token (disconnect s) = rc_token s"
    by (simp_all add: disconnect_def Let_def eff clearTimer_def closeSocket_def updSocket_def split: option.split)
  show "stateOf w (disconnect s) \<in> {Some CLOSING, Some CLOSED}" if "rc_ws s = Some w" "stateOf w s \<noteq> None"
  proof -
    obtain k where "rc_sockets s w = Some k" using \<open>stateOf w s \<noteq> None\<close> by (auto simp: stateOf_def)
    then show ?thesis
      using \<open>rc_ws s = Some w\<close> by (cases "so_state k = CLOSED") 
        (simp_all add: disconnect_def Let_def eff clearTimer_def closeSocket_def updSocket_def stateOf_def)
  qed
  show "rc_timers (disconnect s) t = None" if "rc_heartbeatTimeoutTimer s = Some t"
    using rejectPending_keeps(13) [OF c(9) [OF that]]
    by (simp add: disconnect_def Let_def eff clearTimer_def unset_def closeSocket_def updSocket_def split: option.split)
qed

text \<open>
  C20. After \<open>disconnect\<close> the client is idle: it is closed, the socket it had is closing or closed and
  given up, there is no pending request and no unsettled authentication, and no reconnect, heartbeat
  or request timer is active. The heartbeat timeout the client knows of is cleared. One that a later
  heartbeat had overwritten may still be active, but when it fires nothing happens.
\<close>

theorem disconnect_stops:
  assumes "rtReach E s"
  shows "let s' = rtStep E Disconnect s in
           rc_closed s' \<and> rc_ws s' = None \<and> rc_pending s' = [] \<and> rc_waiting s' = [] \<and>
           (\<forall>w. rc_ws s = Some w \<longrightarrow> stateOf w s' \<in> {Some CLOSING, Some CLOSED}) \<and>
           rc_timers s' t \<in> {None, Some HeartbeatTimeoutT} \<and>
           (rc_heartbeatTimeoutTimer s = Some t \<longrightarrow> rc_timers s' t = None) \<and>
           rtStep E (Fire t) s' = s'\<lparr>rc_timers := (rc_timers s')(t := None)\<rparr>"
proof -
  let ?s' = "rtStep E Disconnect s" and ?d = "disconnect s"
  have reach: "rtReach E ?s'" using rtReach.step [OF assms, of Disconnect] by simp
  obtain as where eq: "?s' = ?d\<lparr>rc_reactions := [], rc_log := rc_log ?d @ as\<rparr>"
    using disconnect_step [OF assms] by blast
  have f: "rc_closed ?s'" "rc_ws ?s' = None" "rc_pending ?s' = []" "rc_heartbeatTimer ?s' = None" "rc_reconnectTimer ?s' = None"
    by (simp_all add: eq disconnect_effect)
  with rtReach_ok [OF reach] have "rc_waiting ?s' = []" "\<not> isAuth (rc_timers ?s' t)" "rc_timers ?s' t \<noteq> Some ReconnectT"
    "rc_timers ?s' t \<noteq> Some HeartbeatT"
    by (auto simp: rtOk_def pendingOk_def timersOk_def names_def isAuth_def)
  then have idle: "rc_waiting ?s' = []" "rc_timers ?s' t \<in> {None, Some HeartbeatTimeoutT}"
    by (cases "rc_timers ?s' t"; cases "the (rc_timers ?s' t)"; auto)+
  then have "rtStep E (Fire t) ?s' = ?s'\<lparr>rc_timers := (rc_timers ?s')(t := None)\<rparr>"
    using f(2) rtReach_reactions [OF reach]
    by (auto simp: rtStep_def [of E "Fire t"] fireTimer_def clearTimer_def unset_def flush_idle fun_upd_idem)
  moreover have "stateOf w ?s' \<in> {Some CLOSING, Some CLOSED}" if "rc_ws s = Some w" for w
    using disconnect_effect(9) [OF that] rtReach_ok [OF assms] that by (auto simp: eq stateOf_def rtOk_def socketsOk_def)
  moreover have "rc_heartbeatTimeoutTimer s = Some t \<longrightarrow> rc_timers ?s' t = None"
    by (simp add: eq disconnect_effect(10))
  ultimately show ?thesis
    using f idle by (simp add: Let_def)
qed

theorem disconnect_stops_witness:
  "rc_closed (rtStep sampleEnv Disconnect openedState) \<and> rc_waiting (rtStep sampleEnv Disconnect openedState) = [] \<and>
   stateOf 0 (rtStep sampleEnv Disconnect openedState) \<in> {Some CLOSING, Some CLOSED}"
  using disconnect_stops [OF openedState_reach] by (simp add: Let_def openedState_def)

text \<open>
  C31. A socket error ends the connection for good: \<open>onError\<close> removes the listeners, \<open>close\<close> included, so
  \<open>handleDisconnect\<close> does not run; the step marks the socket, rejects the promise and does no more. No
  reconnect is scheduled, the heartbeat goes on, \<open>ws\<close> keeps the dead socket, and the page is not told.
\<close>

theorem socket_error_is_final:
  assumes "rtReach E s" and "enabled (WsFail w) s" and "listening w s"
  shows "rtStep E (WsFail w) s =
    logAction (Reject (callOf w s) (js ''websocket error''))
      (updSocket w (\<lambda>k. k\<lparr>so_state := CLOSED, so_listening := False\<rparr>) s)"
proof -
  obtain k where "rc_sockets s w = Some k" "so_listening k"
    using assms(3) by (auto simp: listening_def split: option.splits)
  then have "handle E (WsFail w) s = logAction (Reject (callOf w s) (js ''websocket error''))
      (updSocket w (\<lambda>k. k\<lparr>so_state := CLOSED, so_listening := False\<rparr>) s)"
    by (simp add: Let_def setState_def listening_def onError_def cleanup_def updSocket_def logAction_def callOf_def)
  then show ?thesis
    using rtReach_reactions [OF assms(1)] by (simp add: rtStep_def logAction_def updSocket_def flush_idle)
qed

theorem socket_error_is_final_witness:
  "let s = rtStep sampleEnv (WsFail 0) openedState in
     rc_reconnectTimer s = None \<and> rc_ws s = Some 0 \<and> rc_log s = rc_log openedState @ [Reject 0 (js ''websocket error'')]"
proof -
  have "enabled (WsFail 0) openedState" "listening 0 openedState"
    by (simp_all add: openedState_def stateOf_def listening_def)
  from socket_error_is_final [OF openedState_reach this] show ?thesis
    by (simp add: Let_def openedState_def logAction_def updSocket_def callOf_def)
qed

text \<open>
  C32. \<open>disconnect\<close> does not stop a \<open>doConnect\<close> that waits for the gateway: whenever a call is waiting
  and the page disconnects, the answer of the gateway can still arrive, the client, though closed, opens
  the socket, and once it is open sends the authentication with its token on it.
\<close>

theorem closed_client_connects:
  assumes "rtReach E s" and "c \<in> set (rc_calls s)"
  shows "let s1 = rtStep E Disconnect s; w = rc_nextSocket s1; s2 = rtStep E (GatewayReply c url) s1; s3 = rtStep E (WsOpen w) s2
         in enabled (GatewayReply c url) s1 \<and> enabled (WsOpen w) s2 \<and>
            rc_closed s3 \<and> rc_ws s3 = Some w \<and> stateOf w s3 = Some OPEN \<and>
            (\<exists>as p a. rc_log s3 = rc_log s1 @ as @ [SendFrame w p] \<and> pk_cmd p = Some (Command CMD_AUTH) \<and>
               pk_authReq p = Some a \<and> aq_token a = rc_token s)"
proof -
  let ?s1 = "rtStep E Disconnect s"
  obtain as where eq: "?s1 = (disconnect s)\<lparr>rc_reactions := [], rc_log := rc_log (disconnect s) @ as\<rparr>"
    using disconnect_step [OF assms(1)] by blast
  have s1: "rc_closed ?s1" "rc_token ?s1 = rc_token s" "c \<in> set (rc_calls ?s1)"
    using assms(2) by (simp_all add: eq disconnect_effect)
  have "rtReach E ?s1" using rtReach.step [OF assms(1), of Disconnect] by simp
  from open_step [OF this s1(3), of url] s1 show ?thesis
    unfolding Let_def by simp
qed

theorem closed_client_connects_witness:
  "\<exists>s1 s3 w as p a. s1 = rtStep sampleEnv Disconnect (rtStep sampleEnv (Connect (js ''t'')) newClient) \<and>
     s3 = rtStep sampleEnv (WsOpen w) (rtStep sampleEnv (GatewayReply 0 (js ''ws://g'')) s1) \<and>
     rc_closed s3 \<and> rc_log s3 = rc_log s1 @ as @ [SendFrame w p] \<and> pk_authReq p = Some a \<and> aq_token a = Some (js ''t'')"
proof -
  let ?s = "rtStep sampleEnv (Connect (js ''t'')) newClient"
  have "rtReach sampleEnv ?s"
    by (rule rtReach.step [OF rtReach.start]) simp
  moreover have "0 \<in> set (rc_calls ?s)" "rc_token ?s = Some (js ''t'')"
    by (simp_all add: rt_eval)
  ultimately show ?thesis
    using closed_client_connects [of sampleEnv ?s 0 "js ''ws://g''"] unfolding Let_def by metis
qed

end
