(* ===== verification/Realtime_Wire.thy ===== *)
theory Realtime_Wire
  imports Realtime_Properties
begin

text \<open>
  The realtime client with the codec under it: what the page is told when the bytes of a push arrive,
  what a peer decodes from the bytes of a text the page sends, and which message the automatic
  acknowledgement names.
\<close>

section \<open>Decoded fields\<close>

text \<open>Text without a leading byte order mark survives the encoder and the decoder.\<close>

lemma utf8_text: "wellFormed text \<Longrightarrow> text = [] \<or> hd text \<noteq> 65279 \<Longrightarrow> TextDecoder_decode (TextEncoder_encode text) = text"
  using TextDecoder_inverts_TextEncoder [of "text"] by auto

lemma fields_norm:
  "numInt64 (withoutDefault (\<lambda>v. v \<noteq> 0) x) = numInt64 x"
  "numUint64 (withoutDefault (\<lambda>v. v \<noteq> 0) x) = numUint64 x"
  "numInt32 (withoutDefault (\<lambda>v. v \<noteq> 0) y) = numInt32 y"
  "strField (withoutDefault (\<lambda>v. v \<noteq> []) z) = strField z"
  "(case withoutDefault (\<lambda>v. v \<noteq> []) b of None \<Rightarrow> [] | Some c \<Rightarrow> c) = (case b of None \<Rightarrow> [] | Some c \<Rightarrow> c)"
  "(case withoutDefault (\<lambda>v. v \<noteq> []) us of None \<Rightarrow> [] | Some xs \<Rightarrow> map f xs) = (case us of None \<Rightarrow> [] | Some xs \<Rightarrow> map f xs)"
  by (cases x; cases y; cases z; cases b; cases us;
      simp add: withoutDefault_def numInt64_def numUint64_def numInt32_def strField_def roundDouble_def roundNat_def)+

lemma messageOf_norm: "messageOf (MessagePush_norm n) = messageOf n"
  by (simp add: messageOf_def MessagePush_norm_def fields_norm)

definition pushPacket :: "messagePush \<Rightarrow> packet" where
  "pushPacket n = Packet_new\<lparr>pk_cmd := Some (Command CMD_NOTIFY), pk_notify := Some n\<rparr>"

lemma pushPacket_norm:
  "Packet_norm (pushPacket n) = Packet_new\<lparr>pk_cmd := Some (Command CMD_NOTIFY), pk_notify := Some (MessagePush_norm n)\<rparr>"
  by (simp add: Packet_norm_def lastPayload_last Packet_only_def pushPacket_def Packet_new_def withoutDefault_def)

lemma pushPacket_ok: "MessagePush_ok n \<Longrightarrow> Packet_ok (pushPacket n)"
  by (simp add: Packet_ok_def pushPacket_def Packet_new_def)

text \<open>The acknowledgement of a push, with the number \<open>q\<close>.\<close>

definition ackPacket :: "rtEnv \<Rightarrow> nat \<Rightarrow> messagePush \<Rightarrow> packet" where
  "ackPacket E q n =
     Packet_new\<lparr>pk_cmd := Some (Command CMD_ACK), pk_seq := Some (of_nat q),
       pk_ackReq := Some (AckRequest_new\<lparr>ak_msgId := Some (toLong (en_rt E) (JNum (numInt64 (pu_msgId n)))),
         ak_topic := Some (strField (pu_topic n)), ak_topicSeq := Some (toLong (en_rt E) (JNum (numUint64 (pu_topicSeq n))))\<rparr>)\<rparr>"

lemma handlePacket_push:
  assumes "map_of (rc_pending s) 0 = None" and "rc_ws s = Some w" and "isConnected s"
  shows "handlePacket E (Packet_norm (pushPacket n)) s =
    s\<lparr>rc_seq := Suc (rc_seq s),
      rc_log := rc_log s @ [Dispatch (EvMessage (messageOf n)), SendFrame w (ackPacket E (Suc (rc_seq s)) n)]\<rparr>"
proof -
  have cmd: "cmdIs (Packet_norm (pushPacket n)) c \<longleftrightarrow> c = CMD_NOTIFY" for c
    by (cases c) (simp_all add: cmdIs_def pushPacket_norm numInt32_def Packet_new_def)
  have seq: "nat (numUint64 (pk_seq (Packet_norm (pushPacket n)))) = 0"
    by (simp add: pushPacket_norm numUint64_def Packet_new_def)
  have "pu_msgId (MessagePush_norm n) = withoutDefault (\<lambda>v. v \<noteq> 0) (pu_msgId n)"
    "pu_topic (MessagePush_norm n) = withoutDefault (\<lambda>v. v \<noteq> []) (pu_topic n)"
    "pu_topicSeq (MessagePush_norm n) = withoutDefault (\<lambda>v. v \<noteq> 0) (pu_topicSeq n)"
    by (simp_all add: MessagePush_norm_def)
  then have "handleNotify E (MessagePush_norm n) s = s\<lparr>rc_seq := Suc (rc_seq s),
      rc_log := rc_log s @ [Dispatch (EvMessage (messageOf n)), SendFrame w (ackPacket E (Suc (rc_seq s)) n)]\<rparr>"
    using assms(2,3)
    by (simp add: handleNotify_def sendAck_def sendNext_def nextSeq_def send_def dispatch_def logAction_def isConnected_def
        stateOf_def messageOf_norm fields_norm ackPacket_def Let_def del: of_nat_Suc)
  then show ?thesis
    unfolding handlePacket_def cmd seq assms(1) option.case by (simp add: pushPacket_norm Packet_new_def)
qed

lemma rtReach_pending_zero: "rtReach E s \<Longrightarrow> map_of (rc_pending s) 0 = None"
  using rtReach_ok [of E s] by (fastforce simp: rtOk_def pendingOk_def dest: map_of_SomeD intro: ccontr)

section \<open>Pushes\<close>

lemma push_step:
  assumes "wire_runtime (en_rt E)" and "rtReach E s" and "rc_ws s = Some w" and "stateOf w s = Some OPEN" and "listening w s"
    and "Packet_encode (en_rt E) 0 (pushPacket n) = Inr b" and "length b < 2 ^ 32" and "MessagePush_ok n"
  shows "rtStep E (WsData w b) s = s\<lparr>rc_seq := Suc (rc_seq s),
      rc_log := rc_log s @ [Dispatch (EvMessage (messageOf n)), SendFrame w (ackPacket E (Suc (rc_seq s)) n)]\<rparr>"
proof -
  have "Packet_decode (en_rt E) 0 None (length b) b = Inr (Packet_norm (pushPacket n), [])"
    using wire_runtime.Packet_survives [OF assms(1) pushPacket_ok [OF assms(8)]] assms(6,7) by simp
  then show ?thesis
    using handlePacket_push [OF rtReach_pending_zero [OF assms(2)] assms(3)] rtReach_reactions [OF assms(2)] assms(3-5)
    by (simp add: rtStep_def handleMessage_def isConnected_def flush_idle)
qed

lemma push_content:
  assumes "pu_content n = Some (TextEncoder_encode text)" and "wellFormed text" and "text = [] \<or> hd text \<noteq> 65279"
  shows "rm_content (messageOf n) = text"
  using utf8_text [OF assms(2,3)] assms(1) by (simp add: messageOf_def)

text \<open>
  C16. A push that arrives is delivered: the bytes of any push packet on the open connection make the
  client hand the page exactly one message, with the text the sender typed (well-formed text without a
  leading byte order mark), and answer with exactly one acknowledgement for the topic of the push. The
  acknowledgement carries the id of the message rounded to a double, which is the id itself up to \<open>2 ^ 53\<close>.
\<close>

theorem push_delivered:
  assumes "wire_runtime (en_rt E)" and "rtReach E s" and "rc_ws s = Some w" and "stateOf w s = Some OPEN" and "listening w s"
    and "Packet_encode (en_rt E) 0 (pushPacket n) = Inr b" and "length b < 2 ^ 32" and "MessagePush_ok n"
    and "pu_content n = Some (TextEncoder_encode text)" and "wellFormed text" and "text = [] \<or> hd text \<noteq> 65279"
    and "pu_msgId n = Some i"
  shows "\<exists>p a. rc_log (rtStep E (WsData w b) s) = rc_log s @ [Dispatch (EvMessage (messageOf n)), SendFrame w p] \<and>
           rm_content (messageOf n) = text \<and>
           pk_ackReq p = Some a \<and> ak_topic a = Some (strField (pu_topic n)) \<and>
           ak_msgId a = Some (word_of_int (roundDouble (sint i))) \<and> (safe (sint i) \<longrightarrow> ak_msgId a = Some i)"
  using push_step [OF assms(1-8)] push_content [OF assms(9-11)] wire_runtime.to_long(1) [OF assms(1)] assms(12)
  by (simp add: ackPacket_def numInt64_def Packet_new_def AckRequest_new_def)

definition samplePush :: messagePush where
  "samplePush = MessagePush_new\<lparr>pu_msgId := Some 5, pu_topic := Some (js ''t''),
     pu_content := Some (TextEncoder_encode (js ''hi'')), pu_topicSeq := Some 1\<rparr>"

lemma varint_two: "128 \<le> n \<Longrightarrow> n < 16384 \<Longrightarrow> varint n = [of_nat (n mod 128 + 128), of_nat (n div 128)]"
  by (subst varint.simps) (simp add: varint_small)

lemma samplePush_bytes:
  "\<exists>b. Packet_encode pbRuntime 0 (pushPacket samplePush) = Inr b \<and> length b < 2 ^ 32"
  by (simp add: Packet_encode_def encodeMessage_def pushPacket_def Packet_new_def samplePush_def MessagePush_new_def pb_simps
      optional_def nested_def MessagePush_encode_def delimited_def js_def TextEncoder_encode_def utf8Bytes_def packedInt64_def
      varint_two)

theorem push_delivered_witness:
  "\<exists>b p a. rc_log (rtStep sampleEnv (WsData 0 b) openedState) =
       rc_log openedState @ [Dispatch (EvMessage (messageOf samplePush)), SendFrame 0 p] \<and>
     rm_content (messageOf samplePush) = js ''hi'' \<and> pk_ackReq p = Some a \<and> ak_msgId a = Some 5"
proof -
  obtain b where b: "Packet_encode pbRuntime 0 (pushPacket samplePush) = Inr b" "length b < 2 ^ 32"
    using samplePush_bytes by blast
  have "wire_runtime (en_rt sampleEnv)"
    using pb.wire_runtime_axioms by (simp add: sampleEnv_def)
  moreover have "rc_ws openedState = Some 0" "stateOf 0 openedState = Some OPEN" "listening 0 openedState"
    by (simp_all add: openedState_def stateOf_def listening_def)
  moreover have "Packet_encode (en_rt sampleEnv) 0 (pushPacket samplePush) = Inr b"
    using b(1) by (simp add: sampleEnv_def)
  moreover have "MessagePush_ok samplePush" "pu_content samplePush = Some (TextEncoder_encode (js ''hi''))"
    "wellFormed (js ''hi'')" "js ''hi'' = [] \<or> hd (js ''hi'') \<noteq> 65279" "pu_msgId samplePush = Some 5"
    by (simp_all add: samplePush_def MessagePush_new_def MessagePush_ok_def js_def)
  moreover have safe_five: "safe (sint (5 :: 64 word))" by simp
  ultimately show ?thesis
    using push_delivered [OF _ openedState_reach, of 0 samplePush b "js ''hi''" 5] b(2) safe_five by blast
qed

section \<open>Rounded ids\<close>

lemma bitLen_le: "0 < n \<Longrightarrow> 2 ^ (bitLen n - 1) \<le> n"
proof (induction n rule: bitLen.induct)
  case (1 n)
  show ?case
  proof (cases "n div 2 = 0")
    case True
    with 1 show ?thesis by (simp add: bitLen.simps [of n] bitLen.simps [of 0])
  next
    case False
    then have "bitLen n - 1 = Suc (bitLen (n div 2) - 1)"
      using 1 by (simp add: bitLen.simps [of n] bitLen.simps [of "n div 2"])
    then show ?thesis using 1 False by simp
  qed
qed

text \<open>Between \<open>2 ^ (k - 1)\<close> and \<open>2 ^ k\<close> the doubles are the multiples of \<open>2 ^ (k - 53)\<close>.\<close>

lemma roundNat_gap:
  assumes "2 ^ 53 < n"
  shows "roundNat n = n \<longleftrightarrow> 2 ^ (bitLen n - 53) dvd n" and "roundNat n \<le> 2 * n"
proof -
  let ?g = "2 ^ (bitLen n - 53) :: nat"
  have "?g \<le> 2 ^ (bitLen n - 1)" by (rule power_increasing) simp_all
  also have "\<dots> \<le> n" using assms by (intro bitLen_le) simp
  finally have g: "?g \<le> n" .
  have round: "roundNat n = (if n mod ?g > 2 ^ (bitLen n - 53 - 1) \<or> n mod ?g = 2 ^ (bitLen n - 53 - 1) \<and> odd (n div ?g)
      then n div ?g + 1 else n div ?g) * ?g"
    using assms by (simp add: roundNat_def Let_def)
  then have "?g dvd roundNat n" by simp
  moreover have "roundNat n = n" if "?g dvd n"
    using that by (simp add: round)
  ultimately show "roundNat n = n \<longleftrightarrow> ?g dvd n" by metis
  have "roundNat n \<le> (n div ?g + 1) * ?g" unfolding round by simp
  also have "\<dots> \<le> n + ?g" using div_times_less_eq_dividend [of n ?g] by simp
  finally show "roundNat n \<le> 2 * n" using g by simp
qed

lemma rounded_id:
  fixes i :: "64 word"
  assumes "2 ^ 53 < sint i"
  shows "word_of_int (roundDouble (sint i)) = i \<longleftrightarrow> 2 ^ (bitLen (nat (sint i)) - 53) dvd nat (sint i)"
proof -
  let ?n = "nat (sint i)"
  have n: "2 ^ 53 < ?n" "sint i = int ?n" using assms by auto
  have "sint i < 2 ^ 63" using sint_lt [of i] by simp
  then have small: "?n < 2 ^ 63" using assms by (simp add: nat_less_iff)
  with roundNat_gap(2) [OF n(1)] have "int (roundNat ?n) < 2 ^ 64" by simp
  have inj: "(word_of_int a :: 64 word) = word_of_int b \<longleftrightarrow> a = b" if "0 \<le> a" "a < 2 ^ 64" "0 \<le> b" "b < 2 ^ 64" for a b :: int
    using that by (simp add: word_of_int_eq_iff take_bit_int_eq_self)
  have large: "int ?n < 2 ^ 64" using \<open>sint i < 2 ^ 63\<close> assms by simp
  have "roundDouble (sint i) = int (roundNat ?n)" using assms by (simp add: roundDouble_def)
  then have "word_of_int (roundDouble (sint i)) = i \<longleftrightarrow> (word_of_int (int (roundNat ?n)) :: 64 word) = word_of_int (int ?n)"
    using n(2) by (metis scast_id scast_eq)
  also have "\<dots> \<longleftrightarrow> roundNat ?n = ?n"
    using inj [of "int (roundNat ?n)" "int ?n"] \<open>int (roundNat ?n) < 2 ^ 64\<close> large by (metis of_nat_0_le_iff of_nat_eq_iff)
  finally show ?thesis using roundNat_gap(1) [OF n(1)] by simp
qed

text \<open>
  C33. The ids of the server are 63-bit numbers, and \<open>Number(n.msgId)\<close> is not exact above \<open>2 ^ 53\<close>: there
  the acknowledgement names the message of the push exactly when its id, of \<open>k\<close> bits, is a multiple
  of \<open>2 ^ (k - 53)\<close>, the distance of the doubles of that size. Every other id is acknowledged as
  the id of another message.
\<close>

theorem ack_names_other_message:
  assumes "wire_runtime (en_rt E)" and "rc_ws s = Some w" and "isConnected s" and "pu_msgId n = Some i" and "2 ^ 53 < sint i"
  shows "\<exists>p a. rc_log (handleNotify E n s) = rc_log s @ [Dispatch (EvMessage (messageOf n)), SendFrame w p] \<and>
           pk_ackReq p = Some a \<and>
           (ak_msgId a = Some i \<longleftrightarrow> 2 ^ (bitLen (nat (sint i)) - 53) dvd nat (sint i))"
  using wire_runtime.to_long(1) [OF assms(1)] assms(2-4) rounded_id [OF assms(5)]
  by (simp add: handleNotify_def sendAck_def sendNext_def nextSeq_def send_def dispatch_def logAction_def isConnected_def
      stateOf_def Let_def numInt64_def Packet_new_def AckRequest_new_def del: of_nat_Suc)

theorem ack_names_other_message_witness:
  "\<exists>n p a. pu_msgId n = Some 9007199254740993 \<and>
     rc_log (handleNotify sampleEnv n openedState) =
       rc_log openedState @ [Dispatch (EvMessage (messageOf n)), SendFrame 0 p] \<and>
     pk_ackReq p = Some a \<and> ak_msgId a \<noteq> Some 9007199254740993"
proof -
  let ?n = "samplePush\<lparr>pu_msgId := Some 9007199254740993\<rparr>"
  have h: "wire_runtime (en_rt sampleEnv)" "rc_ws openedState = Some 0" "isConnected openedState"
    "pu_msgId ?n = Some 9007199254740993" "2 ^ 53 < sint (9007199254740993 :: 64 word)"
    using pb.wire_runtime_axioms by (simp_all add: sampleEnv_def openedState_def isConnected_def stateOf_def)
  have "\<not> 2 ^ (bitLen (nat (sint (9007199254740993 :: 64 word))) - 53) dvd nat (sint (9007199254740993 :: 64 word))"
    by (simp add: bitLen.simps)
  with ack_names_other_message [OF h] h(4) show ?thesis by blast
qed

section \<open>Sending text\<close>

text \<open>
  C9. What the user types reaches the server: on an open connection \<open>sendText\<close> reports success and
  sends one frame, whose bytes decode to a publish request with the topic, the client id, the
  mentioned users and the text; without a connection it reports failure and sends nothing.
\<close>

theorem sendText_arrives:
  assumes "wire_runtime (en_rt E)" and "wellFormed topic" and "wellFormed cid" and "wellFormed text"
    and "text = [] \<or> hd text \<noteq> 65279"
  shows "if isConnected s
         then \<exists>w p b. sendText topic text cid ids s = (True, s\<lparr>rc_seq := Suc (rc_seq s), rc_log := rc_log s @ [SendFrame w p]\<rparr>) \<and>
                rc_ws s = Some w \<and> Packet_encode (en_rt E) 0 p = Inr b \<and>
                (length b < 2 ^ 32 \<longrightarrow>
                 (\<exists>p' r. Packet_decode (en_rt E) 0 None (length b) b = Inr (p', []) \<and>
                    cmdIs p' CMD_PUBLISH \<and> pk_sendReq p' = Some r \<and> strField (sq_topic r) = topic \<and>
                    strField (sq_clientMsgId r) = cid \<and> numInt32 (sq_msgType r) = 1 \<and>
                    sq_mentionedUserIds r = (if ids = Some [] then None else ids) \<and>
                    TextDecoder_decode (case sq_content r of None \<Rightarrow> [] | Some c \<Rightarrow> c) = text))
         else sendText topic text cid ids s = (False, s\<lparr>rc_seq := Suc (rc_seq s)\<rparr>)"
proof (cases "isConnected s")
  case False
  then show ?thesis
    by (auto simp: sendText_def sendMessage_rt_def sendNext_def nextSeq_def send_def isConnected_def stateOf_def Let_def
        split: option.splits)
next
  case True
  then obtain w where w: "rc_ws s = Some w" "stateOf w s = Some OPEN"
    by (auto simp: isConnected_def split: option.splits)
  define r where "r = SendMessageRequest_new\<lparr>sq_topic := Some topic, sq_msgType := Some 1,
    sq_content := Some (TextEncoder_encode text), sq_clientMsgId := Some cid, sq_mentionedUserIds := ids\<rparr>"
  define p where "p = Packet_new\<lparr>pk_cmd := Some (Command CMD_PUBLISH), pk_seq := Some (of_nat (Suc (rc_seq s))), pk_sendReq := Some r\<rparr>"
  have sent: "sendText topic text cid ids s = (True, s\<lparr>rc_seq := Suc (rc_seq s), rc_log := rc_log s @ [SendFrame w p]\<rparr>)"
    using w by (simp add: sendText_def sendMessage_rt_def sendNext_def nextSeq_def send_def isConnected_def stateOf_def
        logAction_def Let_def p_def r_def del: of_nat_Suc)
  have ok: "Packet_ok p"
    using assms(2,3) by (simp add: p_def r_def Packet_ok_def Packet_new_def SendMessageRequest_new_def SendMessageRequest_ok_def)
  have norm: "cmdIs (Packet_norm p) CMD_PUBLISH" "pk_sendReq (Packet_norm p) = Some (SendMessageRequest_norm r)"
    by (simp_all add: Packet_norm_def lastPayload_last Packet_only_def p_def Packet_new_def cmdIs_def withoutDefault_def numInt32_def)
  have fields: "strField (sq_topic (SendMessageRequest_norm r)) = topic" "strField (sq_clientMsgId (SendMessageRequest_norm r)) = cid"
    "numInt32 (sq_msgType (SendMessageRequest_norm r)) = 1"
    "sq_mentionedUserIds (SendMessageRequest_norm r) = (if ids = Some [] then None else ids)"
    "TextDecoder_decode (case sq_content (SendMessageRequest_norm r) of None \<Rightarrow> [] | Some c \<Rightarrow> c) = text"
    using utf8_text [OF assms(4,5)]
    by (simp_all add: SendMessageRequest_norm_def r_def SendMessageRequest_new_def fields_norm strField_def numInt32_def)
      (auto simp: withoutDefault_def split: option.splits)
  obtain b where b: "Packet_encode (en_rt E) 0 p = Inr b"
    "length b < 2 ^ 32 \<longrightarrow> Packet_decode (en_rt E) 0 None (length b) b = Inr (Packet_norm p, [])"
    using wire_runtime.Packet_survives [OF assms(1) ok] by blast
  show ?thesis
    unfolding if_P [OF True] using sent w(1) b norm fields by blast
qed

theorem sendText_arrives_witness:
  "\<exists>w p b. sendText (js ''t'') (js ''hi'') (js ''c'') None openedState =
       (True, openedState\<lparr>rc_seq := 2, rc_log := rc_log openedState @ [SendFrame w p]\<rparr>) \<and>
     Packet_encode pbRuntime 0 p = Inr b"
proof -
  have "wire_runtime (en_rt sampleEnv)" "wellFormed (js ''t'')" "wellFormed (js ''c'')" "wellFormed (js ''hi'')"
    "js ''hi'' = [] \<or> hd (js ''hi'') \<noteq> 65279"
    using pb.wire_runtime_axioms by (simp_all add: sampleEnv_def js_def)
  from sendText_arrives [OF this, of openedState None]
  have "\<exists>w p b. sendText (js ''t'') (js ''hi'') (js ''c'') None openedState =
       (True, openedState\<lparr>rc_seq := Suc (rc_seq openedState), rc_log := rc_log openedState @ [SendFrame w p]\<rparr>) \<and>
     Packet_encode (en_rt sampleEnv) 0 p = Inr b"
    by (simp add: isConnected_def stateOf_def openedState_def) blast
  then show ?thesis by (simp add: openedState_def sampleEnv_def numeral_2_eq_2)
qed

end
