(* ===== verification/Realtime_Session.thy ===== *)
theory Realtime_Session
  imports Realtime_Wire
begin

text \<open>
  What the realtime client keeps over a session: the token is refreshed at most once per \<open>connect\<close>,
  every authentication carries the same device id, and the heartbeat notices a dead connection. Most
  operations do not touch what the first two are about (\<open>sessionView\<close>).
\<close>

section \<open>The session\<close>

fun devices :: "action list \<Rightarrow> jsstring option list" where
  "devices [] = []"
| "devices (SendFrame w p # as) = (case pk_authReq p of None \<Rightarrow> [] | Some r \<Rightarrow> [aq_deviceId r]) @ devices as"
| "devices (_ # as) = devices as"

definition sessionView :: "client \<Rightarrow> bool \<times> nat list \<times> jsstring option \<times> jsstring option list" where
  "sessionView s = (rc_didTokenRefresh s, rc_refreshing s, rc_deviceId s, devices (rc_log s))"

named_theorems session_same \<open>operations that leave the session alone\<close>

lemma devices_append [simp]: "devices (as @ bs) = devices as @ devices bs"
  by (induction as rule: devices.induct) auto

lemma session_log [session_same]:
  "sessionView (logAction (Reject c err) s) = sessionView s" "sessionView (logAction (Resolve c) s) = sessionView s"
  "sessionView (logAction ForceReLogin s) = sessionView s" "sessionView (dispatch e s) = sessionView s"
  "sessionView (setTimer kind d s) = sessionView s" "sessionView (clearTimer t s) = sessionView s"
  "sessionView (settle k r s) = sessionView s" "sessionView (updSocket w f s) = sessionView s"
  "sessionView (setState w x s) = sessionView s" "sessionView (cleanup w s) = sessionView s"
  "sessionView (closeSocket w s) = sessionView s"
  by (simp_all add: sessionView_def logAction_def dispatch_def setTimer_def clearTimer_def settle_def updSocket_def
      setState_def cleanup_def closeSocket_def)

lemma session_fields [session_same]:
  "sessionView (s\<lparr>rc_ws := a\<rparr>) = sessionView s" "sessionView (s\<lparr>rc_token := b\<rparr>) = sessionView s"
  "sessionView (s\<lparr>rc_userId := c\<rparr>) = sessionView s" "sessionView (s\<lparr>rc_seq := d\<rparr>) = sessionView s"
  "sessionView (s\<lparr>rc_pending := e\<rparr>) = sessionView s" "sessionView (s\<lparr>rc_heartbeatTimer := f\<rparr>) = sessionView s"
  "sessionView (s\<lparr>rc_heartbeatTimeoutTimer := f\<rparr>) = sessionView s" "sessionView (s\<lparr>rc_reconnectTimer := f\<rparr>) = sessionView s"
  "sessionView (s\<lparr>rc_reconnectAttempt := d\<rparr>) = sessionView s" "sessionView (s\<lparr>rc_closed := g\<rparr>) = sessionView s"
  "sessionView (s\<lparr>rc_authResolver := f\<rparr>) = sessionView s" "sessionView (s\<lparr>rc_authRejecter := f\<rparr>) = sessionView s"
  "sessionView (s\<lparr>rc_calls := h\<rparr>) = sessionView s" "sessionView (s\<lparr>rc_nextCall := d\<rparr>) = sessionView s"
  "sessionView (s\<lparr>rc_waiting := h\<rparr>) = sessionView s" "sessionView (s\<lparr>rc_reactions := i\<rparr>) = sessionView s"
  "sessionView (s\<lparr>rc_sockets := j\<rparr>) = sessionView s" "sessionView (s\<lparr>rc_nextSocket := d\<rparr>) = sessionView s"
  by (simp_all add: sessionView_def)

lemma session_rejectPending [session_same]: "sessionView (rejectPending err s) = sessionView s"
proof -
  have "sessionView (fold (\<lambda>(q, p) s. settle (pe_auth p) (Some err) (clearTimer (Some (pe_timer p)) s)) ps s) = sessionView s"
    for ps :: "(nat \<times> pendingEntry) list" and s
    by (induction ps arbitrary: s) (simp_all add: split_beta session_same)
  then show ?thesis by (simp add: rejectPending_def Let_def session_same split: option.split)
qed

lemma session_timers [session_same]:
  "sessionView (stopHeartbeat s) = sessionView s" "sessionView (startHeartbeat s) = sessionView s"
  "sessionView (handleHeartbeatAck s) = sessionView s" "sessionView (clearTimers s) = sessionView s"
  "sessionView (scheduleReconnect s) = sessionView s" "sessionView (handleDisconnect s) = sessionView s"
  "sessionView (onClose w s) = sessionView s" "sessionView (onError w s) = sessionView s"
  by (simp_all add: stopHeartbeat_def startHeartbeat_def handleHeartbeatAck_def clearTimers_def scheduleReconnect_def
      handleDisconnect_def onClose_def onError_def Let_def session_same)

lemma session_connect [session_same]:
  "sessionView (doConnect E c s) = sessionView s" "sessionView (newCall E s) = sessionView s"
  "sessionView (disconnect s) = sessionView s" "sessionView (gatewayError c err s) = sessionView s"
  "sessionView (gatewayBadUrl c err s) = sessionView s"
  by (simp_all add: doConnect_def newCall_def disconnect_def gatewayError_def gatewayBadUrl_def Let_def session_same
      split: option.split)

lemma session_gatewayReply [session_same]: "sessionView (gatewayReply E c url s) = sessionView s"
  by (simp add: sessionView_def gatewayReply_def Let_def logAction_def)

lemma session_sendNext:
  "\<forall>p. pk_authReq (fill p) = pk_authReq p \<Longrightarrow> sessionView (sendNext cmd fill s) = sessionView s"
  by (simp add: sessionView_def sendNext_def nextSeq_def send_def logAction_def Packet_new_def Let_def split: option.split)

lemma session_senders [session_same]:
  "sessionView (snd (sendMessage_rt topic msgType data cid ids s)) = sessionView s"
  "sessionView (pullMessages_rt E topic lastSeq limit s) = sessionView s"
  "sessionView (sendReadReceipt E topic upTo s) = sessionView s"
  "sessionView (recallMessage_rt E topic topicSeq msgId s) = sessionView s"
  "sessionView (sendAck E i topic q s) = sessionView s"
  "sessionView (heartbeatTick s) = sessionView s"
  by (simp_all add: sendMessage_rt_def pullMessages_rt_def sendReadReceipt_def recallMessage_rt_def sendAck_def
      heartbeatTick_def session_sendNext session_same Let_def)

lemma session_receive [session_same]: "sessionView (handleMessage E data s) = sessionView s"
  by (simp add: handleMessage_def handlePacket_def handleAuthResp_def handlePending_def handleNotify_def session_same Let_def
      split: sum.split option.split prod.split)

lemma session_fireTimer [session_same]: "sessionView (fireTimer E t k s) = sessionView s"
  by (simp add: fireTimer_def session_same Let_def split: timerKind.split option.split)

text \<open>The inputs that do touch it: \<open>connect\<close>, an open socket, the end of a refresh.\<close>

fun touches :: "rtInput \<Rightarrow> bool" where
  "touches (Connect _) = True"
| "touches (WsOpen _) = True"
| "touches (RefreshOk _ _) = True"
| "touches (RefreshError _ _) = True"
| "touches _ = False"

lemma session_handle: "\<not> touches i \<Longrightarrow> sessionView (handle E i s) = sessionView s"
  by (cases i) (simp_all add: session_same Let_def split: option.split)

lemma session_react:
  "sessionView (react r s) =
     (case r of
        (w, None) \<Rightarrow> sessionView s
      | (w, Some err) \<Rightarrow>
          if \<not> rc_didTokenRefresh s \<and> isTokenError err
          then (True, rc_refreshing s @ [callOf w s], rc_deviceId s, devices (rc_log s))
          else sessionView s)"
proof -
  have "sessionView (t\<lparr>rc_didTokenRefresh := x, rc_refreshing := y\<rparr>) = (x, y, rc_deviceId t, devices (rc_log t))" for t x y
    by (simp add: sessionView_def)
  moreover have "sessionView (t\<lparr>rc_refreshing := y\<rparr>) = (rc_didTokenRefresh t, y, rc_deviceId t, devices (rc_log t))" for t y
    by (simp add: sessionView_def)
  moreover have "rc_didTokenRefresh (closeSocket w (cleanup w t)) = rc_didTokenRefresh t"
    "rc_deviceId (closeSocket w (cleanup w t)) = rc_deviceId t" "rc_log (closeSocket w (cleanup w t)) = rc_log t" for w t
    by (simp_all add: closeSocket_def cleanup_def updSocket_def)
  ultimately show ?thesis
    by (auto simp: react_def session_same split: prod.split option.split)
qed

section \<open>Token refresh\<close>

fun isConnect :: "rtInput \<Rightarrow> bool" where
  "isConnect (Connect _) = True"
| "isConnect _ = False"

definition refreshed :: "nat list \<Rightarrow> client \<Rightarrow> bool" where
  "refreshed cs s \<longleftrightarrow> rc_didTokenRefresh s \<and> set (rc_refreshing s) \<subseteq> set cs"

lemma refreshed_view: "sessionView s' = sessionView s \<Longrightarrow> refreshed cs s' = refreshed cs s"
  by (simp add: refreshed_def sessionView_def)

lemma refreshed_react: "refreshed cs s \<Longrightarrow> refreshed cs (react r s)"
proof -
  assume ok: "refreshed cs s"
  then have "sessionView (react r s) = sessionView s"
    unfolding session_react by (auto simp: refreshed_def split: prod.split option.split)
  with ok show ?thesis using refreshed_view by blast
qed

lemma refreshed_flush: "refreshed cs s \<Longrightarrow> refreshed cs (flush s)"
proof -
  have "refreshed cs s \<Longrightarrow> refreshed cs (fold react rs s)" for rs s
    by (induction rs arbitrary: s) (simp_all add: refreshed_react)
  then show "refreshed cs s \<Longrightarrow> refreshed cs (flush s)"
    by (simp add: flush_def refreshed_def)
qed

text \<open>What \<open>sendAuth\<close> does to the session.\<close>

lemma session_sendAuth:
  "sessionView (sendAuth E w s) =
     (rc_didTokenRefresh s, rc_refreshing s, rc_deviceId (snd (getDeviceId E s)),
      devices (rc_log s) @ (if isConnected s then [Some (fst (getDeviceId E s))] else []))"
proof -
  let ?s1 = "nextSeq (s\<lparr>rc_authResolver := Some w, rc_authRejecter := Some w, rc_waiting := rc_waiting s @ [w]\<rparr>)"
  let ?s2 = "setTimer (AuthT (rc_seq ?s1) w) 10000 ?s1"
  let ?s3 = "?s2\<lparr>rc_pending := AList.update (rc_seq ?s1) \<lparr>pe_auth = w, pe_timer = rc_nextTimer ?s1\<rparr> (rc_pending ?s2)\<rparr>"
  have "fst (getDeviceId E ?s3) = fst (getDeviceId E s)" "rc_deviceId (snd (getDeviceId E ?s3)) = rc_deviceId (snd (getDeviceId E s))"
    "rc_ws (snd (getDeviceId E ?s3)) = rc_ws s" "rc_sockets (snd (getDeviceId E ?s3)) = rc_sockets s"
    "devices (rc_log (snd (getDeviceId E ?s3))) = devices (rc_log s)" "rc_didTokenRefresh (snd (getDeviceId E ?s3)) = rc_didTokenRefresh s"
    "rc_refreshing (snd (getDeviceId E ?s3)) = rc_refreshing s"
    by (simp_all add: getDeviceId_def Let_def nextSeq_def setTimer_def logAction_def)
  then show ?thesis
    by (simp add: sendAuth_def Let_def split_beta sessionView_def send_def isConnected_def stateOf_def logAction_def
        AuthRequest_new_def split: option.split)
qed

lemma refreshed_handle: "refreshed cs s \<Longrightarrow> \<not> isConnect i \<Longrightarrow> refreshed cs (handle E i s)"
proof (cases "touches i")
  case False
  then show "refreshed cs s \<Longrightarrow> refreshed cs (handle E i s)"
    by (simp add: refreshed_view [OF session_handle])
next
  case True
  assume ok: "refreshed cs s" and "\<not> isConnect i"
  with True consider w where "i = WsOpen w" | c t where "i = RefreshOk c t" | c e where "i = RefreshError c e"
    by (cases i) auto
  then show ?thesis
  proof cases
    case 1
    let ?s = "dispatch EvConnected (setState w OPEN s)"
    have same: "sessionView ?s = sessionView s" "sessionView (setState w OPEN s) = sessionView s"
      by (simp_all add: session_same)
    have "refreshed cs (sendAuth E w ?s) = refreshed cs ?s"
      using session_sendAuth [of E w ?s] by (simp add: refreshed_def sessionView_def)
    then show ?thesis
      using ok 1 by (simp add: Let_def onOpen_def refreshed_view [OF same(1)] refreshed_view [OF same(2)])
  next
    case 2
    then show ?thesis
      using ok refreshed_view [OF session_connect(1)] by (auto simp: refreshOk_def refreshed_def)
  next
    case 3
    then show ?thesis
      using ok by (auto simp: refreshError_def refreshed_def logAction_def)
  qed
qed



section \<open>Device id\<close>

definition oneDevice :: "client \<Rightarrow> bool" where
  "oneDevice s \<longleftrightarrow> (\<forall>d \<in> set (devices (rc_log s)). d = rc_deviceId s) \<and> (devices (rc_log s) \<noteq> [] \<longrightarrow> strTruthy (rc_deviceId s))"

lemma oneDevice_view: "snd (snd (sessionView s')) = snd (snd (sessionView s)) \<Longrightarrow> oneDevice s' = oneDevice s"
  by (simp add: oneDevice_def sessionView_def)

lemma oneDevice_react: "oneDevice (react r s) = oneDevice s"
  by (rule oneDevice_view, unfold session_react) (auto simp: sessionView_def split: prod.split option.split)

lemma oneDevice_flush: "oneDevice (flush s) = oneDevice s"
proof -
  have "oneDevice (fold react rs s) = oneDevice s" for rs s
    by (induction rs arbitrary: s) (simp_all add: oneDevice_react)
  then show ?thesis by (simp add: flush_def oneDevice_def)
qed

lemma oneDevice_sendAuth:
  assumes "en_getItem E" and "en_setItem E" and ok: "oneDevice s"
  shows "oneDevice (sendAuth E w s)"
proof -
  have dev: "rc_deviceId (snd (getDeviceId E s)) = Some (fst (getDeviceId E s))" "fst (getDeviceId E s) \<noteq> []"
    and keep: "strTruthy (rc_deviceId s) \<Longrightarrow> rc_deviceId (snd (getDeviceId E s)) = rc_deviceId s"
    using assms by (auto simp: getDeviceId_def Let_def strTruthy_def js_def split: option.splits)
  show ?thesis
  proof (cases "strTruthy (rc_deviceId s)")
    case True
    then show ?thesis
      using ok dev keep session_sendAuth [of E w s] by (auto simp: oneDevice_def sessionView_def split: if_splits)
  next
    case False
    then show ?thesis
      using ok dev session_sendAuth [of E w s] by (auto simp: oneDevice_def sessionView_def strTruthy_def split: if_splits)
  qed
qed

lemma oneDevice_handle:
  assumes "en_getItem E" and "en_setItem E" and "oneDevice s"
  shows "oneDevice (handle E i s)"
proof (cases "touches i")
  case False
  then have "oneDevice (handle E i s) = oneDevice s" by (intro oneDevice_view) (simp add: session_handle)
  with assms(3) show ?thesis by simp
next
  case True
  then consider t where "i = Connect t" | w where "i = WsOpen w" | c t where "i = RefreshOk c t" | c e where "i = RefreshError c e"
    by (cases i) auto
  then show ?thesis
  proof cases
    case 1
    have "oneDevice (newCall E t) = oneDevice t" for t by (rule oneDevice_view) (simp add: session_same)
    then show ?thesis using 1 assms(3) by (simp add: connect_def) (simp add: oneDevice_def logAction_def)
  next
    case 2
    have "oneDevice (dispatch EvConnected (setState w OPEN s)) = oneDevice s" "oneDevice (setState w OPEN s) = oneDevice s"
      by (rule oneDevice_view, simp add: session_same)+
    then show ?thesis
      using 2 assms by (simp add: Let_def onOpen_def oneDevice_sendAuth)
  next
    case 3
    have "oneDevice (doConnect E c t) = oneDevice t" for t by (rule oneDevice_view) (simp add: session_same)
    then show ?thesis using 3 assms(3) by (simp add: refreshOk_def) (simp add: oneDevice_def)
  next
    case 4
    then show ?thesis using assms(3) by (simp add: refreshError_def oneDevice_def logAction_def)
  qed
qed

text \<open>
  A tab is one device: as long as the session storage works, all authentications the client ever
  sends carry the same device id, the one in the storage, over all reconnects.
\<close>

theorem auth_same_device:
  assumes "rtReach E s" and "en_getItem E" and "en_setItem E"
    and "SendFrame w p \<in> set (rc_log s)" and "pk_authReq p = Some r"
  shows "aq_deviceId r = rc_deviceId s"
proof -
  have "oneDevice s"
    using assms(1)
  proof (induction rule: rtReach.induct)
    case start
    show ?case by (simp add: oneDevice_def newClient_def)
  next
    case (step s i)
    then show ?case using assms(2,3) by (simp add: rtStep_def oneDevice_flush oneDevice_handle)
  qed
  moreover have "SendFrame w p \<in> set as \<Longrightarrow> aq_deviceId r \<in> set (devices as)" for as
    using assms(5) by (induction as rule: devices.induct) auto
  ultimately show ?thesis using assms(4) by (auto simp: oneDevice_def)
qed

theorem auth_same_device_witness:
  "\<exists>p r. SendFrame 0 p \<in> set (rc_log openedState) \<and> pk_authReq p = Some r \<and> aq_deviceId r = Some (js ''web-u'')"
proof -
  let ?r = "AuthRequest_new\<lparr>aq_token := Some (js ''t''), aq_deviceId := Some (js ''web-u'')\<rparr>"
  let ?p = "Packet_new\<lparr>pk_cmd := Some 2, pk_seq := Some 1, pk_authReq := Some ?r\<rparr>"
  have "en_getItem sampleEnv" "en_setItem sampleEnv" "SendFrame 0 ?p \<in> set (rc_log openedState)" "pk_authReq ?p = Some ?r"
    by (simp_all add: sampleEnv_def openedState_def)
  from this auth_same_device [OF openedState_reach this] show ?thesis
    by (auto simp: openedState_def)
qed

section \<open>Authentication\<close>

definition authReply :: "64 word \<Rightarrow> bool \<Rightarrow> packet" where
  "authReply q success =
     Packet_new\<lparr>pk_cmd := Some (Command CMD_AUTH), pk_seq := Some q,
       pk_authResp := Some (AuthResponse_new\<lparr>ap_success := Some success\<rparr>)\<rparr>"

lemma authReply_norm: "pk_authResp (Packet_norm (authReply q success)) = Some (AuthResponse_new\<lparr>ap_success := (if success then Some True else None)\<rparr>)"
  and authReply_cmd: "cmdIs (Packet_norm (authReply q success)) c \<longleftrightarrow> c = CMD_AUTH"
  and authReply_ok: "Packet_ok (authReply q success)"
proof -
  show "pk_authResp (Packet_norm (authReply q success)) = Some (AuthResponse_new\<lparr>ap_success := (if success then Some True else None)\<rparr>)"
    and "Packet_ok (authReply q success)"
    by (simp_all add: Packet_norm_def lastPayload_last Packet_only_def authReply_def Packet_new_def AuthResponse_norm_def
        AuthResponse_new_def AuthResponse_ok_def Packet_ok_def withoutDefault_def)
  show "cmdIs (Packet_norm (authReply q success)) c \<longleftrightarrow> c = CMD_AUTH"
    by (cases c) (simp_all add: cmdIs_def numInt32_def Packet_norm_def lastPayload_last Packet_only_def authReply_def
        Packet_new_def withoutDefault_def)
qed

text \<open>
  C21. The answer to the authentication settles it: on success the heartbeat starts, the backoff is
  reset and the page is told; on refusal the client drops the connection and asks for a new token,
  unless it already did, then the promise of \<open>connect\<close> is rejected.
\<close>

theorem auth_answer:
  assumes "wire_runtime (en_rt E)" and "rtReach E s" and "stateOf w s = Some OPEN" and "listening w s"
    and "rc_authResolver s = Some k" and "k \<in> set (rc_waiting s)"
    and "Packet_encode (en_rt E) 0 (authReply q success) = Inr b" and "length b < 2 ^ 32"
  shows "let s' = rtStep E (WsData w b) s in
           k \<notin> set (rc_waiting s') \<and> rc_authResolver s' = None \<and>
           (if success then
              rc_heartbeatTimer s' = Some (rc_nextTimer s) \<and> rc_reconnectAttempt s' = 0 \<and>
              rc_log s' = rc_log s @ [SetTimer (rc_nextTimer s) HeartbeatT HEARTBEAT_INTERVAL_MS, Dispatch EvAuthed, Resolve (callOf k s)]
            else if rc_didTokenRefresh s then rc_log s' = rc_log s @ [Reject (callOf k s) (js ''auth failed'')]
            else rc_ws s' = None \<and> rc_refreshing s' = rc_refreshing s @ [callOf k s] \<and> \<not> listening k s')"
proof -
  have "Packet_decode (en_rt E) 0 None (length b) b = Inr (Packet_norm (authReply q success), [])"
    using wire_runtime.Packet_survives [OF assms(1) authReply_ok [of q success]] assms(7,8) by simp
  then have step: "rtStep E (WsData w b) s =
      flush (handleAuthResp (AuthResponse_new\<lparr>ap_success := (if success then Some True else None)\<rparr>) s)"
    using assms(4) by (simp add: rtStep_def handleMessage_def handlePacket_def authReply_norm authReply_cmd)
  have rej: "rc_authRejecter s = Some k"
    using rtReach_ok [OF assms(2)] assms(5) by (simp add: rtOk_def)
  show ?thesis
    using assms(5,6) rej rtReach_reactions [OF assms(2)]
    by (simp add: Let_def step handleAuthResp_def settle_def flush_def react_def startHeartbeat_def stopHeartbeat_def
        setTimer_def clearTimer_def logAction_def dispatch_def callOf_def closeSocket_def cleanup_def updSocket_def
        listening_def AuthResponse_new_def split: option.split)
qed

definition authBytes :: bytes where
  "authBytes = [8, 2, 16, 1, 90, 2, 8, 1]"

lemma authBytes_encode: "Packet_encode pbRuntime 0 (authReply 1 True) = Inr authBytes"
  by (simp add: Packet_encode_def encodeMessage_def authReply_def Packet_new_def AuthResponse_new_def pb_simps
      optional_def nested_def AuthResponse_encode_def delimited_def authBytes_def)

lemma sampleEnv_runtime: "wire_runtime (en_rt sampleEnv)"
  using pb.wire_runtime_axioms by (simp add: sampleEnv_def)

lemma openedState_socket: "stateOf 0 openedState = Some OPEN" "listening 0 openedState"
  by (simp_all add: openedState_def stateOf_def listening_def)

theorem auth_answer_witness:
  "let s = rtStep sampleEnv (WsData 0 authBytes) openedState in
     rc_heartbeatTimer s = Some 1 \<and>
     rc_log s = rc_log openedState @ [SetTimer 1 HeartbeatT HEARTBEAT_INTERVAL_MS, Dispatch EvAuthed, Resolve 0]"
proof -
  have "rc_authResolver openedState = Some 0" "0 \<in> set (rc_waiting openedState)"
    "Packet_encode (en_rt sampleEnv) 0 (authReply 1 True) = Inr authBytes" "length authBytes < 2 ^ 32"
    "rc_nextTimer openedState = 1" "callOf 0 openedState = 0"
    by (simp_all add: openedState_def authBytes_encode sampleEnv_def callOf_def) (simp add: authBytes_def)
  then show ?thesis
    using auth_answer [OF sampleEnv_runtime openedState_reach openedState_socket, of 0 1 True authBytes] by (simp add: Let_def)
qed

section \<open>Heartbeat\<close>

text \<open>
  A dead connection is noticed: each heartbeat sends one frame and starts a ten second timeout,
  which closes the socket if it fires; an answer of the server clears it.
\<close>

theorem heartbeat_closes_dead_socket:
  assumes "rtReach E s" and "rc_heartbeatTimer s = Some h" and "rc_ws s = Some w" and "stateOf w s = Some OPEN"
  shows "let s1 = rtStep E (Fire h) s; t = rc_nextTimer s in
           (\<exists>p. cmdIs p CMD_HEARTBEAT \<and>
                rc_log s1 = rc_log s @ [SendFrame w p, SetTimer t HeartbeatTimeoutT HEARTBEAT_TIMEOUT_MS]) \<and>
           rc_timers s1 t = Some HeartbeatTimeoutT \<and> rc_timers s1 h = Some HeartbeatT \<and>
           stateOf w (rtStep E (Fire t) s1) = Some CLOSING \<and>
           rc_timers (handleHeartbeatAck s1) t = None"
proof -
  have h: "rc_timers s h = Some HeartbeatT" and new: "rc_timers s (rc_nextTimer s) = None"
    using rtReach_ok [OF assms(1)] assms(2) by (simp_all add: rtOk_def timersOk_def names_def)
  then have ne: "h \<noteq> rc_nextTimer s" by auto
  let ?p = "Packet_new\<lparr>pk_cmd := Some (Command CMD_HEARTBEAT), pk_seq := Some (of_nat (Suc (rc_seq s)))\<rparr>"
  have s1: "rtStep E (Fire h) s = s\<lparr>rc_seq := Suc (rc_seq s), rc_timers := (rc_timers s)(rc_nextTimer s \<mapsto> HeartbeatTimeoutT),
      rc_nextTimer := Suc (rc_nextTimer s), rc_heartbeatTimeoutTimer := Some (rc_nextTimer s),
      rc_log := rc_log s @ [SendFrame w ?p, SetTimer (rc_nextTimer s) HeartbeatTimeoutT HEARTBEAT_TIMEOUT_MS]\<rparr>"
    using h assms(3,4) rtReach_reactions [OF assms(1)]
    by (simp add: rtStep_def fireTimer_def heartbeatTick_def sendNext_def send_def nextSeq_def isConnected_def stateOf_def
        setTimer_def logAction_def flush_idle Let_def del: of_nat_Suc)
  have "cmdIs ?p CMD_HEARTBEAT" by (simp add: cmdIs_def numInt32_def Packet_new_def)
  moreover have "stateOf w (rtStep E (Fire (rc_nextTimer s)) (rtStep E (Fire h) s)) = Some CLOSING"
  proof -
    obtain k where "rc_sockets s w = Some k" "so_state k = OPEN"
      using assms(4) by (auto simp: stateOf_def)
    then show ?thesis
      using assms(3) rtReach_reactions [OF assms(1)]
      by (simp add: rtStep_def [of E "Fire (rc_nextTimer s)"] s1 fireTimer_def clearTimer_def closeSocket_def updSocket_def
          stateOf_def flush_idle Let_def)
  qed
  ultimately show ?thesis
    using h ne by (auto simp: Let_def s1 handleHeartbeatAck_def clearTimer_def unset_def)
qed

text \<open>The client after a successful authentication.\<close>

lemma authedState_step:
  "rtStep sampleEnv (WsData 0 authBytes) openedState =
     openedState\<lparr>rc_authResolver := None, rc_authRejecter := None, rc_waiting := [], rc_heartbeatTimer := Some 1,
       rc_timers := [0 \<mapsto> AuthT 1 0, 1 \<mapsto> HeartbeatT], rc_nextTimer := 2,
       rc_log := rc_log openedState @ [SetTimer 1 HeartbeatT HEARTBEAT_INTERVAL_MS, Dispatch EvAuthed, Resolve 0]\<rparr>"
proof -
  have "Packet_decode pbRuntime 0 None (length authBytes) authBytes = Inr (Packet_norm (authReply 1 True), [])"
    using wire_runtime.Packet_survives [OF pb.wire_runtime_axioms authReply_ok [of 1 True]] authBytes_encode
    by (simp add: authBytes_def)
  moreover have "en_rt sampleEnv = pbRuntime" by (simp add: sampleEnv_def)
  ultimately have "rtStep sampleEnv (WsData 0 authBytes) openedState =
      flush (handleAuthResp (AuthResponse_new\<lparr>ap_success := Some True\<rparr>) openedState)"
    using openedState_socket(2) by (simp add: rtStep_def handleMessage_def handlePacket_def authReply_norm authReply_cmd)
  then show ?thesis
    by (simp add: handleAuthResp_def AuthResponse_new_def openedState_def rt_defs numeral_2_eq_2)
qed

theorem heartbeat_closes_dead_socket_witness:
  "let s = rtStep sampleEnv (WsData 0 authBytes) openedState; s1 = rtStep sampleEnv (Fire 1) s
   in rc_timers s1 2 = Some HeartbeatTimeoutT \<and> stateOf 0 (rtStep sampleEnv (Fire 2) s1) = Some CLOSING"
proof -
  let ?s = "rtStep sampleEnv (WsData 0 authBytes) openedState"
  have "rtReach sampleEnv ?s"
    by (rule rtReach.step [OF openedState_reach]) (simp add: openedState_socket)
  moreover have "rc_heartbeatTimer ?s = Some 1" "rc_ws ?s = Some 0" "stateOf 0 ?s = Some OPEN" "rc_nextTimer ?s = 2"
    by (simp_all add: authedState_step stateOf_def) (simp_all add: openedState_def)
  ultimately show ?thesis
    using heartbeat_closes_dead_socket [of sampleEnv ?s 1 0] by (simp add: Let_def)
qed

end
