(* ===== verification/Handlers.thy ===== *)
theory Handlers
  imports Chat_Store Realtime_Wire
begin

text \<open>
  The realtime handlers of the page (\<^verbatim>\<open>web/app/hooks/useRealtime.ts\<close>): what each event of the realtime
  client does to the chat store. A handler returns the new store and what else it causes, in order
  (\<open>pageEffect\<close>): a refresh of the conversation list, a read receipt handed to the client, a toast, a
  console message. \<open>useChatStore.getState()\<close> is a snapshot: \<open>handleIncomingMessage\<close> reads the
  conversations from before its own \<open>appendMessage\<close>.
\<close>

section \<open>Definitions\<close>

datatype pageEffect =
    RefreshConversations
  | ReadReceipt jsstring jsnum
  | Toast jsstring jsstring
  | ConsoleError wireError

definition noPatch :: "jsstring \<Rightarrow> convPatch" where
  "noPatch topic =
     \<lparr>p_topic = topic, p_type = None, p_peerId = None, p_peerUsername = None, p_name = None,
      p_lastMsgPreview = None, p_lastMsgAt = None, p_lastSeq = None, p_lastReadSeq = None,
      p_unreadCount = None, p_messages = None, p_hasMore = None, p_isLoading = None\<rparr>"

definition noMsgPatch :: msgPatch where
  "noMsgPatch =
     \<lparr>mp_clientMsgId = None, mp_topic = None, mp_msgId = None, mp_topicSeq = None, mp_content = None,
      mp_msgType = None, mp_timestamp = None, mp_senderId = None, mp_status = None, mp_recalled = None\<rparr>"

definition myIdOf :: "user option \<Rightarrow> int" where
  "myIdOf currentUser = (case currentUser of None \<Rightarrow> 0 | Some u \<Rightarrow> Number (u_userId u))"

definition incomingMessage :: "realtimeMessage \<Rightarrow> int \<Rightarrow> chatMessage" where
  "incomingMessage detail myId =
     \<lparr>m_clientMsgId =
        (if rm_clientMsgId detail \<noteq> [] then rm_clientMsgId detail
         else showNum (JNum (rm_topicSeq detail)) @ js ''-'' @ showNum (JNum (rm_msgId detail))),
      m_msgId = Some (JNum (rm_msgId detail)),
      m_topic = rm_topic detail,
      m_senderId = JNum (rm_senderId detail),
      m_content = rm_content detail,
      m_msgType = Some (rm_msgType detail),
      m_timestamp = TNum (1000 * rm_timestamp detail),
      m_topicSeq = Some (JNum (rm_topicSeq detail)),
      m_status = (if rm_senderId detail = myId then Sent else Delivered),
      m_recalled = None\<rparr>"

text \<open>The toast of a mention: the sender, \<open>@\<close>, two CJK characters and the conversation in full-width parentheses.\<close>

definition mentionToast :: "realtimeMessage \<Rightarrow> conversation option \<Rightarrow> chatStore \<Rightarrow> pageEffect" where
  "mentionToast detail conv store =
     (let known = Option.bind (map_of (memberNames store) (rm_topic detail)) (\<lambda>names. map_of names (rm_senderId detail));
          senderName = (if strTruthy known then the known
                        else if strTruthy (map_option c_peerUsername conv) then c_peerUsername (the conv)
                        else js ''User '' @ showNum (JNum (rm_senderId detail)));
          convName = (if strTruthy (Option.bind conv c_name) then the (Option.bind conv c_name) else senderName)
      in Toast (senderName @ [32, 64, 20102, 20320, 65288] @ convName @ [65289])
           (if rm_msgType detail = 1 then take 60 (rm_content detail)
            else if rm_msgType detail = 2 then [91, 22270, 29255, 93]
            else [91, 25991, 20214, 93]))"

definition handleIncomingMessage ::
  "realtimeMessage \<Rightarrow> user option \<Rightarrow> chatStore \<Rightarrow> chatStore \<times> pageEffect list" where
  "handleIncomingMessage detail currentUser store =
     (let myId = myIdOf currentUser;
          topic = rm_topic detail;
          msg = incomingMessage detail myId;
          mentionsMe = (myId \<noteq> 0 \<and> myId \<in> set (rm_mentionedUserIds detail));
          isActive = (activeTopic store = Some topic);
          store1 = appendMessage topic msg store;
          conv = map_of (conversations store) topic;
          effects1 = (if \<not> strTruthy (map_option c_peerUsername conv) \<and> \<not> strTruthy (Option.bind conv c_name)
                      then [RefreshConversations] else []);
          (store2, effects2) =
            (if \<not> isActive then
               (case conv of
                  None \<Rightarrow> (store1, [])
                | Some c \<Rightarrow> (upsertConversation ((noPatch topic)\<lparr>p_unreadCount := Some (c_unreadCount c + 1)\<rparr>) store1, []))
             else (markTopicRead topic (JNum (rm_topicSeq detail)) store1, [ReadReceipt topic (JNum (rm_topicSeq detail))]));
          (store3, effects3) =
            (if mentionsMe \<and> rm_senderId detail \<noteq> myId
             then (if \<not> isActive then markTopicMentioned topic store2 else store2, [mentionToast detail conv store])
             else (store2, []))
      in (store3, effects1 @ effects2 @ effects3))"

definition onDeliveryReceipt :: "deliveryReceiptPayload \<Rightarrow> chatStore \<Rightarrow> chatStore" where
  "onDeliveryReceipt detail store =
     (case map_of (conversations store) (drp_topic detail) of
        None \<Rightarrow> store
      | Some conv \<Rightarrow>
          (case find (\<lambda>m. m_topicSeq m = Some (JNum (drp_topicSeq detail))) (c_messages conv) of
             None \<Rightarrow> store
           | Some msg \<Rightarrow>
               if m_status msg \<noteq> Read
               then updateMessageStatus (drp_topic detail) (m_clientMsgId msg) (noMsgPatch\<lparr>mp_status := Some Delivered\<rparr>) store
               else store))"

text \<open>The table of handlers, by event.\<close>

fun handlers :: "user option \<Rightarrow> realtimeEvent \<Rightarrow> chatStore \<Rightarrow> chatStore \<times> pageEffect list" where
  "handlers u EvConnected s = (updateConnectionState Connected s, [])"
| "handlers u EvAuthed s = (updateConnectionState Authed s, [])"
| "handlers u EvDisconnected s = (updateConnectionState Disconnected s, [])"
| "handlers u EvReconnecting s = (updateConnectionState Reconnecting s, [])"
| "handlers u (EvMessage detail) s = handleIncomingMessage detail u s"
| "handlers u (EvSendReceipt detail) s =
     (updateMessageStatus (srp_topic detail) (srp_clientMsgId detail)
        (noMsgPatch\<lparr>mp_msgId := Some (JNum (srp_msgId detail)), mp_topicSeq := Some (JNum (srp_topicSeq detail)),
           mp_status := Some Sent\<rparr>) s, [])"
| "handlers u (EvDeliveryReceipt detail) s = (onDeliveryReceipt detail s, [])"
| "handlers u (EvReadReceipt detail) s = (markTopicRead (rrp_topic detail) (JNum (rrp_upToSeq detail)) s, [])"
| "handlers u (EvRecall detail) s =
     (recallMessage (rcp_topic detail) (rcp_topicSeq detail) (Some (rcp_msgId detail)) s, [])"
| "handlers u (EvError err) s = (s, [ConsoleError err])"

text \<open>The effect of the hook: with a token the page connects, without it disconnects.\<close>

definition useRealtime_effect :: "rtEnv \<Rightarrow> jsstring option \<Rightarrow> client \<Rightarrow> chatStore \<Rightarrow> client \<times> chatStore" where
  "useRealtime_effect E token c s =
     (if strTruthy token then (rtStep E (Connect (the token)) c, updateConnectionState Connecting s)
      else (rtStep E Disconnect c, s))"

text \<open>The promise of \<open>connect\<close> settles, and the clean-up of the effect.\<close>

definition connectResolved :: "chatStore \<Rightarrow> chatStore" where
  "connectResolved s = updateConnectionState Authed s"

definition connectRejected :: "jsstring \<Rightarrow> chatStore \<Rightarrow> chatStore \<times> pageEffect list" where
  "connectRejected err s = (updateConnectionState Disconnected s, [Toast (js ''Connection failed: '' @ err) []])"

definition useRealtime_cleanup :: "rtEnv \<Rightarrow> client \<Rightarrow> client" where
  "useRealtime_cleanup E c = rtStep E Disconnect c"

text \<open>What the page does with what the client did: the events go to the handlers, in order.\<close>

fun showActions :: "user option \<Rightarrow> action list \<Rightarrow> chatStore \<Rightarrow> chatStore" where
  "showActions u [] s = s"
| "showActions u (Dispatch e # as) s = showActions u as (fst (handlers u e s))"
| "showActions u (_ # as) s = showActions u as s"

section \<open>Lemmas\<close>

lemma handleIncoming_store:
  "fst (handleIncomingMessage detail u store) =
     (let topic = rm_topic detail; store1 = appendMessage topic (incomingMessage detail (myIdOf u)) store;
          store2 = (if activeTopic store = Some topic then markTopicRead topic (JNum (rm_topicSeq detail)) store1
                    else case map_of (conversations store) topic of
                      None \<Rightarrow> store1
                    | Some c \<Rightarrow> upsertConversation ((noPatch topic)\<lparr>p_unreadCount := Some (c_unreadCount c + 1)\<rparr>) store1)
      in if myIdOf u \<noteq> 0 \<and> myIdOf u \<in> set (rm_mentionedUserIds detail) \<and> rm_senderId detail \<noteq> myIdOf u \<and>
            activeTopic store \<noteq> Some topic
         then markTopicMentioned topic store2 else store2)"
  by (cases "activeTopic store = Some (rm_topic detail)"; cases "map_of (conversations store) (rm_topic detail)")
    (simp_all add: handleIncomingMessage_def Let_def)

text \<open>What identifies and shows a message, apart from its status.\<close>

definition shown :: "chatMessage \<Rightarrow> jsstring \<times> jsnum option \<times> jsnum \<times> jsstring" where
  "shown m = (m_clientMsgId m, m_topicSeq m, m_senderId m, m_content m)"

lemma messagesOf_upsert_unread:
  "messagesOf (upsertConversation ((noPatch t)\<lparr>p_unreadCount := Some n\<rparr>) s) t' = messagesOf s t'"
  by (auto simp: upsertConversation_def noPatch_def mergeConv_def messagesOf_def ensureConversation_def Let_def
      split: option.splits)

lemma messagesOf_mentioned [simp]: "messagesOf (markTopicMentioned t s) t' = messagesOf s t'"
  by (simp add: markTopicMentioned_def messagesOf_def)

lemma messagesOf_append_other: "t' \<noteq> t \<Longrightarrow> messagesOf (appendMessage t m s) t' = messagesOf s t'"
  by (auto simp: appendMessage_def messagesOf_def ensureConversation_def Let_def split: option.splits)

lemma messagesOf_read:
  "map shown (messagesOf (markTopicRead t n s) t') = map shown (messagesOf s t')"
  by (auto simp: markTopicRead_def messagesOf_def shown_def readOne_def split: option.splits)

text \<open>The unread counter of a topic.\<close>

definition unreadOf :: "chatStore \<Rightarrow> jsstring \<Rightarrow> int option" where
  "unreadOf s t = map_option c_unreadCount (map_of (conversations s) t)"

lemma unreadOf_mentioned [simp]: "unreadOf (markTopicMentioned t s) t' = unreadOf s t'"
  by (simp add: markTopicMentioned_def unreadOf_def)

lemma unreadOf_upsert: "unreadOf (upsertConversation ((noPatch t)\<lparr>p_unreadCount := Some n\<rparr>) s) t = Some n"
  by (simp add: upsertConversation_def noPatch_def mergeConv_def unreadOf_def Let_def split_beta)

lemma unreadOf_append: "unreadOf (appendMessage t m s) t = Some (case unreadOf s t of None \<Rightarrow> 0 | Some n \<Rightarrow> n)"
  by (auto simp: appendMessage_def unreadOf_def ensureConversation_def Let_def split: option.splits)

lemma unreadOf_read: "unreadOf (markTopicRead t n s) t = map_option (\<lambda>_. 0) (unreadOf s t)"
  by (auto simp: markTopicRead_def unreadOf_def split: option.splits)

lemma handleIncoming_messages:
  "map shown (messagesOf (fst (handleIncomingMessage detail u s)) (rm_topic detail)) =
   map shown (messagesOf (appendMessage (rm_topic detail) (incomingMessage detail (myIdOf u)) s) (rm_topic detail))"
  by (simp add: handleIncoming_store messagesOf_read messagesOf_upsert_unread Let_def split: option.split)

lemma handleIncoming_unread:
  "unreadOf (fst (handleIncomingMessage detail u s)) (rm_topic detail) =
   Some (if activeTopic s = Some (rm_topic detail) then 0 else case unreadOf s (rm_topic detail) of None \<Rightarrow> 0 | Some n \<Rightarrow> n + 1)"
  by (cases "map_of (conversations s) (rm_topic detail)")
    (simp_all add: handleIncoming_store unreadOf_read unreadOf_upsert unreadOf_append unreadOf_def [of s] Let_def)

lemma sameMessage_shown:
  assumes "map shown ms = map shown ns"
  shows "list_ex (sameMessage m) ms = list_ex (sameMessage m) ns"
proof -
  have "sameMessage m x \<longleftrightarrow> (case shown x of (i, q, _) \<Rightarrow>
      i = m_clientMsgId m \<or> (seqOf m \<noteq> None \<and> q \<noteq> None \<and> map_option Number q = seqOf m))" for x
    by (simp add: sameMessage_def shown_def seqOf_def)
  then have "list_ex (sameMessage m) xs \<longleftrightarrow> list_ex (\<lambda>(i, q, _).
      i = m_clientMsgId m \<or> (seqOf m \<noteq> None \<and> q \<noteq> None \<and> map_option Number q = seqOf m)) (map shown xs)" for xs
    by (simp add: list_ex_iff)
  with assms show ?thesis by simp
qed

lemma findIndex_first:
  "P m \<Longrightarrow> \<forall>x \<in> set xs. \<not> P x \<Longrightarrow> findIndex P (xs @ m # ys) = Some (length xs)"
  by (induction xs) simp_all

text \<open>Messages are filed under their own topic, and which actions keep it so.\<close>

definition filed :: "chatStore \<Rightarrow> bool" where
  "filed s \<longleftrightarrow> (\<forall>t. \<forall>m \<in> set (messagesOf s t). m_topic m = t)"

lemma filed_cong: "(\<And>t. m_topic ` set (messagesOf s' t) \<subseteq> m_topic ` set (messagesOf s t)) \<Longrightarrow> filed s \<Longrightarrow> filed s'"
  unfolding filed_def by (metis image_iff subsetD)

lemma filed_append: "filed s \<Longrightarrow> m_topic m = t \<Longrightarrow> filed (appendMessage t m s)"
  unfolding filed_def
  by (metis (no_types, lifting) insert_iff messagesOf_append_other messagesOf_appendMessage set_insertBySeq)

lemma filed_unread: "filed s \<Longrightarrow> filed (upsertConversation ((noPatch t)\<lparr>p_unreadCount := Some n\<rparr>) s)"
  by (simp add: filed_def messagesOf_upsert_unread)

lemma filed_read: "filed s \<Longrightarrow> filed (markTopicRead t n s)"
  by (rule filed_cong) (auto simp: markTopicRead_def messagesOf_def readOne_def split: option.splits if_splits)

lemma filed_recall: "filed s \<Longrightarrow> filed (recallMessage t n i s)"
  by (rule filed_cong) (auto simp: recallMessage_def messagesOf_def recallOne_def split: option.splits if_splits)

lemma filed_status:
  assumes "mp_topic p = None" and ok: "filed s"
  shows "filed (updateMessageStatus t i p s)"
proof (rule filed_cong [OF _ ok])
  fix t'
  have "m_topic (mergeMsg m p) = m_topic m" for m
    using assms(1) by (simp add: mergeMsg_def)
  then show "m_topic ` set (messagesOf (updateMessageStatus t i p s) t') \<subseteq> m_topic ` set (messagesOf s t')"
    by (auto simp: findIndex_Some updateMessageStatus_def messagesOf_def split: option.splits dest!: set_update_subset_insert [THEN subsetD])
qed

lemma filed_other [simp]:
  "filed (updateConnectionState x s) = filed s" "filed (markTopicMentioned t s) = filed s"
  by (simp_all add: filed_def updateConnectionState_def messagesOf_def markTopicMentioned_def)

lemmas filed_intros = filed_append filed_unread filed_read filed_recall filed_status

lemmas storeOk_intros =
  dispatchAction_storeOk [where a = "UpsertConversation p" for p, simplified]
  dispatchAction_storeOk [where a = "AppendMessage t m" for t m, simplified]
  dispatchAction_storeOk [where a = "UpdateMessageStatus t i p" for t i p, simplified]
  dispatchAction_storeOk [where a = "RecallMessage t n i" for t n i, simplified]
  dispatchAction_storeOk [where a = "MarkTopicRead t n" for t n, simplified]
  dispatchAction_storeOk [where a = "UpdateConnectionState x" for x, simplified]
  dispatchAction_storeOk [where a = "MarkTopicMentioned t" for t, simplified]

lemma handleIncoming_keeps:
  "storeOk s \<Longrightarrow> storeOk (fst (handleIncomingMessage d u s))"
  "filed s \<Longrightarrow> filed (fst (handleIncomingMessage d u s))"
  by (auto simp: handleIncoming_store Let_def incomingMessage_def intro!: storeOk_intros filed_intros split: option.split)

section \<open>Properties\<close>

text \<open>
  C17. An incoming message is shown: it is inserted into its topic unless it is there already, no message
  of any other topic changes, and no message loses its identity, sender or content. In the open
  topic the unread counter is cleared and one read receipt is sent; in another known topic the
  counter grows by one, and no receipt is sent.
\<close>

theorem incoming_message_shown:
  fixes detail u s
  defines "t \<equiv> rm_topic detail" and "s' \<equiv> fst (handleIncomingMessage detail u s)"
    and "es \<equiv> snd (handleIncomingMessage detail u s)" and "msg \<equiv> incomingMessage detail (myIdOf u)"
  shows "map shown (messagesOf s' t) =
           map shown (if list_ex (sameMessage msg) (messagesOf s t) then messagesOf s t else insertBySeq (messagesOf s t) msg) \<and>
         (t' \<noteq> t \<longrightarrow> messagesOf s' t' = messagesOf s t') \<and>
         (if activeTopic s = Some t
          then unreadOf s' t = Some 0 \<and> filter (\<lambda>e. \<exists>x n. e = ReadReceipt x n) es = [ReadReceipt t (JNum (rm_topicSeq detail))]
          else unreadOf s' t = Some (case unreadOf s t of None \<Rightarrow> 0 | Some n \<Rightarrow> n + 1) \<and>
               filter (\<lambda>e. \<exists>x n. e = ReadReceipt x n) es = [])"
proof -
  have other: "messagesOf (markTopicRead t n r) t' = messagesOf r t'" if "t' \<noteq> t" for n r
    using that by (auto simp: markTopicRead_def messagesOf_def split: option.splits)
  have "map shown (messagesOf s' t) = map shown (messagesOf (appendMessage t msg s) t)"
    unfolding s'_def t_def msg_def by (rule handleIncoming_messages)
  moreover have "t' \<noteq> t \<longrightarrow> messagesOf s' t' = messagesOf s t'"
    by (simp add: s'_def handleIncoming_store messagesOf_upsert_unread messagesOf_append_other other [unfolded t_def] Let_def
        t_def split: option.split)
  moreover have "unreadOf s' t = Some (if activeTopic s = Some t then 0 else case unreadOf s t of None \<Rightarrow> 0 | Some n \<Rightarrow> n + 1)"
    unfolding s'_def t_def by (rule handleIncoming_unread)
  moreover have "filter (\<lambda>e. \<exists>x n. e = ReadReceipt x n) es =
      (if activeTopic s = Some t then [ReadReceipt t (JNum (rm_topicSeq detail))] else [])"
    by (simp add: es_def t_def handleIncomingMessage_def mentionToast_def Let_def split: option.split)
  ultimately show ?thesis
    by (simp add: messagesOf_appendMessage)
qed

text \<open>Example data: a message in the topic \<open>t\<close>, and a store that knows this topic.\<close>

definition sampleDetail :: realtimeMessage where
  "sampleDetail = \<lparr>rm_msgId = 5, rm_topic = js ''t'', rm_senderId = 9, rm_msgType = 1, rm_content = js ''hi'',
     rm_timestamp = 0, rm_topicSeq = 3, rm_clientMsgId = js ''x'', rm_mentionedUserIds = []\<rparr>"

definition knownStore :: chatStore where
  "knownStore = appendMessage (js ''t'') (sampleMsg ''mine'' None) initialState"

lemma knownStore_lookup:
  "\<exists>c. map_of (conversations knownStore) (js ''t'') = Some c \<and> c_messages c = [sampleMsg ''mine'' None] \<and> c_unreadCount c = 0"
  "activeTopic knownStore = None"
  by (simp_all add: knownStore_def appendMessage_def ensureConversation_def initialState_def Let_def insertBySeq_def
      lastOf_def sampleMsg_def seqOf_def)

theorem incoming_message_shown_witness:
  "let s' = fst (handleIncomingMessage sampleDetail None knownStore) in
     messagesOf s' (js ''u'') = messagesOf knownStore (js ''u'') \<and> unreadOf s' (js ''t'') = Some 1"
proof -
  have t: "js ''u'' \<noteq> rm_topic sampleDetail" "rm_topic sampleDetail = js ''t''"
    by (simp_all add: sampleDetail_def js_def)
  have "unreadOf knownStore (js ''t'') = Some 0"
    using knownStore_lookup(1) by (auto simp: unreadOf_def)
  then show ?thesis
    using incoming_message_shown [where detail = sampleDetail and u = None and s = knownStore and t' = "js ''u''"] t knownStore_lookup(2)
    by (simp add: Let_def)
qed

text \<open>
  C3. From the wire to the screen: when the bytes of a push arrive on the open connection and the page
  handles the events the client dispatches, the topic of the push shows a message with its number
  and, unless that number or client id was on display before, with the text the sender typed.
\<close>

theorem push_shown:
  assumes "wire_runtime (en_rt E)" and "rtReach E c" and "rc_ws c = Some w" and "stateOf w c = Some OPEN" and "listening w c"
    and "Packet_encode (en_rt E) 0 (pushPacket n) = Inr b" and "length b < 2 ^ 32" and "MessagePush_ok n"
    and "pu_content n = Some (TextEncoder_encode text)" and "wellFormed text" and "text = [] \<or> hd text \<noteq> 65279"
    and "\<not> list_ex (sameMessage (incomingMessage (messageOf n) (myIdOf u))) (messagesOf s (strField (pu_topic n)))"
  shows "let s' = showActions u (drop (length (rc_log c)) (rc_log (rtStep E (WsData w b) c))) s in
           \<exists>m \<in> set (messagesOf s' (strField (pu_topic n))).
             m_content m = text \<and> seqOf m = Some (numUint64 (pu_topicSeq n)) \<and> m_senderId m = JNum (numInt64 (pu_senderId n))"
proof -
  let ?d = "messageOf n" and ?t = "strField (pu_topic n)" and ?m = "incomingMessage (messageOf n) (myIdOf u)"
  let ?s' = "fst (handleIncomingMessage ?d u s)"
  have t: "rm_topic ?d = ?t" by (simp add: messageOf_def)
  have "showActions u (drop (length (rc_log c)) (rc_log (rtStep E (WsData w b) c))) s = ?s'"
    by (simp add: push_step [OF assms(1-8)])
  moreover have "map shown (messagesOf ?s' ?t) = map shown (insertBySeq (messagesOf s ?t) ?m)"
    using handleIncoming_messages [of ?d u s] assms(12) by (simp add: t messagesOf_appendMessage)
  then have "shown ?m \<in> set (map shown (messagesOf ?s' ?t))"
    by (simp add: set_insertBySeq)
  then obtain m where m: "m \<in> set (messagesOf ?s' ?t)" "shown m = shown ?m" by auto
  moreover have "m_content ?m = text" "m_senderId ?m = JNum (numInt64 (pu_senderId n))"
    "m_topicSeq ?m = Some (JNum (numUint64 (pu_topicSeq n)))"
    using push_content [OF assms(9-11)] by (simp_all add: incomingMessage_def messageOf_def)
  ultimately show ?thesis
    unfolding Let_def by (intro bexI [of _ m]) (simp_all add: shown_def seqOf_def)
qed

theorem push_shown_witness:
  "\<exists>b. let s' = showActions None (drop (length (rc_log openedState)) (rc_log (rtStep sampleEnv (WsData 0 b) openedState))) initialState in
     \<exists>m \<in> set (messagesOf s' (js ''t'')). m_content m = js ''hi'' \<and> seqOf m = Some 1"
proof -
  obtain b where b: "Packet_encode pbRuntime 0 (pushPacket samplePush) = Inr b" "length b < 2 ^ 32"
    using samplePush_bytes by blast
  have "wire_runtime (en_rt sampleEnv)" "Packet_encode (en_rt sampleEnv) 0 (pushPacket samplePush) = Inr b"
    using pb.wire_runtime_axioms b(1) by (simp_all add: sampleEnv_def)
  moreover have "rc_ws openedState = Some 0" "stateOf 0 openedState = Some OPEN" "listening 0 openedState"
    by (simp_all add: openedState_def stateOf_def listening_def)
  moreover have "MessagePush_ok samplePush" "pu_content samplePush = Some (TextEncoder_encode (js ''hi''))"
    "wellFormed (js ''hi'')" "js ''hi'' = [] \<or> hd (js ''hi'') \<noteq> 65279" "strField (pu_topic samplePush) = js ''t''"
    "numUint64 (pu_topicSeq samplePush) = 1"
    by (simp_all add: samplePush_def MessagePush_new_def MessagePush_ok_def js_def strField_def numUint64_def)
  moreover have "messagesOf initialState x = []" for x
    by (simp add: messagesOf_def initialState_def)
  ultimately show ?thesis
    using push_shown [OF _ openedState_reach, of 0 samplePush b "js ''hi''" None initialState] b(2)
    by (auto simp: Let_def intro!: exI [of _ b])
qed

text \<open>
  The receipt of the server completes a message the page sent: the first message with that client id
  gets the id and the number of the server and the status "sent"; every other message, topic and
  setting stays.
\<close>

theorem send_receipt_completes:
  assumes "map_of (conversations s) (srp_topic r) = Some c" and "c_messages c = xs @ m # ys"
    and "m_clientMsgId m = srp_clientMsgId r" and "\<forall>x \<in> set xs. m_clientMsgId x \<noteq> srp_clientMsgId r"
  shows "let s' = fst (handlers u (EvSendReceipt r) s) in
           messagesOf s' (srp_topic r) =
             xs @ m\<lparr>m_msgId := Some (JNum (srp_msgId r)), m_topicSeq := Some (JNum (srp_topicSeq r)), m_status := Sent\<rparr> # ys \<and>
           (\<forall>t. t \<noteq> srp_topic r \<longrightarrow> map_of (conversations s') t = map_of (conversations s) t) \<and>
           s'\<lparr>conversations := conversations s\<rparr> = s"
proof -
  have "findIndex (\<lambda>x. m_clientMsgId x = srp_clientMsgId r) (c_messages c) = Some (length xs)"
    using assms(2-4) by (simp add: findIndex_first)
  then show ?thesis
    using assms(1,2) by (simp add: updateMessageStatus_def mergeMsg_def noMsgPatch_def nth_append list_update_append)
qed

theorem send_receipt_completes_witness:
  "messagesOf (fst (handlers None (EvSendReceipt \<lparr>srp_clientMsgId = js ''mine'', srp_msgId = 8, srp_topic = js ''t'',
       srp_topicSeq = 4, srp_timestamp = 0\<rparr>) knownStore)) (js ''t'') =
     [(sampleMsg ''mine'' None)\<lparr>m_msgId := Some (JNum 8), m_topicSeq := Some (JNum 4), m_status := Sent\<rparr>]"
proof -
  let ?r = "\<lparr>srp_clientMsgId = js ''mine'', srp_msgId = 8, srp_topic = js ''t'', srp_topicSeq = 4, srp_timestamp = 0\<rparr>"
  obtain c where "map_of (conversations knownStore) (srp_topic ?r) = Some c" "c_messages c = [] @ sampleMsg ''mine'' None # []"
    using knownStore_lookup(1) by auto
  from send_receipt_completes [OF this, of None] show ?thesis
    by (simp add: sampleMsg_def Let_def)
qed

text \<open>
  C39. A push that is delivered twice is shown once but counted twice: the handler raises the unread
  counter without looking whether the message was new.
\<close>

theorem redelivery_counts_twice:
  assumes "map_of (conversations s) (rm_topic d) = Some c" and "activeTopic s \<noteq> Some (rm_topic d)"
  shows "let s1 = fst (handleIncomingMessage d u s); s2 = fst (handleIncomingMessage d u s1) in
           map shown (messagesOf s2 (rm_topic d)) = map shown (messagesOf s1 (rm_topic d)) \<and>
           unreadOf s2 (rm_topic d) = Some (c_unreadCount c + 2)"
proof -
  let ?t = "rm_topic d" and ?m = "incomingMessage d (myIdOf u)" and ?s1 = "fst (handleIncomingMessage d u s)"
  have a: "activeTopic ?s1 \<noteq> Some ?t"
    using assms(2)
    by (simp add: handleIncoming_store Let_def appendMessage_def upsertConversation_def markTopicMentioned_def split_beta
        split: option.split)
  have "list_ex (sameMessage ?m) (messagesOf (appendMessage ?t ?m s) ?t)"
    by (auto simp: messagesOf_appendMessage list_ex_iff set_insertBySeq sameMessage_def)
  then have dup: "list_ex (sameMessage ?m) (messagesOf ?s1 ?t)"
    using sameMessage_shown [OF handleIncoming_messages] by blast
  have "map shown (messagesOf (fst (handleIncomingMessage d u ?s1)) ?t) = map shown (messagesOf ?s1 ?t)"
    using handleIncoming_messages [of d u ?s1] dup by (simp add: messagesOf_appendMessage)
  moreover have "unreadOf ?s1 ?t = Some (c_unreadCount c + 1)"
    using handleIncoming_unread [of d u s] assms by (simp add: unreadOf_def [of s])
  then have "unreadOf (fst (handleIncomingMessage d u ?s1)) ?t = Some (c_unreadCount c + 2)"
    using handleIncoming_unread [of d u ?s1] a by simp
  ultimately show ?thesis by (simp add: Let_def)
qed

theorem redelivery_counts_twice_witness:
  "unreadOf (fst (handleIncomingMessage sampleDetail None (fst (handleIncomingMessage sampleDetail None knownStore)))) (js ''t'') = Some 2"
proof -
  have t: "rm_topic sampleDetail = js ''t''" by (simp add: sampleDetail_def)
  obtain c where "map_of (conversations knownStore) (rm_topic sampleDetail) = Some c" "c_unreadCount c = 0"
    using knownStore_lookup(1) t by auto
  moreover have "activeTopic knownStore \<noteq> Some (rm_topic sampleDetail)" using knownStore_lookup(2) by simp
  ultimately show ?thesis
    using redelivery_counts_twice [of knownStore sampleDetail c None] by (simp add: Let_def t)
qed

text \<open>
  C40. A read receipt of the peer clears the unread counter of the reader: \<open>markTopicRead\<close> serves both for
  "I read" and for "they read", and the handler does not look at \<open>readerId\<close>.
\<close>

theorem peer_receipt_clears_unread:
  assumes "map_of (conversations s) (rrp_topic r) = Some c"
  shows "unreadOf (fst (handlers u (EvReadReceipt r) s)) (rrp_topic r) = Some 0"
  using assms by (simp add: unreadOf_read) (simp add: unreadOf_def)

theorem peer_receipt_clears_unread_witness:
  "unreadOf (fst (handlers None (EvReadReceipt \<lparr>rrp_topic = js ''t'', rrp_upToSeq = 3, rrp_readerId = 9\<rparr>)
     (fst (handleIncomingMessage sampleDetail None knownStore)))) (js ''t'') = Some 0"
proof -
  have "unreadOf (fst (handleIncomingMessage sampleDetail None knownStore)) (js ''t'') \<noteq> None"
    using handleIncoming_unread [of sampleDetail None knownStore] by (simp add: sampleDetail_def)
  then obtain c where "map_of (conversations (fst (handleIncomingMessage sampleDetail None knownStore)))
      (rrp_topic \<lparr>rrp_topic = js ''t'', rrp_upToSeq = 3, rrp_readerId = 9\<rparr>) = Some c"
    by (auto simp: unreadOf_def)
  from peer_receipt_clears_unread [OF this, of None] show ?thesis by simp
qed

text \<open>
  C18. Whatever the server sends, the store stays well formed: every event keeps the keys unique and every
  conversation filed under its own topic, and every message under the topic it carries.
\<close>

theorem handlers_typed:
  assumes "storeOk s" and "\<forall>t. \<forall>m \<in> set (messagesOf s t). m_topic m = t"
  shows "storeOk (fst (handlers u e s)) \<and> (\<forall>t. \<forall>m \<in> set (messagesOf (fst (handlers u e s)) t). m_topic m = t)"
proof -
  have "filed s" using assms(2) by (simp add: filed_def)
  have "storeOk (fst (handlers u e s))"
    using assms(1) handleIncoming_keeps(1)
    by (cases e) (auto simp: onDeliveryReceipt_def intro: storeOk_intros split: option.split)
  moreover have "filed (fst (handlers u e s))"
    using \<open>filed s\<close> handleIncoming_keeps(2)
    by (cases e) (auto simp: onDeliveryReceipt_def noMsgPatch_def intro: filed_intros split: option.split)
  ultimately show ?thesis by (simp add: filed_def)
qed

theorem handlers_typed_witness:
  "storeOk (fst (handlers None (EvMessage sampleDetail) initialState)) \<and>
   list_all (\<lambda>m. m_topic m = js ''t'') (messagesOf (fst (handlers None (EvMessage sampleDetail) initialState)) (js ''t''))"
proof -
  have "\<forall>t. \<forall>m \<in> set (messagesOf initialState t). m_topic m = t"
    by (simp add: messagesOf_def initialState_def)
  from handlers_typed [OF initialState_storeOk this] show ?thesis unfolding list_all_iff by blast
qed

end
