(* ===== verification/Mentions.thy ===== *)
theory Mentions
  imports Types
begin

text \<open>
  Group mentions (\<^verbatim>\<open>web/app/lib/mentions.ts\<close>): the query being typed, the completion list, the ids a text
  mentions and its segments for rendering. The loops \<open>while ((m = re.exec(text)) !== null)\<close> are functions
  from the position of the next search; \<open>String.prototype.toLowerCase\<close> is the parameter \<open>lower\<close>.
\<close>

section \<open>Definitions\<close>

record mentionMember =
  mm_userId :: int
  mm_username :: jsstring

text \<open>The class \<open>[^\s@]\<close>; it repeats greedily and nothing follows it in the patterns, so it takes all it can.\<close>

definition tokenChar :: "jschar \<Rightarrow> bool" where
  "tokenChar c \<longleftrightarrow> \<not> isSpace c \<and> c \<noteq> 64"

definition token :: "jsstring \<Rightarrow> jsstring" where
  "token s = takeWhile tokenChar s"

text \<open>
  \<open>/(?:^|\s)@([^\s@]*)$/.exec(before)\<close>: the longest suffix of token characters, an \<open>@\<close> before it, and the
  start of the text or white space before that.
\<close>

definition activeMentionQuery :: "jsstring \<Rightarrow> nat \<Rightarrow> (jsstring \<times> int) option" where
  "activeMentionQuery str caret =
     (let before = take caret str;
          query = rev (token (rev before))
      in case drop (length query) (rev before) of
           [] \<Rightarrow> None
         | c # rest \<Rightarrow>
             if c = 64 \<and> (rest = [] \<or> isSpace (hd rest)) then Some (query, int caret - int (length query) - 1)
             else None)"

definition filterMembers :: "(jsstring \<Rightarrow> jsstring) \<Rightarrow> mentionMember list \<Rightarrow> jsstring \<Rightarrow> mentionMember list" where
  "filterMembers lower members query =
     take 6 (filter (\<lambda>m. startsWith (lower (mm_username m)) (lower query)) members)"

definition byName :: "(jsstring \<Rightarrow> jsstring) \<Rightarrow> mentionMember list \<Rightarrow> (jsstring, int) jsmap" where
  "byName lower members = setAll (\<lambda>m. lower (mm_username m)) mm_userId [] members"

text \<open>\<open>/(?:^|\s)@([^\s@]+)/g\<close> at or after position \<open>i\<close>: the name, and where the next search starts.\<close>

function execBounded :: "jsstring \<Rightarrow> nat \<Rightarrow> (jsstring \<times> nat) option" where
  "execBounded str i =
     (if i \<ge> length str then None
      else if i = 0 \<and> str ! 0 = 64 \<and> token (drop 1 str) \<noteq> [] then
        Some (token (drop 1 str), 1 + length (token (drop 1 str)))
      else if isSpace (str ! i) \<and> i + 1 < length str \<and> str ! (i + 1) = 64 \<and> token (drop (i + 2) str) \<noteq> [] then
        Some (token (drop (i + 2) str), i + 2 + length (token (drop (i + 2) str)))
      else execBounded str (i + 1))"
  by pat_completeness auto
termination
  by (relation "measure (\<lambda>(str, i). length str - i)") auto

declare execBounded.simps [simp del]

lemma execBounded_later: "execBounded str i = Some (name, j) \<Longrightarrow> i < j \<and> i < length str"
proof (induction str i rule: execBounded.induct)
  case (1 str i)
  show ?case
    using 1 trans [OF execBounded.simps [symmetric] "1.prems"] by (auto split: if_splits)
qed

text \<open>\<open>ids\<close> is a \<open>Set\<close>: it keeps the order of insertion.\<close>

function extractLoop :: "(jsstring \<Rightarrow> jsstring) \<Rightarrow> (jsstring, int) jsmap \<Rightarrow> jsstring \<Rightarrow> nat \<Rightarrow> int list \<Rightarrow> int list" where
  "extractLoop lower names str i ids =
     (case execBounded str i of
        None \<Rightarrow> ids
      | Some (name, j) \<Rightarrow>
          extractLoop lower names str j
            (case map_of names (lower name) of
               None \<Rightarrow> ids
             | Some n \<Rightarrow> if n \<in> set ids then ids else ids @ [n]))"
  by pat_completeness auto
termination
  by (relation "measure (\<lambda>(lower, names, str, i, ids). length str - i)") (auto dest!: execBounded_later)

declare extractLoop.simps [simp del]

definition extractMentionIds :: "(jsstring \<Rightarrow> jsstring) \<Rightarrow> jsstring \<Rightarrow> mentionMember list \<Rightarrow> int list" where
  "extractMentionIds lower str members =
     (if members = [] then [] else extractLoop lower (byName lower members) str 0 [])"

record textSegment =
  ts_text :: jsstring
  ts_mentionedUserId :: "int option"

text \<open>\<open>/@([^\s@]+)/g\<close> at or after position \<open>i\<close>: where it matches and the name.\<close>

function execMention :: "jsstring \<Rightarrow> nat \<Rightarrow> (nat \<times> jsstring) option" where
  "execMention str i =
     (if i \<ge> length str then None
      else if str ! i = 64 \<and> token (drop (i + 1) str) \<noteq> [] then Some (i, token (drop (i + 1) str))
      else execMention str (i + 1))"
  by pat_completeness auto
termination
  by (relation "measure (\<lambda>(str, i). length str - i)") auto

declare execMention.simps [simp del]

lemma execMention_later: "execMention str i = Some (k, name) \<Longrightarrow> i \<le> k \<and> k < length str"
proof (induction str i rule: execMention.induct)
  case (1 str i)
  show ?case
    using 1 trans [OF execMention.simps [symmetric] "1.prems"] by (auto split: if_splits)
qed

definition slice :: "nat \<Rightarrow> nat \<Rightarrow> 'a list \<Rightarrow> 'a list" where
  "slice a b xs = take (b - a) (drop a xs)"

function segmentLoop ::
  "(jsstring \<Rightarrow> jsstring) \<Rightarrow> (jsstring, int) jsmap \<Rightarrow> jsstring \<Rightarrow> nat \<Rightarrow> nat \<Rightarrow> textSegment list \<Rightarrow> textSegment list \<times> nat" where
  "segmentLoop lower names str i lst segments =
     (case execMention str i of
        None \<Rightarrow> (segments, lst)
      | Some (k, name) \<Rightarrow>
          let j = k + 1 + length name in
          if k > 0 \<and> \<not> isSpace (str ! (k - 1)) then segmentLoop lower names str j lst segments
          else case map_of names (lower name) of
            None \<Rightarrow> segmentLoop lower names str j lst segments
          | Some n \<Rightarrow>
              segmentLoop lower names str j j
                (segments @
                 (if k > lst then [\<lparr>ts_text = slice lst k str, ts_mentionedUserId = None\<rparr>] else []) @
                 [\<lparr>ts_text = slice k j str, ts_mentionedUserId = Some n\<rparr>]))"
  by pat_completeness auto
termination
  by (relation "measure (\<lambda>(lower, names, str, i, lst, segments). length str - i)") (auto dest!: execMention_later)

declare segmentLoop.simps [simp del]

definition segmentMentions :: "(jsstring \<Rightarrow> jsstring) \<Rightarrow> jsstring \<Rightarrow> mentionMember list \<Rightarrow> textSegment list" where
  "segmentMentions lower str members =
     (if members = [] then [\<lparr>ts_text = str, ts_mentionedUserId = None\<rparr>]
      else case segmentLoop lower (byName lower members) str 0 0 [] of
        (segments, lst) \<Rightarrow>
          let segments' = (if lst < length str
                           then segments @ [\<lparr>ts_text = drop lst str, ts_mentionedUserId = None\<rparr>] else segments)
          in if segments' \<noteq> [] then segments' else [\<lparr>ts_text = str, ts_mentionedUserId = None\<rparr>])"

section \<open>A reference: the mentions of a text by position\<close>

definition isMention :: "jsstring \<Rightarrow> nat \<Rightarrow> bool" where
  "isMention str i \<longleftrightarrow>
     str ! i = 64 \<and> (i = 0 \<or> isSpace (str ! (i - 1))) \<and> token (drop (i + 1) str) \<noteq> []"

definition namesFrom :: "jsstring \<Rightarrow> nat \<Rightarrow> jsstring list" where
  "namesFrom str i = map (\<lambda>k. token (drop (k + 1) str)) (filter (isMention str) [i..<length str])"

lemma namesFrom_step:
  "i < length str \<Longrightarrow>
   namesFrom str i = (if isMention str i then token (drop (i + 1) str) # namesFrom str (i + 1) else namesFrom str (i + 1))"
  by (simp add: namesFrom_def upt_conv_Cons)

lemma namesFrom_end: "length str \<le> i \<Longrightarrow> namesFrom str i = []"
  by (simp add: namesFrom_def)

lemma namesFrom_skip:
  assumes "i \<le> j" and "\<And>k. i \<le> k \<Longrightarrow> k < j \<Longrightarrow> k < length str \<Longrightarrow> \<not> isMention str k"
  shows "namesFrom str i = namesFrom str j"
  using assms
proof (induction "j - i" arbitrary: i)
  case (Suc n)
  then show ?case
    by (cases "i < length str") (simp_all add: namesFrom_step namesFrom_end)
qed simp

text \<open>Inside a name there is no mention, and none right after it.\<close>

lemma token_char:
  assumes "i < length (token s)"
  shows "tokenChar (s ! i)" and "i < length s"
proof -
  from assms have "tokenChar (token s ! i)"
    unfolding token_def by (metis nth_mem set_takeWhileD)
  with assms show "tokenChar (s ! i)"
    by (simp add: token_def takeWhile_nth)
  from assms show "i < length s"
    unfolding token_def by (meson length_takeWhile_le order_less_le_trans)
qed

lemma token_length: "k + 1 \<le> length str \<Longrightarrow> k + 1 + length (token (drop (k + 1) str)) \<le> length str"
  using length_takeWhile_le [of tokenChar "drop (k + 1) str"] by (simp add: token_def)

lemma namesFrom_name:
  assumes "k < length str" and "name = token (drop (k + 1) str)" and "name \<noteq> []"
  shows "namesFrom str (k + 1) = namesFrom str (k + 1 + length name)"
    and "\<not> isMention str (k + 1 + length name)"
proof -
  have char: "tokenChar (str ! (k + 1 + i))" if "i < length name" for i
    using token_char [of i "drop (k + 1) str"] that assms by (simp add: nth_drop)
  show "namesFrom str (k + 1) = namesFrom str (k + 1 + length name)"
  proof (rule namesFrom_skip)
    fix q assume "k + 1 \<le> q" "q < k + 1 + length name"
    then show "\<not> isMention str q"
      using char [of "q - (k + 1)"] by (simp add: isMention_def tokenChar_def)
  qed simp
  show "\<not> isMention str (k + 1 + length name)"
    using char [of "length name - 1"] assms(3) by (cases name) (simp_all add: isMention_def tokenChar_def)
qed

text \<open>What the two searches find.\<close>

lemma execMention_names:
  "execMention str i = None \<Longrightarrow> namesFrom str i = []"
  "execMention str i = Some (k, name) \<Longrightarrow>
     str ! k = 64 \<and> name = token (drop (k + 1) str) \<and> name \<noteq> [] \<and>
     namesFrom str i =
       (if k > 0 \<and> \<not> isSpace (str ! (k - 1)) then namesFrom str (k + 1 + length name)
        else name # namesFrom str (k + 1 + length name))"
proof (induction str i rule: execMention.induct)
  case (1 str i)
  note unfold = execMention.simps [of str i]
  { case 1
    with unfold show ?case
      using "1.IH"(1) by (auto simp: namesFrom_end namesFrom_step isMention_def split: if_splits)
  next
    case 2
    show ?case
    proof (cases "i < length str \<and> str ! i = 64 \<and> token (drop (i + 1) str) \<noteq> []")
      case True
      with 2 unfold have "k = i" "name = token (drop (i + 1) str)" by auto
      with True show ?thesis
        using namesFrom_name [of i str name] by (simp add: namesFrom_step isMention_def)
    next
      case False
      with 2 unfold have later: "i < length str" "execMention str (i + 1) = Some (k, name)" by (auto split: if_splits)
      with False have same: "namesFrom str i = namesFrom str (i + 1)" by (simp add: namesFrom_step isMention_def)
      from later False show ?thesis unfolding same by (intro "1.IH"(2)) auto
    qed
  }
qed

text \<open>From position \<open>i\<close> the first search sees the mentions after \<open>i\<close>, and at the start also that at \<open>0\<close>.\<close>

definition seenFrom :: "jsstring \<Rightarrow> nat \<Rightarrow> jsstring list" where
  "seenFrom str i = (if i = 0 then namesFrom str 0 else namesFrom str (i + 1))"

lemma execBounded_names:
  "execBounded str i = None \<Longrightarrow> seenFrom str i = []"
  "execBounded str i = Some (name, j) \<Longrightarrow> seenFrom str i = name # seenFrom str j"
proof (induction str i rule: execBounded.induct)
  case (1 str i)
  note unfold = execBounded.simps [of str i]
  let ?start = "i = 0 \<and> str ! 0 = 64 \<and> token (drop 1 str) \<noteq> []"
  let ?inner = "isSpace (str ! i) \<and> i + 1 < length str \<and> str ! (i + 1) = 64 \<and> token (drop (i + 2) str) \<noteq> []"
  have skip: "seenFrom str i = seenFrom str (i + 1)" if "i < length str" "\<not> ?start" "\<not> ?inner"
  proof -
    have "namesFrom str (i + 1) = namesFrom str (i + 2)"
      using that by (cases "i + 1 < length str") (auto simp: namesFrom_step namesFrom_end isMention_def)
    moreover have "namesFrom str 0 = namesFrom str 1" if "i = 0"
      using \<open>\<not> ?start\<close> \<open>i < length str\<close> that by (auto simp: namesFrom_step isMention_def)
    ultimately show ?thesis by (cases "i = 0") (simp_all add: seenFrom_def)
  qed
  { case 1
    show ?case
    proof (cases "i < length str")
      case True
      with 1 unfold have "\<not> ?start" "\<not> ?inner" "execBounded str (i + 1) = None" by (auto split: if_splits)
      with True show ?thesis using "1.IH"(1) skip by simp
    next
      case False
      then show ?thesis using namesFrom_end [of str i] namesFrom_end [of str "i + 1"] by (auto simp: seenFrom_def)
    qed
  next
    case 2
    note prem = this
    with unfold have len: "i < length str" by (auto split: if_splits)
    consider "?start" | "\<not> ?start" "?inner" | "\<not> ?start" "\<not> ?inner" by blast
    then show ?case
    proof cases
      case 1
      with prem unfold len have "name = token (drop 1 str)" "j = 1 + length name" by auto
      with 1 len show ?thesis
        using namesFrom_name [of 0 str name] namesFrom_step [of 0 str] namesFrom_skip [of j "j + 1" str]
        by (auto simp: seenFrom_def isMention_def le_less_Suc_eq)
    next
      case 2
      with prem unfold len have n: "name = token (drop (i + 2) str)" "j = i + 2 + length name" by auto
      have "isMention str (i + 1)" using 2 by (simp add: isMention_def)
      moreover have "\<not> isMention str 0" if "i = 0" using 2 that by (auto simp: isMention_def isSpace_def)
      ultimately have "seenFrom str i = name # namesFrom str (i + 2)"
        using 2 len n namesFrom_step [of 0 str] namesFrom_step [of "i + 1" str] by (cases "i = 0") (simp_all add: seenFrom_def)
      with 2 n show ?thesis
        using namesFrom_name [of "i + 1" str name] namesFrom_skip [of j "j + 1" str]
        by (auto simp: seenFrom_def le_less_Suc_eq)
    next
      case 3
      with prem unfold len have "execBounded str (i + 1) = Some (name, j)" by (auto split: if_splits)
      with 3 len show ?thesis using "1.IH"(2) skip by simp
    qed
  }
qed

section \<open>The loops against the reference\<close>

definition addId :: "(jsstring \<Rightarrow> jsstring) \<Rightarrow> (jsstring, int) jsmap \<Rightarrow> int list \<Rightarrow> jsstring \<Rightarrow> int list" where
  "addId lower names ids name =
     (case map_of names (lower name) of None \<Rightarrow> ids | Some n \<Rightarrow> if n \<in> set ids then ids else ids @ [n])"

lemma extractLoop_names:
  "extractLoop lower names str i ids = foldl (addId lower names) ids (seenFrom str i)"
proof (induction lower names str i ids rule: extractLoop.induct)
  case (1 lower names str i ids)
  show ?case
  proof (cases "execBounded str i")
    case None
    then show ?thesis by (subst extractLoop.simps) (simp add: execBounded_names)
  next
    case (Some a)
    then show ?thesis
      using 1 [OF Some] execBounded_names(2) [of str i]
      by (subst extractLoop.simps) (cases a, simp add: addId_def [symmetric])
  qed
qed

lemma map_filter_append: "List.map_filter f (xs @ ys) = List.map_filter f xs @ List.map_filter f ys"
  by (simp add: List.map_filter_def)

lemma segmentLoop_names:
  assumes "segmentLoop lower names str i lst segments = (segments', lst')"
  shows "List.map_filter ts_mentionedUserId segments' =
    List.map_filter ts_mentionedUserId segments @ List.map_filter (\<lambda>name. map_of names (lower name)) (namesFrom str i)"
  using assms
proof (induction lower names str i lst segments arbitrary: segments' lst' rule: segmentLoop.induct)
  case (1 lower names str i lst segments)
  note step = trans [OF segmentLoop.simps [symmetric] "1.prems"]
  show ?case
  proof (cases "execMention str i")
    case None
    with step show ?thesis by (simp add: execMention_names)
  next
    case (Some a)
    obtain k name where a: "a = (k, name)" by (cases a)
    note found = execMention_names(2) [OF Some [unfolded a]]
    note IH = 1(1-3) [OF Some [unfolded a] refl refl]
    define skip where "skip \<longleftrightarrow> k > 0 \<and> \<not> isSpace (str ! (k - 1))"
    have names: "namesFrom str i = (if skip then namesFrom str (k + 1 + length name) else name # namesFrom str (k + 1 + length name))"
      using found by (simp add: skip_def)
    consider "skip" | "\<not> skip" "map_of names (lower name) = None" | n where "\<not> skip" "map_of names (lower name) = Some n"
      by fastforce
    then show ?thesis
    proof cases
      case 1
      with step Some a have "segmentLoop lower names str (k + 1 + length name) lst segments = (segments', lst')"
        by (simp add: Let_def skip_def split: if_splits)
      with IH(1) 1 names show ?thesis by (simp add: skip_def)
    next
      case 2
      with step Some a have "segmentLoop lower names str (k + 1 + length name) lst segments = (segments', lst')"
        by (simp add: Let_def skip_def split: if_splits)
      with IH(2) [OF 2 [unfolded skip_def]] 2 names show ?thesis by (simp add: List.map_filter_simps)
    next
      case 3
      let ?new = "segments @ (if k > lst then [\<lparr>ts_text = slice lst k str, ts_mentionedUserId = None\<rparr>] else []) @
        [\<lparr>ts_text = slice k (k + 1 + length name) str, ts_mentionedUserId = Some n\<rparr>]"
      from 3 step Some a have "segmentLoop lower names str (k + 1 + length name) (k + 1 + length name) ?new = (segments', lst')"
        by (simp add: Let_def skip_def split: if_splits)
      with IH(3) [OF 3 [unfolded skip_def]] have "List.map_filter ts_mentionedUserId segments' =
          List.map_filter ts_mentionedUserId ?new @ List.map_filter (\<lambda>name. map_of names (lower name)) (namesFrom str (k + 1 + length name))"
        by blast
      with 3 names show ?thesis by (simp add: List.map_filter_simps map_filter_append)
    qed
  qed
qed

text \<open>The segments so far are the text up to \<open>last\<close>, and each mention is an \<open>@\<close> with a known name.\<close>

definition segmentOk :: "(jsstring \<Rightarrow> jsstring) \<Rightarrow> (jsstring, int) jsmap \<Rightarrow> textSegment \<Rightarrow> bool" where
  "segmentOk lower names seg \<longleftrightarrow>
     (case ts_mentionedUserId seg of
        None \<Rightarrow> ts_text seg \<noteq> []
      | Some n \<Rightarrow> \<exists>name. ts_text seg = 64 # name \<and> name \<noteq> [] \<and> list_all tokenChar name \<and> map_of names (lower name) = Some n)"

lemma slice_join: "a \<le> b \<Longrightarrow> take a xs @ slice a b xs = take b xs"
  using take_add [of a "b - a" xs] by (simp add: slice_def)

lemma slice_mention:
  assumes "k < length str" and "str ! k = 64" and "name = token (drop (k + 1) str)"
  shows "slice k (k + 1 + length name) str = 64 # name"
proof -
  have "take (length name) (drop (k + 1) str) = name"
    unfolding assms(3) token_def by (metis takeWhile_eq_take)
  moreover have "drop k str = 64 # drop (k + 1) str"
    using assms(1,2) by (metis Cons_nth_drop_Suc Suc_eq_plus1)
  ultimately show ?thesis by (simp add: slice_def)
qed

lemma segmentLoop_ok:
  assumes "segmentLoop lower names str i lst segments = (segments', lst')"
    and "lst \<le> i" and "lst \<le> length str" and "concat (map ts_text segments) = take lst str"
    and "list_all (segmentOk lower names) segments"
  shows "lst' \<le> length str \<and> concat (map ts_text segments') = take lst' str \<and> list_all (segmentOk lower names) segments'"
  using assms
proof (induction lower names str i lst segments arbitrary: segments' lst' rule: segmentLoop.induct)
  case (1 lower names str i lst segments)
  note step = trans [OF segmentLoop.simps [symmetric] "1.prems"(1)]
  show ?case
  proof (cases "execMention str i")
    case None
    with step "1.prems" show ?thesis by simp
  next
    case (Some a)
    obtain k name where a: "a = (k, name)" by (cases a)
    note found = execMention_names(2) [OF Some [unfolded a]] and later = execMention_later [OF Some [unfolded a]]
    note IH = "1.IH" [OF Some [unfolded a] refl refl]
    define skip where "skip \<longleftrightarrow> k > 0 \<and> \<not> isSpace (str ! (k - 1))"
    let ?j = "k + 1 + length name"
    have j: "?j \<le> length str" "lst \<le> ?j"
      using token_length [of k str] later found "1.prems"(2) by auto
    consider "skip" | "\<not> skip" "map_of names (lower name) = None" | n where "\<not> skip" "map_of names (lower name) = Some n"
      by fastforce
    then show ?thesis
    proof cases
      case 1
      with step Some a have "segmentLoop lower names str ?j lst segments = (segments', lst')"
        by (simp add: Let_def skip_def split: if_splits)
      with IH(1) [OF 1 [unfolded skip_def]] j "1.prems" show ?thesis by blast
    next
      case 2
      with step Some a have "segmentLoop lower names str ?j lst segments = (segments', lst')"
        by (simp add: Let_def skip_def split: if_splits)
      with IH(2) [OF 2 [unfolded skip_def]] j "1.prems" show ?thesis by blast
    next
      case 3
      let ?new = "segments @ (if k > lst then [\<lparr>ts_text = slice lst k str, ts_mentionedUserId = None\<rparr>] else []) @
        [\<lparr>ts_text = slice k ?j str, ts_mentionedUserId = Some n\<rparr>]"
      from 3 step Some a have "segmentLoop lower names str ?j ?j ?new = (segments', lst')"
        by (simp add: Let_def skip_def split: if_splits)
      moreover have seg: "slice k ?j str = 64 # name"
        using slice_mention [of k str name] later found by simp
      have "lst \<le> k" using later "1.prems"(2) by simp
      then have "concat (map ts_text ?new) = take ?j str"
        using slice_join [of lst k str] slice_join [of k ?j str] "1.prems"(4) by (auto simp: append_assoc [symmetric] simp del: append_assoc)
      moreover have "slice lst k str \<noteq> []" if "lst < k"
        using that later by (simp add: slice_def)
      then have "list_all (segmentOk lower names) ?new"
        using "1.prems"(5) seg 3(2) found set_takeWhileD [of _ tokenChar]
        by (auto simp: segmentOk_def list_all_iff token_def)
      ultimately show ?thesis
        using IH(3) [OF 3 [unfolded skip_def]] j(1) by blast
    qed
  qed
qed

section \<open>Properties\<close>

text \<open>
  C27. The segments of a message are the message: joined they give the text back, none is empty unless the
  text is, and each highlighted segment is an \<open>@\<close> followed by the name of a member, with that member's id.
\<close>

theorem segments_partition:
  assumes "str \<noteq> []"
  shows "concat (map ts_text (segmentMentions lower str members)) = str \<and>
         list_all (segmentOk lower (byName lower members)) (segmentMentions lower str members)"
proof -
  obtain segments lst where loop: "segmentLoop lower (byName lower members) str 0 0 [] = (segments, lst)"
    by fastforce
  from segmentLoop_ok [OF this] have "lst \<le> length str" "concat (map ts_text segments) = take lst str"
    "list_all (segmentOk lower (byName lower members)) segments" by simp_all
  with assms loop show ?thesis
    by (auto simp: segmentMentions_def segmentOk_def Let_def)
qed

text \<open>
  C14. What is highlighted is what is notified: the ids sent with a message are exactly the ids of its
  highlighted segments, each once, in the order of their first mention, and both are the mentions of
  the reference: an \<open>@\<close> at the start or after white space with the name of a member.
\<close>

theorem mentions_agree:
  assumes "members \<noteq> []"
  shows "extractMentionIds lower str members =
           foldl (\<lambda>ids n. if n \<in> set ids then ids else ids @ [n]) []
             (List.map_filter ts_mentionedUserId (segmentMentions lower str members)) \<and>
         List.map_filter ts_mentionedUserId (segmentMentions lower str members) =
           List.map_filter (\<lambda>name. map_of (byName lower members) (lower name)) (namesFrom str 0)"
proof -
  let ?names = "byName lower members"
  obtain segments lst where loop: "segmentLoop lower ?names str 0 0 [] = (segments, lst)"
    by fastforce
  from segmentLoop_names [OF this]
  have ids: "List.map_filter ts_mentionedUserId (segmentMentions lower str members) =
      List.map_filter (\<lambda>name. map_of ?names (lower name)) (namesFrom str 0)"
    using assms loop by (auto simp: segmentMentions_def Let_def List.map_filter_simps map_filter_append)
  have "foldl (addId lower ?names) ids xs =
      foldl (\<lambda>ids n. if n \<in> set ids then ids else ids @ [n]) ids (List.map_filter (\<lambda>name. map_of ?names (lower name)) xs)" for ids xs
    by (induction xs arbitrary: ids) (simp_all add: addId_def List.map_filter_simps split: option.split)
  then show ?thesis
    using assms by (simp add: ids extractMentionIds_def extractLoop_names seenFrom_def)
qed

text \<open>Example: two members, one of them mentioned twice.\<close>

definition sampleMembers :: "mentionMember list" where
  "sampleMembers = [\<lparr>mm_userId = 7, mm_username = js ''amy''\<rparr>, \<lparr>mm_userId = 8, mm_username = js ''bob''\<rparr>]"

lemmas mention_eval = namesFrom_def isMention_def token_def tokenChar_def isSpace_def js_def byName_def setAll_def upt_rec
  sampleMembers_def List.map_filter_def

lemma sampleMembers_names:
  "List.map_filter (\<lambda>name. map_of (byName (\<lambda>s. s) sampleMembers) name) (namesFrom (js ''@bob x@amy @bob @eve'') 0) = [8, 8]"
  by (simp add: mention_eval)

theorem segments_partition_witness:
  "concat (map ts_text (segmentMentions (\<lambda>s. s) (js ''hi @bob'') sampleMembers)) = js ''hi @bob''"
  using segments_partition [of "js ''hi @bob''" "\<lambda>s. s" sampleMembers] by (simp add: js_def)

theorem mentions_agree_witness:
  "extractMentionIds (\<lambda>s. s) (js ''@bob x@amy @bob @eve'') sampleMembers = [8] \<and>
   List.map_filter ts_mentionedUserId (segmentMentions (\<lambda>s. s) (js ''@bob x@amy @bob @eve'') sampleMembers) = [8, 8]"
proof -
  have "sampleMembers \<noteq> []" by (simp add: sampleMembers_def)
  from mentions_agree [OF this, of "\<lambda>s. s" "js ''@bob x@amy @bob @eve''"] show ?thesis
    by (simp add: sampleMembers_names)
qed

text \<open>A mention typed at a word boundary is one of the mentions of the text.\<close>

lemma namesFrom_member:
  assumes "isMention str k" and "k < length str"
  shows "token (drop (k + 1) str) \<in> set (namesFrom str 0)"
  using assms by (auto simp: namesFrom_def)

lemma extract_member:
  assumes "members \<noteq> []" and "name \<in> set (namesFrom str 0)" and "map_of (byName lower members) (lower name) = Some n"
  shows "n \<in> set (extractMentionIds lower str members)"
proof -
  have one: "set ids \<subseteq> set (addId lower names ids x)" for names ids x
    by (auto simp: addId_def split: option.split)
  have keep: "n \<in> set ids \<Longrightarrow> n \<in> set (foldl (addId lower names) ids xs)" for names ids xs
  proof (induction xs arbitrary: ids)
    case (Cons x xs)
    then show ?case using one [of ids names x] by auto
  qed simp
  have "name \<in> set xs \<Longrightarrow> n \<in> set (foldl (addId lower (byName lower members)) ids xs)" for ids xs
  proof (induction xs arbitrary: ids)
    case (Cons x xs)
    show ?case
    proof (cases "x = name")
      case True
      then have "n \<in> set (addId lower (byName lower members) ids x)" using assms(3) by (simp add: addId_def)
      then show ?thesis using keep by simp
    next
      case False
      with Cons show ?thesis by simp
    qed
  qed simp
  with assms(1,2) show ?thesis by (simp add: extractMentionIds_def extractLoop_names seenFrom_def)
qed

end
