(* ===== verification/Message_Input.thy ===== *)
theory Message_Input
  imports Mentions
begin

text \<open>
  The message box (\<^verbatim>\<open>web/app/components/chat/MessageInput.tsx\<close>): its state hooks, the text area's selection, the
  memoised completion list and the handlers of the text area and the buttons. \<open>members\<close> is the property the
  box is given and does not change; the menu for emojis, the file pickers and the mark-up are not modelled.

  A handler sets state, the component renders, and the animation frame the handler asked for moves the
  caret last. The memo is computed while rendering, so it reads the selection the text area had before
  the new value was put into it.
\<close>

section \<open>Definitions\<close>

record mentionState =
  ms_query :: jsstring
  ms_start :: int
  ms_candidates :: "mentionMember list"

record inputState =
  in_text :: jsstring
  in_mentionIndex :: nat
  in_mentionDismissed :: bool
  in_selectionStart :: nat
  in_selectionEnd :: nat
  in_mentionState :: "mentionState option"

definition initialInput :: inputState where
  "initialInput = \<lparr>in_text = [], in_mentionIndex = 0, in_mentionDismissed = False,
     in_selectionStart = 0, in_selectionEnd = 0, in_mentionState = None\<rparr>"

definition computeMention :: "(jsstring \<Rightarrow> jsstring) \<Rightarrow> mentionMember list \<Rightarrow> inputState \<Rightarrow> mentionState option" where
  "computeMention lower members s =
     (if members = [] \<or> in_mentionDismissed s then None
      else case activeMentionQuery (in_text s) (in_selectionStart s) of
        None \<Rightarrow> None
      | Some (query, start) \<Rightarrow>
          let candidates = filterMembers lower members query in
          if candidates = [] then None
          else Some \<lparr>ms_query = query, ms_start = start, ms_candidates = candidates\<rparr>)"

text \<open>\<open>useMemo\<close> with the dependencies \<open>[text, members, mentionDismissed]\<close>, from the state of the last render.\<close>

definition render :: "(jsstring \<Rightarrow> jsstring) \<Rightarrow> mentionMember list \<Rightarrow> inputState \<Rightarrow> inputState \<Rightarrow> inputState" where
  "render lower members s s' =
     (if in_text s' = in_text s \<and> in_mentionDismissed s' = in_mentionDismissed s then s'
      else s'\<lparr>in_mentionState := computeMention lower members s'\<rparr>)"

definition setSelectionRange :: "nat \<Rightarrow> inputState \<Rightarrow> inputState" where
  "setSelectionRange pos s = s\<lparr>in_selectionStart := pos, in_selectionEnd := pos\<rparr>"

definition applyMention :: "(jsstring \<Rightarrow> jsstring) \<Rightarrow> mentionMember list \<Rightarrow> jsstring \<Rightarrow> inputState \<Rightarrow> inputState" where
  "applyMention lower members username s =
     (case in_mentionState s of
        None \<Rightarrow> s
      | Some ms \<Rightarrow>
          let caret = in_selectionStart s;
              str = take (nat (ms_start ms)) (in_text s) @ (64 # username @ [32]) @ drop caret (in_text s);
              pos = nat (ms_start ms) + length username + 2
          in setSelectionRange pos
               (render lower members s (s\<lparr>in_mentionDismissed := False, in_text := str, in_mentionIndex := 0\<rparr>)))"

text \<open>The second component is the text given to \<open>onSend\<close>, if it was called.\<close>

definition handleSubmit ::
  "(jsstring \<Rightarrow> jsstring) \<Rightarrow> mentionMember list \<Rightarrow> bool \<Rightarrow> inputState \<Rightarrow> inputState \<times> jsstring option" where
  "handleSubmit lower members disabled s =
     (if trim (in_text s) = [] \<or> disabled then (s, None)
      else (setSelectionRange 0 (render lower members s (s\<lparr>in_text := []\<rparr>)), Some (in_text s)))"

datatype key = ArrowDown | ArrowUp | Enter | Tab | Escape | OtherKey

datatype inputError = TypeError

definition handleKeyDown ::
  "(jsstring \<Rightarrow> jsstring) \<Rightarrow> mentionMember list \<Rightarrow> bool \<Rightarrow> key \<Rightarrow> bool \<Rightarrow> inputState \<Rightarrow>
   inputError + (inputState \<times> jsstring option)" where
  "handleKeyDown lower members disabled k shift s =
     (case (in_mentionState s, k) of
        (Some ms, ArrowDown) \<Rightarrow>
          Inr (s\<lparr>in_mentionIndex := (in_mentionIndex s + 1) mod length (ms_candidates ms)\<rparr>, None)
      | (Some ms, ArrowUp) \<Rightarrow>
          Inr (s\<lparr>in_mentionIndex := (in_mentionIndex s + length (ms_candidates ms) - 1) mod length (ms_candidates ms)\<rparr>, None)
      | (Some ms, Escape) \<Rightarrow> Inr (render lower members s (s\<lparr>in_mentionDismissed := True\<rparr>), None)
      | (Some ms, OtherKey) \<Rightarrow> Inr (s, None)
      | (Some ms, _) \<Rightarrow>
          if in_mentionIndex s < length (ms_candidates ms)
          then Inr (applyMention lower members (mm_username (ms_candidates ms ! in_mentionIndex s)) s, None)
          else Inl TypeError
      | (None, Enter) \<Rightarrow> Inr (if shift then (s, None) else handleSubmit lower members disabled s)
      | (None, _) \<Rightarrow> Inr (s, None))"

definition insertEmoji :: "(jsstring \<Rightarrow> jsstring) \<Rightarrow> mentionMember list \<Rightarrow> jsstring \<Rightarrow> inputState \<Rightarrow> inputState" where
  "insertEmoji lower members emoji s =
     setSelectionRange (in_selectionStart s + length emoji)
       (render lower members s
          (s\<lparr>in_text := take (in_selectionStart s) (in_text s) @ emoji @ drop (in_selectionEnd s) (in_text s)\<rparr>))"

text \<open>The user edits: the text area has its new value and selection when the handler runs.\<close>

definition onChange :: "(jsstring \<Rightarrow> jsstring) \<Rightarrow> mentionMember list \<Rightarrow> jsstring \<Rightarrow> nat \<Rightarrow> inputState \<Rightarrow> inputState" where
  "onChange lower members val caret s =
     render lower members s
       (s\<lparr>in_mentionDismissed := False, in_text := val, in_selectionStart := caret, in_selectionEnd := caret\<rparr>)"

lemmas input_eval = onChange_def render_def computeMention_def activeMentionQuery_def filterMembers_def handleKeyDown_def
  initialInput_def sampleMembers_def token_def tokenChar_def isSpace_def startsWith_def js_def Let_def

section \<open>The query before the caret\<close>

lemma activeMentionQuery_Some:
  assumes "activeMentionQuery str caret = Some (query, start)" and "caret \<le> length str"
  obtains pre where "take caret str = pre @ 64 # query" "start = int (length pre)"
    "pre = [] \<or> isSpace (last pre)" "list_all tokenChar query"
proof -
  let ?before = "take caret str"
  let ?q = "token (rev ?before)"
  have split: "?q @ drop (length ?q) (rev ?before) = rev ?before"
    unfolding token_def by (metis takeWhile_dropWhile_id dropWhile_eq_drop)
  from assms(1) obtain rest where rest: "drop (length ?q) (rev ?before) = 64 # rest" "rest = [] \<or> isSpace (hd rest)"
    "query = rev ?q" "start = int caret - int (length query) - 1"
    by (auto simp: activeMentionQuery_def Let_def split: list.splits if_splits)
  with split have "rev ?before = rev query @ 64 # rest" by simp
  then have before: "?before = rev rest @ 64 # query"
    by (metis append.assoc append_Cons append_Nil rev_append rev_rev_ident rev_singleton_conv rev.simps(2))
  show ?thesis
  proof (rule that [OF before])
    have "caret = length (rev rest @ 64 # query)"
      using assms(2) before by (metis length_take min.absorb2)
    then show "start = int (length (rev rest))" using rest(4) by simp
    show "rev rest = [] \<or> isSpace (last (rev rest))" using rest(2) by (simp add: last_rev)
    show "list_all tokenChar query"
      using rest(3) set_takeWhileD [of _ tokenChar] by (auto simp: token_def list_all_iff)
  qed
qed

lemma activeMentionQuery_at:
  assumes "take caret str = pre @ 64 # query" and "caret \<le> length str" and "pre = [] \<or> isSpace (last pre)"
    and "list_all tokenChar query"
  shows "activeMentionQuery str caret = Some (query, int (length pre))"
proof -
  have tok: "token (rev (pre @ 64 # query)) = rev query"
    using assms(4) takeWhile_append2 [of "rev query" tokenChar "64 # rev pre"]
    by (simp add: token_def list_all_iff tokenChar_def [of 64])
  have "caret = length (pre @ 64 # query)"
    using assms(1,2) by (metis length_take min.absorb2)
  with tok assms(1,3) show ?thesis
    by (auto simp: activeMentionQuery_def Let_def hd_rev)
qed

lemma computeMention_Some:
  assumes "computeMention lower members s = Some ms" and "in_selectionStart s \<le> length (in_text s)"
  obtains pre where "take (in_selectionStart s) (in_text s) = pre @ 64 # ms_query ms" "ms_start ms = int (length pre)"
    "pre = [] \<or> isSpace (last pre)" "list_all tokenChar (ms_query ms)" "members \<noteq> []" "\<not> in_mentionDismissed s"
    "ms_candidates ms = filterMembers lower members (ms_query ms)" "ms_candidates ms \<noteq> []"
proof -
  from assms(1) have "activeMentionQuery (in_text s) (in_selectionStart s) = Some (ms_query ms, ms_start ms)"
    and "members \<noteq> []" "\<not> in_mentionDismissed s"
    "ms_candidates ms = filterMembers lower members (ms_query ms)" "ms_candidates ms \<noteq> []"
    by (auto simp: computeMention_def Let_def split: if_splits option.splits)
  with activeMentionQuery_Some [OF _ assms(2)] that show ?thesis by metis
qed


section \<open>Picking a member\<close>

lemma byName_member:
  assumes "distinct (map (\<lambda>m. lower (mm_username m)) members)" and "m \<in> set members"
  shows "map_of (byName lower members) (lower (mm_username m)) = Some (mm_userId m)"
proof -
  obtain m' where "find (\<lambda>x. lower (mm_username x) = lower (mm_username m)) (rev members) = Some m'"
    using assms(2) by (metis (mono_tags, lifting) find_None_iff option.exhaust set_rev)
  moreover from this have "m' = m"
    using assms by (metis (mono_tags, lifting) distinct_map find_Some_iff inj_onD length_rev nth_mem set_rev)
  ultimately show ?thesis by (simp add: byName_def map_of_setAll)
qed

lemma space_no_token: "\<not> tokenChar 32"
  by (simp add: tokenChar_def isSpace_def)

lemma inserted_name:
  assumes "pre = [] \<or> isSpace (last pre)" and "list_all tokenChar name" and "name \<noteq> []"
  shows "name \<in> set (namesFrom (pre @ (64 # name @ [32]) @ rest) 0)"
proof -
  let ?str = "pre @ (64 # name @ [32]) @ rest"
  have "token (drop (length pre + 1) ?str) = name"
    using assms(2) takeWhile_append2 [of name tokenChar "32 # rest"]
    by (simp add: token_def list_all_iff tokenChar_def [of 32] isSpace_def [of 32])
  moreover from this have "isMention ?str (length pre)"
    using assms(1,3) by (cases "pre = []") (simp_all add: isMention_def nth_append last_conv_nth)
  ultimately show ?thesis
    using namesFrom_member [of ?str "length pre"] by simp
qed

lemma filterMembers_sub: "m \<in> set (filterMembers lower members query) \<Longrightarrow> m \<in> set members \<and> startsWith (lower (mm_username m)) (lower query)"
  by (auto simp: filterMembers_def dest: in_set_takeD)

lemma onChange_state:
  assumes "val \<noteq> in_text s"
  shows "onChange lower members val caret s =
    s\<lparr>in_mentionDismissed := False, in_text := val, in_selectionStart := caret, in_selectionEnd := caret,
      in_mentionState := computeMention lower members (onChange lower members val caret s)\<rparr>"
  using assms by (simp add: onChange_def render_def computeMention_def)

lemma onChange_fields:
  "in_text (onChange lower members val caret s) = val" "in_selectionStart (onChange lower members val caret s) = caret"
  "\<not> in_mentionDismissed (onChange lower members val caret s)"
  "val \<noteq> in_text s \<Longrightarrow> in_mentionState (onChange lower members val caret s) =
     computeMention lower members (onChange lower members val caret s)"
  by (simp_all add: onChange_def render_def computeMention_def)

lemma onChange_open:
  assumes "val \<noteq> in_text s" and "caret \<le> length val" and "in_mentionState (onChange lower members val caret s) = Some ms"
  obtains pre where "take caret val = pre @ 64 # ms_query ms" "ms_start ms = int (length pre)"
    "pre = [] \<or> isSpace (last pre)" "list_all tokenChar (ms_query ms)" "members \<noteq> []"
    "ms_candidates ms = filterMembers lower members (ms_query ms)" "ms_candidates ms \<noteq> []"
    "take (length pre) val = pre"
proof -
  let ?s = "onChange lower members val caret s"
  have "computeMention lower members ?s = Some ms" using assms(1,3) by (simp add: onChange_fields)
  then obtain pre where pre: "take caret val = pre @ 64 # ms_query ms" "ms_start ms = int (length pre)"
    "pre = [] \<or> isSpace (last pre)" "list_all tokenChar (ms_query ms)" "members \<noteq> []"
    "ms_candidates ms = filterMembers lower members (ms_query ms)" "ms_candidates ms \<noteq> []"
    by (rule computeMention_Some) (use assms(2) in \<open>simp_all add: onChange_fields\<close>)
  have "take (length pre) val = take (length pre) (take caret val)"
    using pre(1) assms(2) by (metis append_eq_conv_conj length_append length_take le_add1 min.absorb1 min.absorb2 take_take)
  with pre that show ?thesis by simp
qed

text \<open>
  C28. Choosing a member from the list completes the mention: after an edit that opened the list, choosing
  one of its members replaces the query before the caret by that member's name and a space, keeps the rest of
  the text, puts the caret after the space, and the finished text mentions that member (names have no white space or
  \<open>@\<close> and are unique up to case).
\<close>

theorem applyMention_mentions:
  assumes "val \<noteq> in_text s" and "caret \<le> length val" and "in_mentionState (onChange lower members val caret s) = Some ms"
    and "m \<in> set (ms_candidates ms)" and "mm_username m \<noteq> []" and "list_all tokenChar (mm_username m)"
    and "distinct (map (\<lambda>m. lower (mm_username m)) members)"
    and "s' = applyMention lower members (mm_username m) (onChange lower members val caret s)"
  shows "in_text s' = take (nat (ms_start ms)) val @ (64 # mm_username m @ [32]) @ drop caret val \<and>
         take (in_selectionStart s') (in_text s') = take (nat (ms_start ms)) val @ (64 # mm_username m @ [32]) \<and>
         mm_userId m \<in> set (extractMentionIds lower (in_text s') members)"
proof -
  obtain pre where pre: "ms_start ms = int (length pre)" "pre = [] \<or> isSpace (last pre)" "members \<noteq> []"
    "ms_candidates ms = filterMembers lower members (ms_query ms)" "take (length pre) val = pre"
    by (rule onChange_open [OF assms(1-3)])
  have str: "in_text s' = pre @ (64 # mm_username m @ [32]) @ drop caret val"
    and pos: "in_selectionStart s' = length (pre @ (64 # mm_username m @ [32]))"
    using assms(3,8) pre(1,5) by (simp_all add: applyMention_def render_def setSelectionRange_def Let_def onChange_fields)
  have "m \<in> set members" using assms(4) pre(4) filterMembers_sub by metis
  then have "mm_userId m \<in> set (extractMentionIds lower (in_text s') members)"
    using extract_member [OF pre(3) _ byName_member [OF assms(7)]] inserted_name [OF pre(2) assms(6,5)] str by metis
  then show ?thesis
    unfolding str pos using pre(1,5) by simp
qed

text \<open>
  C34. The list opens again: the memo is computed with the caret from before the completion, so right after
  a member was chosen the list is open with the same members. Enter then does not send the message but
  puts the first member of the list in place of the one chosen (names compared unit by unit, without white space
  or \<open>@\<close>).
\<close>

theorem completion_reopens:
  assumes "val \<noteq> in_text s" and "caret \<le> length val" and "in_mentionState (onChange (map f) members val caret s) = Some ms"
    and "m \<in> set (ms_candidates ms)" and "list_all tokenChar (mm_username m)"
    and "s' = applyMention (map f) members (mm_username m) (onChange (map f) members val caret s)"
  shows "map_option ms_candidates (in_mentionState s') = Some (ms_candidates ms) \<and>
         (\<exists>s''. handleKeyDown (map f) members disabled Enter shift s' = Inr (s'', None) \<and>
            in_text s'' = take (nat (ms_start ms)) val @ (64 # mm_username (hd (ms_candidates ms)) @ [32]) @ drop caret val)"
proof -
  obtain pre where pre: "take caret val = pre @ 64 # ms_query ms" "ms_start ms = int (length pre)" "pre = [] \<or> isSpace (last pre)"
    "list_all tokenChar (ms_query ms)" "members \<noteq> []" "ms_candidates ms = filterMembers (map f) members (ms_query ms)"
    "ms_candidates ms \<noteq> []" "take (length pre) val = pre"
    by (rule onChange_open [OF assms(1-3)])
  let ?n = "length (ms_query ms)" and ?name = "mm_username m"
  let ?str = "pre @ (64 # ?name @ [32]) @ drop caret val"
  have caret: "caret = length pre + 1 + ?n"
    using pre(1) assms(2) by (metis length_take min.absorb2 length_append length_Cons add.assoc Suc_eq_plus1 add.commute)
  have prefix: "take ?n (map f ?name) = map f (ms_query ms)" and len: "?n \<le> length ?name"
    using filterMembers_sub [of m "map f" members "ms_query ms"] assms(4) pre(6)
    by (simp_all add: startsWith_def) (metis length_map length_take min.cobounded1)
  have "take caret ?str = pre @ 64 # take ?n ?name" using caret len by simp
  then have active: "activeMentionQuery ?str caret = Some (take ?n ?name, int (length pre))"
    using pre(3) assms(5) len caret by (intro activeMentionQuery_at) (auto simp: list_all_iff dest: in_set_takeD)
  have same: "filterMembers (map f) members (take ?n ?name) = ms_candidates ms"
    using prefix pre(6) by (simp add: filterMembers_def take_map)
  have val: "val = pre @ 64 # ms_query ms @ drop caret val"
    using pre(1) append_take_drop_id [of caret val] by simp
  have differ: "?str \<noteq> val"
  proof
    assume "?str = val"
    then have "?str = pre @ 64 # ms_query ms @ drop caret val" using val by argo
    then have "(?name @ [32]) @ drop caret val = ms_query ms @ drop caret val" by simp
    then have "ms_query ms = ?name @ [32]" unfolding append_same_eq by simp
    then show False using pre(4) space_no_token by simp
  qed
  let ?ms = "\<lparr>ms_query = take ?n ?name, ms_start = int (length pre), ms_candidates = ms_candidates ms\<rparr>"
  have s': "in_text s' = ?str" "in_selectionStart s' = length pre + length ?name + 2" "in_mentionIndex s' = 0" "in_mentionState s' = Some ?ms"
    using assms(3,6) pre differ active same
    by (simp_all add: applyMention_def render_def setSelectionRange_def Let_def onChange_fields computeMention_def)
  have "handleKeyDown (map f) members disabled Enter shift s' = Inr (applyMention (map f) members (mm_username (hd (ms_candidates ms))) s', None)"
    using s' pre(7) by (simp add: handleKeyDown_def hd_conv_nth)
  moreover have "in_text (applyMention (map f) members (mm_username (hd (ms_candidates ms))) s') =
      pre @ (64 # mm_username (hd (ms_candidates ms)) @ [32]) @ drop caret val"
    using s' by (simp add: applyMention_def render_def setSelectionRange_def Let_def)
  ultimately show ?thesis using s'(4) pre(2,8) by auto
qed

text \<open>
  C35. Enter or Tab can fail with a \<open>TypeError\<close>: typing does not reset the highlighted row, so whenever an
  edit leaves a list that is not longer than the number of the row highlighted before it, the choice
  of the row reads past the end of the list.
\<close>

theorem enter_past_the_list:
  assumes "in_mentionState (onChange lower members val caret s) = Some ms"
    and "length (ms_candidates ms) \<le> in_mentionIndex s" and "k \<in> {Enter, Tab}"
  shows "handleKeyDown lower members disabled k shift (onChange lower members val caret s) = Inl TypeError"
  using assms by (auto simp: handleKeyDown_def onChange_def render_def Let_def)

theorem enter_past_the_list_witness:
  "\<exists>s2. handleKeyDown (\<lambda>s. s) sampleMembers False ArrowDown False (onChange (\<lambda>s. s) sampleMembers (js ''@'') 1 initialInput) =
       Inr (s2, None) \<and>
     handleKeyDown (\<lambda>s. s) sampleMembers False Enter False (onChange (\<lambda>s. s) sampleMembers (js ''@b'') 2 s2) = Inl TypeError"
proof -
  let ?s2 = "\<lparr>in_text = js ''@'', in_mentionIndex = 1, in_mentionDismissed = False, in_selectionStart = 1, in_selectionEnd = 1,
    in_mentionState = Some \<lparr>ms_query = [], ms_start = 0, ms_candidates = sampleMembers\<rparr>\<rparr>"
  have "handleKeyDown (\<lambda>s. s) sampleMembers False ArrowDown False (onChange (\<lambda>s. s) sampleMembers (js ''@'') 1 initialInput) =
      Inr (?s2, None)"
    by (simp add: input_eval)
  moreover have "handleKeyDown (\<lambda>s. s) sampleMembers False Enter False (onChange (\<lambda>s. s) sampleMembers (js ''@b'') 2 ?s2) = Inl TypeError"
    by (rule enter_past_the_list
        [where ms = "\<lparr>ms_query = js ''b'', ms_start = 0, ms_candidates = [\<lparr>mm_userId = 8, mm_username = js ''bob''\<rparr>]\<rparr>"])
      (simp_all add: input_eval)
  ultimately show ?thesis by blast
qed

text \<open>Example: the list opened by \<open>hi @b\<close>.\<close>

definition sampleInput :: inputState where
  "sampleInput = onChange (map (\<lambda>c. c)) sampleMembers (js ''hi @b'') 5 initialInput"

definition sampleMention :: mentionState where
  "sampleMention = \<lparr>ms_query = js ''b'', ms_start = 3, ms_candidates = [\<lparr>mm_userId = 8, mm_username = js ''bob''\<rparr>]\<rparr>"

lemma sampleInput_open: "in_mentionState sampleInput = Some sampleMention"
  by (simp add: sampleInput_def sampleMention_def input_eval)

theorem applyMention_mentions_witness:
  "in_text (applyMention (map (\<lambda>c. c)) sampleMembers (js ''bob'') sampleInput) = js ''hi @bob '' \<and>
   8 \<in> set (extractMentionIds (map (\<lambda>c. c)) (js ''hi @bob '') sampleMembers)"
  using applyMention_mentions [of "js ''hi @b''" initialInput 5 "map (\<lambda>c. c)" sampleMembers sampleMention
    "\<lparr>mm_userId = 8, mm_username = js ''bob''\<rparr>", OF _ _ sampleInput_open [unfolded sampleInput_def] _ _ _ _ refl]
  by (auto simp: sampleInput_def sampleMention_def sampleMembers_def initialInput_def tokenChar_def isSpace_def js_def)

theorem completion_reopens_witness:
  "map_option ms_candidates (in_mentionState (applyMention (map (\<lambda>c. c)) sampleMembers (js ''bob'') sampleInput)) =
     Some [\<lparr>mm_userId = 8, mm_username = js ''bob''\<rparr>]"
  using completion_reopens [of "js ''hi @b''" initialInput 5 "\<lambda>c. c" sampleMembers sampleMention
    "\<lparr>mm_userId = 8, mm_username = js ''bob''\<rparr>", OF _ _ sampleInput_open [unfolded sampleInput_def] _ _ refl]
  by (simp add: sampleInput_def sampleMention_def initialInput_def tokenChar_def isSpace_def js_def)

end
