(* ===== verification/Pages.thy ===== *)
theory Pages
  imports JS_Prelude "HOL-Library.AList"
begin

text \<open>
  Pages from the end of a sorted list: the last \<open>n\<close> elements, how a page is made from one more row than asked for, and
  the page of two merged sources.
\<close>

section \<open>Pages of a sorted list\<close>

definition lastN :: "nat \<Rightarrow> 'a list \<Rightarrow> 'a list" where
  "lastN n xs = drop (length xs - n) xs"

lemma lastN_rev: "rev (take n (rev xs)) = lastN n xs"
  by (simp add: lastN_def rev_take)

lemma length_lastN [simp]: "length (lastN n xs) = min n (length xs)"
  by (simp add: lastN_def)

lemma set_lastN: "set (lastN n xs) \<subseteq> set xs"
  by (simp add: lastN_def set_drop_subset)

lemma lastN_all: "length xs \<le> n \<Longrightarrow> lastN n xs = xs"
  by (simp add: lastN_def)

lemma lastN_lastN: "n \<le> k \<Longrightarrow> lastN n (lastN k xs) = lastN n xs"
  by (cases "length xs \<le> k") (simp_all add: lastN_def)

lemma distinct_part:
  assumes "distinct (map (\<lambda>m. (f m, g m)) xs)"
  shows "distinct (map g (filter (\<lambda>m. f m = c \<and> P m) xs))"
  using assms
proof (induction xs)
  case (Cons x xs)
  then show ?case by (auto simp: image_iff)
qed simp

lemma update_new: "k \<notin> fst ` set m \<Longrightarrow> AList.update k v m = m @ [(k, v)]"
  by (induction m) auto

lemma setAll_distinct:
  assumes "distinct (map key xs)"
  shows "setAll key val [] xs = map (\<lambda>x. (key x, val x)) xs"
proof -
  have "distinct (keys m @ map key xs) \<Longrightarrow> setAll key val m xs = m @ map (\<lambda>x. (key x, val x)) xs" for m
  proof (induction xs arbitrary: m)
    case (Cons x xs)
    then have "AList.update (key x) (val x) m = m @ [(key x, val x)]"
      by (intro update_new) auto
    with Cons show ?case by (simp add: setAll_def)
  qed (simp add: setAll_def)
  from this [of "[]"] assms show ?thesis by simp
qed

lemma sort_key_filter: "sort_key k (filter P xs) = filter P (sort_key k xs)"
  by (simp add: filter_sort)

lemma sort_key_eqI:
  assumes "set xs = set ys" and "distinct (map k xs)" and "distinct (map k ys)" and "sorted (map k ys)"
  shows "sort_key k xs = ys"
proof -
  have "map k (sort_key k xs) = map k ys"
    using assms by (intro sorted_distinct_set_unique) (auto simp: distinct_map)
  moreover have "inj_on k (set (sort_key k xs) \<union> set ys)"
    using assms by (simp add: distinct_map)
  ultimately show ?thesis by (rule map_inj_on)
qed

lemma sorted_lastN: "sorted (map k xs) \<Longrightarrow> sorted (map k (lastN n xs))"
  by (simp add: lastN_def drop_map [symmetric] sorted_wrt_drop)

lemma distinct_lastN: "distinct (map k xs) \<Longrightarrow> distinct (map k (lastN n xs))"
  by (simp add: lastN_def drop_map [symmetric])

lemma distinct_sort_keys: "distinct (map k (sort_key k xs)) = distinct (map k xs)"
  by (simp add: distinct_map)

lemma distinct_newest:
  assumes "distinct (map k xs)"
  shows "distinct (map k (take n (rev (sort_key k xs))))"
proof -
  have "distinct (map k (lastN n (sort_key k xs)))" using assms by (simp add: distinct_lastN distinct_sort_keys)
  then show ?thesis by (simp only: lastN_rev [symmetric] rev_map [symmetric] distinct_rev)
qed

text \<open>Sorting the newest rows again gives the end of the log.\<close>

lemma newest_page:
  assumes "distinct (map k xs)"
  shows "sort_key k (take n (rev (sort_key k xs))) = lastN n (sort_key k xs)"
proof (rule sort_key_eqI)
  show "set (take n (rev (sort_key k xs))) = set (lastN n (sort_key k xs))"
    by (simp only: lastN_rev [symmetric] set_rev)
  show "distinct (map k (lastN n (sort_key k xs)))" using assms by (simp add: distinct_lastN distinct_sort_keys)
  show "distinct (map k (take n (rev (sort_key k xs))))" by (rule distinct_newest [OF assms])
qed (simp add: sorted_lastN)

lemma lastN_Suc: "lastN l (lastN (Suc l) L) = lastN l L" "l < length (lastN (Suc l) L) \<longleftrightarrow> l < length L"
  by (auto simp: lastN_lastN)

section \<open>Two sources merged\<close>

text \<open>An element is among the last \<open>n\<close> of a strictly sorted list iff fewer than \<open>n\<close> are larger.\<close>

lemma lastN_iff:
  assumes "sorted (map k xs)" and "distinct (map k xs)"
  shows "x \<in> set (lastN n xs) \<longleftrightarrow> x \<in> set xs \<and> card {y \<in> set xs. k x < k y} < n"
proof (cases "x \<in> set xs")
  case True
  then obtain i where i: "i < length xs" "x = xs ! i" by (auto simp: in_set_conv_nth)
  have strict: "sorted_wrt (\<lambda>a b. k a < k b) xs"
    using assms by (metis strict_sorted_iff sorted_wrt_map)
  have split: "xs = take i xs @ x # drop (Suc i) xs" using i id_take_nth_drop by metis
  have before: "\<forall>y \<in> set (take i xs). k y < k x" and after: "\<forall>y \<in> set (drop (Suc i) xs). k x < k y"
    using strict by (subst (asm) split, simp add: sorted_wrt_append)+
  have "set xs = set (take i xs) \<union> {x} \<union> set (drop (Suc i) xs)" by (subst split) simp
  with before after have larger: "{y \<in> set xs. k x < k y} = set (drop (Suc i) xs)" by force
  have "distinct xs" using assms(2) by (simp add: distinct_map)
  then have card: "card {y \<in> set xs. k x < k y} = length xs - Suc i" unfolding larger by (simp add: distinct_card)
  have "x \<in> set (lastN n xs) \<longleftrightarrow> length xs - n \<le> i"
  proof
    assume "x \<in> set (lastN n xs)"
    then obtain j where j: "j < length xs - (length xs - n)" "xs ! (length xs - n + j) = x"
      unfolding lastN_def in_set_conv_nth by (simp add: nth_drop) metis
    then show "length xs - n \<le> i"
      using nth_eq_iff_index_eq [OF \<open>distinct xs\<close>, of "length xs - n + j" i] i by simp
  next
    assume "length xs - n \<le> i"
    then have "drop (length xs - n) xs ! (i - (length xs - n)) = x" "i - (length xs - n) < length (drop (length xs - n) xs)"
      using i by simp_all
    then show "x \<in> set (lastN n xs)" unfolding lastN_def by (metis nth_mem)
  qed
  with card i(1) True show ?thesis by (simp only: True simp_thms) arith
qed (use set_lastN [of n xs] in auto)

lemma larger_keys:
  assumes "distinct (map k xs)" and "K \<subseteq> k ` set xs" and "\<forall>q\<in>K. k x < q" and "n \<le> card K"
  shows "n \<le> card {y \<in> set xs. k x < k y}"
proof -
  have "K \<subseteq> k ` {y \<in> set xs. k x < k y}" using assms(2,3) by auto
  then have "card K \<le> card (k ` {y \<in> set xs. k x < k y})" by (simp add: card_mono)
  also have "\<dots> \<le> card {y \<in> set xs. k x < k y}" by (simp add: card_image_le)
  finally show ?thesis using assms(4) by simp
qed

lemma same_page_sub:
  assumes "sorted (map k G)" "distinct (map k G)" "sorted (map k M)" "distinct (map k M)"
    and covered: "\<And>x. x \<in> set G \<Longrightarrow> x \<notin> set M \<Longrightarrow> n \<le> card {y \<in> set G. k x < k y}"
    and covered': "\<And>x. x \<in> set M \<Longrightarrow> x \<notin> set G \<Longrightarrow> n \<le> card {y \<in> set G. k x < k y}"
  shows "set (lastN n G) \<subseteq> set (lastN n M)"
proof
  fix x assume "x \<in> set (lastN n G)"
  then have x: "x \<in> set G" "card {y \<in> set G. k x < k y} < n" using lastN_iff [OF assms(1,2)] by auto
  then have "x \<in> set M" using covered by fastforce
  moreover have "{y \<in> set M. k x < k y} \<subseteq> {y \<in> set G. k x < k y}"
  proof
    fix y assume y: "y \<in> {y \<in> set M. k x < k y}"
    have "card {z \<in> set G. k y < k z} \<le> card {z \<in> set G. k x < k z}"
      using y by (intro card_mono) auto
    with x(2) covered' [of y] y show "y \<in> {y \<in> set G. k x < k y}" by fastforce
  qed
  then have "card {y \<in> set M. k x < k y} \<le> card {y \<in> set G. k x < k y}" by (intro card_mono) auto
  ultimately show "x \<in> set (lastN n M)" using lastN_iff [OF assms(3,4)] x(2) by simp
qed


lemma same_page:
  assumes "sorted (map k G)" "distinct (map k G)" "sorted (map k M)" "distinct (map k M)"
    and covered: "\<And>x. x \<in> (set G - set M) \<union> (set M - set G) \<Longrightarrow>
      \<exists>K. K \<subseteq> k ` set G \<and> K \<subseteq> k ` set M \<and> (\<forall>q\<in>K. k x < q) \<and> n < card K"
  shows "lastN n G = lastN n M" and "n < length G \<longleftrightarrow> n < length M"
proof -
  have less: "n \<le> card {y \<in> set G. k x < k y} \<and> n \<le> card {y \<in> set M. k x < k y}"
    if x: "x \<in> (set G - set M) \<union> (set M - set G)" for x
    using covered [OF x] larger_keys [OF assms(2)] larger_keys [OF assms(4)] by (meson less_imp_le_nat)
  have "set (lastN n G) = set (lastN n M)"
    using same_page_sub [OF assms(1-4)] same_page_sub [OF assms(3,4,1,2)] less by blast
  then have "sort_key k (lastN n G) = lastN n M"
    using assms by (intro sort_key_eqI) (simp_all add: sorted_lastN distinct_lastN)
  moreover have "sort_key k (lastN n G) = lastN n G"
    using assms by (intro sort_key_eqI) (simp_all add: sorted_lastN distinct_lastN)
  ultimately show "lastN n G = lastN n M" by simp
  show "n < length G \<longleftrightarrow> n < length M"
  proof (cases "set G = set M")
    case True
    then show ?thesis using assms(2,4) by (metis distinct_card distinct_map)
  next
    case False
    then obtain x where x: "x \<in> (set G - set M) \<union> (set M - set G)" by blast
    from covered [OF this] obtain K where "K \<subseteq> k ` set G" "K \<subseteq> k ` set M" "n < card K" by blast
    then have "n < card (k ` set G)" "n < card (k ` set M)" by (meson card_mono finite_imageI finite_set less_le_trans)+
    then show ?thesis using assms(2,4) by (metis distinct_card length_map list.set_map)
  qed
qed

text \<open>
  The newest \<open>n\<close> of the union of two sources, the first one winning, from the newest \<open>n + 1\<close> of each.
\<close>

definition preferFirst :: "('a \<Rightarrow> 'k) \<Rightarrow> 'a list \<Rightarrow> 'a list \<Rightarrow> 'a list" where
  "preferFirst k A B = A @ filter (\<lambda>b. k b \<notin> k ` set A) B"

lemma distinct_preferFirst:
  "distinct (map k A) \<Longrightarrow> distinct (map k B) \<Longrightarrow> distinct (map k (preferFirst k A B))"
proof -
  assume d: "distinct (map k A)" "distinct (map k B)"
  have "map k (filter (\<lambda>b. k b \<notin> k ` set A) B) = filter (\<lambda>q. q \<notin> k ` set A) (map k B)"
    by (simp add: filter_map o_def)
  with d show "distinct (map k (preferFirst k A B))"
    unfolding preferFirst_def map_append by (simp only: distinct_append distinct_filter) auto
qed

lemma keys_preferFirst: "k ` set (preferFirst k A B) = k ` set A \<union> k ` set B"
  by (auto simp: preferFirst_def)

lemma newest_rest:
  assumes "distinct (map k A)" and "x \<in> set A" and "x \<notin> set (lastN (Suc n) (sort_key k A))"
  shows "\<forall>q \<in> k ` set (lastN (Suc n) (sort_key k A)). k x < q" and "n < card (k ` set (lastN (Suc n) (sort_key k A)))"
proof -
  let ?L = "sort_key k A" let ?T = "lastN (Suc n) ?L"
  have L: "sorted (map k ?L)" "distinct (map k ?L)" using assms(1) by (simp_all add: distinct_map)
  have many: "Suc n \<le> card {y \<in> set ?L. k x < k y}" using assms(2,3) lastN_iff [OF L] by auto
  have "card {y \<in> set ?L. k x < k y} \<le> length ?L"
    using card_mono [of "set ?L" "{y \<in> set ?L. k x < k y}"] card_length [of ?L] by simp
  with many have "length ?T = Suc n" by simp
  then show "n < card (k ` set ?T)"
    using distinct_lastN [OF L(2), of "Suc n"] by (metis distinct_card length_map lessI list.set_map)
  show "\<forall>q \<in> k ` set ?T. k x < q"
  proof (rule ballI, rule ccontr)
    fix q assume "q \<in> k ` set ?T" "\<not> k x < q"
    then obtain t where t: "t \<in> set ?T" "k t \<le> k x" by auto
    then have "t \<in> set ?L" "card {y \<in> set ?L. k t < k y} < Suc n" using lastN_iff [OF L] by auto
    moreover have "card {y \<in> set ?L. k x < k y} \<le> card {y \<in> set ?L. k t < k y}"
      using t(2) by (intro card_mono) auto
    ultimately show False using many by simp
  qed
qed

lemma merged_page:
  fixes n :: nat and k :: "'a \<Rightarrow> 'k::linorder" and A B :: "'a list"
  assumes "distinct (map k A)" and "distinct (map k B)"
  defines "A' \<equiv> lastN (Suc n) (sort_key k A)" and "B' \<equiv> lastN (Suc n) (sort_key k B)"
  defines "G \<equiv> sort_key k (preferFirst k A B)" and "M \<equiv> sort_key k (preferFirst k A' B')"
  shows "lastN n M = lastN n G" and "n < length M \<longleftrightarrow> n < length G"
proof -
  have sub: "set A' \<subseteq> set A" "set B' \<subseteq> set B"
    using set_lastN [of "Suc n" "sort_key k A"] set_lastN [of "Suc n" "sort_key k B"] by (simp_all add: A'_def B'_def)
  have d: "distinct (map k A')" "distinct (map k B')"
    unfolding A'_def B'_def by (rule distinct_lastN, simp only: distinct_sort_keys assms(1,2))+
  have ordered: "sorted (map k G)" "distinct (map k G)" "sorted (map k M)" "distinct (map k M)"
    using distinct_preferFirst [OF assms(1,2)] distinct_preferFirst [OF d] by (simp_all add: G_def M_def distinct_map)
  have keysG: "k ` set G = k ` set A \<union> k ` set B" and keysM: "k ` set M = k ` set A' \<union> k ` set B'"
    using keys_preferFirst [of k A B] keys_preferFirst [of k A' B'] by (simp_all add: G_def M_def)
  have covered: "\<exists>K. K \<subseteq> k ` set G \<and> K \<subseteq> k ` set M \<and> (\<forall>q\<in>K. k x < q) \<and> n < card K"
    if x: "x \<in> (set G - set M) \<union> (set M - set G)" for x
  proof -
    have "(\<exists>a \<in> set A. a \<notin> set A' \<and> k a = k x) \<or> (x \<in> set B \<and> x \<notin> set B')"
      using x sub by (auto simp: G_def M_def preferFirst_def)
    then show ?thesis
    proof
      assume "\<exists>a \<in> set A. a \<notin> set A' \<and> k a = k x"
      then obtain a where "a \<in> set A" "a \<notin> set A'" "k a = k x" by blast
      with newest_rest [OF assms(1), of a n] sub keysG keysM show ?thesis
        unfolding A'_def by (intro exI [of _ "k ` set A'"]) (auto simp: A'_def)
    next
      assume "x \<in> set B \<and> x \<notin> set B'"
      with newest_rest [OF assms(2), of x n] sub keysG keysM show ?thesis
        unfolding B'_def by (intro exI [of _ "k ` set B'"]) (auto simp: B'_def)
    qed
  qed
  show "lastN n M = lastN n G" using same_page(1) [OF ordered covered] by simp
  show "n < length M \<longleftrightarrow> n < length G" using same_page(2) [OF ordered covered] by simp
qed


text \<open>The same from the rows as fetched, newest first.\<close>

lemma merged_page_fetched:
  fixes n :: nat and k :: "'a \<Rightarrow> 'k::linorder" and A B :: "'a list"
  assumes "distinct (map k A)" and "distinct (map k B)"
  defines "M \<equiv> sort_key k (preferFirst k (take (Suc n) (rev (sort_key k A))) (take (Suc n) (rev (sort_key k B))))"
    and "G \<equiv> sort_key k (preferFirst k A B)"
  shows "lastN n M = lastN n G" and "n < length M \<longleftrightarrow> n < length G"
proof -
  let ?A = "lastN (Suc n) (sort_key k A)" and ?B = "lastN (Suc n) (sort_key k B)"
  let ?A' = "take (Suc n) (rev (sort_key k A))" and ?B' = "take (Suc n) (rev (sort_key k B))"
  have sets: "set ?A' = set ?A" "set ?B' = set ?B" by (simp_all only: lastN_rev [symmetric] set_rev)
  have d: "distinct (map k ?A')" "distinct (map k ?B')" by (simp_all only: distinct_newest assms(1,2))
  have d': "distinct (map k ?A)" "distinct (map k ?B)" by (rule distinct_lastN, simp only: distinct_sort_keys assms(1,2))+
  have "M = sort_key k (preferFirst k ?A ?B)"
    unfolding M_def
  proof (rule sort_key_eqI)
    show "set (preferFirst k ?A' ?B') = set (sort_key k (preferFirst k ?A ?B))"
      using sets by (simp add: preferFirst_def)
    show "distinct (map k (preferFirst k ?A' ?B'))" by (rule distinct_preferFirst [OF d])
    show "distinct (map k (sort_key k (preferFirst k ?A ?B)))"
      unfolding distinct_sort_keys by (rule distinct_preferFirst [OF d'])
  qed simp
  then show "lastN n M = lastN n G" "n < length M \<longleftrightarrow> n < length G"
    using merged_page [OF assms(1,2), of n] by (simp_all only: G_def)
qed

end
