(* ===== verification/Pull_Service.thy ===== *)
theory Pull_Service
  imports Wire Pages
begin

text \<open>
  The pull service behind the history of a conversation: the storage queries of
  \<^verbatim>\<open>internal/msgworker/storage.go\<close> and \<open>PullMessages\<close> of \<^verbatim>\<open>internal/service/message.go\<close> (from the limit on; the
  checks of the topic and of the access before it are not modelled). MongoDB is the record \<open>mongo\<close>, one query
  function per collection, and what the code relies on is the locale \<open>message_store\<close>: a query returns the matching
  rows in the order of \<open>topic_seq\<close> asked for, up to the limit.
\<close>

section \<open>Definitions\<close>

record inboxMessage =
  im_UserID :: int
  im_MsgID :: int
  im_Topic :: jsstring
  im_SenderID :: int
  im_MsgType :: int
  im_Content :: bytes
  im_Timestamp :: int
  im_TopicSeq :: "64 word"
  im_ClientMsgID :: jsstring
  im_Recalled :: bool
  im_Read :: bool

text \<open>\<open>MentionMessage\<close> has the fields of \<open>InboxMessage\<close>. The times of delivery and creation are left out: no query returns them.\<close>

type_synonym mentionMessage = inboxMessage

record storedMessage =
  st_MsgID :: int
  st_Topic :: jsstring
  st_SenderID :: int
  st_MsgType :: int
  st_Content :: bytes
  st_Timestamp :: int
  st_TopicSeq :: "64 word"
  st_ClientMsgID :: jsstring
  st_Recalled :: bool

datatype serverTopic = TopicTypeP2P | TopicTypeGroup | TopicTypeSystem | TopicTypeUnknown

definition ParseTopicType :: "jsstring \<Rightarrow> serverTopic" where
  "ParseTopicType topic =
     (if startsWith topic (js ''p2p_'') then TopicTypeP2P
      else if startsWith topic (js ''grp_'') then TopicTypeGroup
      else if startsWith topic (js ''sys_'') then TopicTypeSystem
      else TopicTypeUnknown)"

datatype storageError = FindFailed | UnknownTopicType

datatype sortDir = Ascending | Descending

text \<open>\<open>Find\<close> with a filter, the order of \<open>topic_seq\<close> and a limit, and \<open>cursor.All\<close>.\<close>

type_synonym 'row find = "('row \<Rightarrow> bool) \<Rightarrow> sortDir \<Rightarrow> nat \<Rightarrow> storageError + 'row list"

record mongo =
  mg_inboxes :: "inboxMessage find"
  mg_messages :: "storedMessage find"
  mg_mentions :: "mentionMessage find"

definition clampLimit :: "int \<Rightarrow> nat" where
  "clampLimit limit = (if limit \<le> 0 \<or> limit > 100 then 50 else nat limit)"

definition GetGroupMessages :: "mongo \<Rightarrow> jsstring \<Rightarrow> 64 word \<Rightarrow> int \<Rightarrow> storageError + storedMessage list" where
  "GetGroupMessages db topic lastSeq limit =
     mg_messages db (\<lambda>m. st_Topic m = topic \<and> st_TopicSeq m > lastSeq) Ascending (clampLimit limit)"

definition GetMentionMessages :: "mongo \<Rightarrow> int \<Rightarrow> jsstring \<Rightarrow> 64 word \<Rightarrow> int \<Rightarrow> storageError + mentionMessage list" where
  "GetMentionMessages db userID topic lastSeq limit =
     mg_mentions db (\<lambda>m. im_UserID m = userID \<and> im_Topic m = topic \<and> im_TopicSeq m > lastSeq) Ascending (clampLimit limit)"

text \<open>The row built for a message of a group: \<open>Recalled\<close> and \<open>Read\<close> are not set, so they are false.\<close>

definition groupRow :: "int \<Rightarrow> storedMessage \<Rightarrow> inboxMessage" where
  "groupRow userID gm =
     \<lparr>im_UserID = userID, im_MsgID = st_MsgID gm, im_Topic = st_Topic gm, im_SenderID = st_SenderID gm,
      im_MsgType = st_MsgType gm, im_Content = st_Content gm, im_Timestamp = st_Timestamp gm,
      im_TopicSeq = st_TopicSeq gm, im_ClientMsgID = st_ClientMsgID gm, im_Recalled = False, im_Read = False\<rparr>"

definition mentionRow :: "int \<Rightarrow> mentionMessage \<Rightarrow> inboxMessage" where
  "mentionRow userID mm = mm\<lparr>im_UserID := userID, im_Recalled := False, im_Read := False\<rparr>"

text \<open>
  The final \<open>sort.Slice\<close> does not fix the order of equal numbers; a stable sort is one of its results.
\<close>

definition GetOfflineMessages :: "mongo \<Rightarrow> int \<Rightarrow> jsstring \<Rightarrow> 64 word \<Rightarrow> int \<Rightarrow> storageError + inboxMessage list" where
  "GetOfflineMessages db userID topic lastSeq limit0 =
     (let limit = clampLimit limit0 in
      case mg_inboxes db (\<lambda>m. im_UserID m = userID \<and> im_Topic m = topic \<and> im_TopicSeq m > lastSeq) Ascending limit of
        Inl e \<Rightarrow> Inl e
      | Inr results \<Rightarrow>
          let results =
                (if ParseTopicType topic = TopicTypeGroup then
                   (case GetGroupMessages db topic lastSeq (int limit) of
                      Inl e \<Rightarrow> results
                    | Inr groupMsgs \<Rightarrow>
                        foldl (\<lambda>results gm. if st_TopicSeq gm \<in> im_TopicSeq ` set results then results
                                                else results @ [groupRow userID gm]) results groupMsgs)
                 else results)
          in Inr (take limit (sort_key im_TopicSeq results)))"

text \<open>\<open>merged\<close> is a Go map: its order is lost by the sort, which sees each \<open>TopicSeq\<close> once.\<close>

definition historyRows :: "mongo \<Rightarrow> int \<Rightarrow> jsstring \<Rightarrow> 64 word \<Rightarrow> nat \<Rightarrow> storageError + (64 word, inboxMessage) jsmap" where
  "historyRows db userID topic endSeq fetchLimit =
     (let seqFilter = (\<lambda>q. endSeq > 0 \<longrightarrow> q < endSeq) in
      case ParseTopicType topic of
        TopicTypeUnknown \<Rightarrow> Inl UnknownTopicType
      | TopicTypeGroup \<Rightarrow>
          (case mg_messages db (\<lambda>m. st_Topic m = topic \<and> seqFilter (st_TopicSeq m)) Descending fetchLimit of
             Inl e \<Rightarrow> Inl e
           | Inr stored \<Rightarrow>
               (case mg_mentions db (\<lambda>m. im_UserID m = userID \<and> im_Topic m = topic \<and> seqFilter (im_TopicSeq m)) Descending fetchLimit of
                  Inl e \<Rightarrow> Inl e
                | Inr mentions \<Rightarrow>
                    Inr (foldl (\<lambda>merged mm. if hasKey merged (im_TopicSeq mm) then merged
                                            else AList.update (im_TopicSeq mm) (mentionRow userID mm) merged)
                           (setAll st_TopicSeq (groupRow userID) [] stored) mentions)))
      | _ \<Rightarrow>
          (case mg_inboxes db (\<lambda>m. im_UserID m = userID \<and> im_Topic m = topic \<and> seqFilter (im_TopicSeq m)) Descending fetchLimit of
             Inl e \<Rightarrow> Inl e
           | Inr rows \<Rightarrow> Inr (setAll im_TopicSeq (\<lambda>m. m) [] rows)))"

definition historyPage :: "(64 word, inboxMessage) jsmap \<Rightarrow> nat \<Rightarrow> inboxMessage list \<times> bool" where
  "historyPage merged limit =
     (let results = rev (sort_key im_TopicSeq (map snd merged));
          hasMore = length results > limit;
          results = (if hasMore then take limit results else results)
      in (rev results, hasMore))"

definition GetHistoryMessages ::
  "mongo \<Rightarrow> int \<Rightarrow> jsstring \<Rightarrow> 64 word \<Rightarrow> int \<Rightarrow> storageError + (inboxMessage list \<times> bool)" where
  "GetHistoryMessages db userID topic endSeq limit =
     (case historyRows db userID topic endSeq (clampLimit limit + 1) of
        Inl e \<Rightarrow> Inl e
      | Inr merged \<Rightarrow> Inr (historyPage merged (clampLimit limit)))"

record pullMessageGo =
  pg_MsgId :: int
  pg_Topic :: jsstring
  pg_SenderId :: int
  pg_MsgType :: int
  pg_Content :: bytes
  pg_Timestamp :: int
  pg_TopicSeq :: "64 word"
  pg_ClientMsgId :: jsstring
  pg_Recalled :: bool

record pullReplyGo =
  pr_Messages :: "pullMessageGo list"
  pr_HasMore :: bool
  pr_NextSeq :: "64 word"

definition inboxToPull :: "inboxMessage \<Rightarrow> pullMessageGo" where
  "inboxToPull m =
     \<lparr>pg_MsgId = im_MsgID m, pg_Topic = im_Topic m, pg_SenderId = im_SenderID m, pg_MsgType = im_MsgType m,
      pg_Content = im_Content m, pg_Timestamp = im_Timestamp m, pg_TopicSeq = im_TopicSeq m,
      pg_ClientMsgId = [], pg_Recalled = im_Recalled m\<rparr>"

definition storedToPull :: "storedMessage \<Rightarrow> pullMessageGo" where
  "storedToPull m =
     \<lparr>pg_MsgId = st_MsgID m, pg_Topic = st_Topic m, pg_SenderId = st_SenderID m, pg_MsgType = st_MsgType m,
      pg_Content = st_Content m, pg_Timestamp = st_Timestamp m, pg_TopicSeq = st_TopicSeq m,
      pg_ClientMsgId = [], pg_Recalled = st_Recalled m\<rparr>"

text \<open>The order of equal numbers after \<open>sort.Slice\<close> is unspecified in Go; a stable sort is one of them.\<close>

definition mergeAndSortMessages :: "storedMessage list \<Rightarrow> mentionMessage list \<Rightarrow> pullMessageGo list" where
  "mergeAndSortMessages groupMsgs mentionMsgs = sort_key pg_TopicSeq (map storedToPull groupMsgs @ map inboxToPull mentionMsgs)"

text \<open>
  \<open>PullMessages\<close> after the checks of the topic and of the access to it.
\<close>

definition emptyReply :: pullReplyGo where
  "emptyReply = \<lparr>pr_Messages = [], pr_HasMore = False, pr_NextSeq = 0\<rparr>"

definition PullMessages :: "mongo \<Rightarrow> int \<Rightarrow> jsstring \<Rightarrow> 64 word \<Rightarrow> int \<Rightarrow> 64 word \<Rightarrow> pullReplyGo" where
  "PullMessages db userID topic lastSeq limit0 endSeq =
     (let limit = clampLimit limit0;
          found =
            (if endSeq > 0 \<or> lastSeq = 0 then
               (case GetHistoryMessages db userID topic endSeq (int limit) of
                  Inl e \<Rightarrow> None
                | Inr (msgs, hasMore) \<Rightarrow> Some (map inboxToPull msgs, hasMore))
             else
               (case ParseTopicType topic of
                  TopicTypeUnknown \<Rightarrow> None
                | TopicTypeGroup \<Rightarrow>
                    (case GetGroupMessages db topic lastSeq (int limit) of
                       Inl e \<Rightarrow> None
                     | Inr groupMsgs \<Rightarrow>
                         let mentionMsgs = (case GetMentionMessages db userID topic lastSeq (int limit) of Inl e \<Rightarrow> [] | Inr ms \<Rightarrow> ms);
                             messages = mergeAndSortMessages groupMsgs mentionMsgs;
                             messages = (if length messages > limit \<and> limit > 0 then take limit messages else messages)
                         in Some (messages, length messages \<ge> limit \<and> limit > 0))
                | _ \<Rightarrow>
                    (case GetOfflineMessages db userID topic lastSeq (int limit) of
                       Inl e \<Rightarrow> None
                     | Inr msgs \<Rightarrow> Some (map inboxToPull msgs, length msgs \<ge> limit \<and> limit > 0))))
      in case found of
           None \<Rightarrow> emptyReply
         | Some (messages, hasMore) \<Rightarrow>
             \<lparr>pr_Messages = messages, pr_HasMore = hasMore,
              pr_NextSeq =
                (if messages = [] then 0
                 else if endSeq > 0 \<or> lastSeq = 0 then pg_TopicSeq (hd messages)
                 else pg_TopicSeq (last messages) + 1)\<rparr>)"


section \<open>What the code relies on\<close>

primrec inOrder :: "sortDir \<Rightarrow> ('a \<Rightarrow> 'k::linorder) \<Rightarrow> 'a list \<Rightarrow> 'a list" where
  "inOrder Ascending key xs = sort_key key xs"
| "inOrder Descending key xs = rev (sort_key key xs)"

text \<open>
  The indexes of \<open>EnsureIndexes\<close> are unique (\<open>unique_rows\<close>). A collection holds rows; \<open>Find\<close> returns those that match, ordered and cut to the limit (the order is only fixed if
  the numbers of the rows that match differ).
\<close>

locale unique_rows =
  fixes inboxRows :: "inboxMessage list" and messageRows :: "storedMessage list" and mentionRows :: "mentionMessage list"
  assumes inbox_unique: "distinct (map (\<lambda>m. ((im_UserID m, im_Topic m), im_TopicSeq m)) inboxRows)"
    and topic_seq_unique: "distinct (map (\<lambda>m. (st_Topic m, st_TopicSeq m)) messageRows)"
    and mention_unique: "distinct (map (\<lambda>m. ((im_UserID m, im_Topic m), im_TopicSeq m)) mentionRows)"

locale message_store = unique_rows inboxRows messageRows mentionRows
  for db :: mongo and inboxRows messageRows mentionRows +
  assumes find_inboxes: "distinct (map im_TopicSeq (filter P inboxRows)) \<Longrightarrow>
      mg_inboxes db P d n = Inr (take n (inOrder d im_TopicSeq (filter P inboxRows)))"
    and find_messages: "distinct (map st_TopicSeq (filter Q messageRows)) \<Longrightarrow>
      mg_messages db Q d n = Inr (take n (inOrder d st_TopicSeq (filter Q messageRows)))"
    and find_mentions: "distinct (map im_TopicSeq (filter P mentionRows)) \<Longrightarrow>
      mg_mentions db P d n = Inr (take n (inOrder d im_TopicSeq (filter P mentionRows)))"

definition upTo :: "64 word \<Rightarrow> inboxMessage list \<Rightarrow> inboxMessage list" where
  "upTo endSeq = filter (\<lambda>m. endSeq > 0 \<longrightarrow> im_TopicSeq m < endSeq)"

section \<open>The history of a topic\<close>

lemma sort_key_map: "sort_key k (map f xs) = map f (sort_key (\<lambda>x. k (f x)) xs)"
proof (induction xs)
  case (Cons x xs)
  have "insort_key k (f x) (map f ys) = map f (insort_key (\<lambda>x. k (f x)) x ys)" for ys
    by (induction ys) simp_all
  with Cons show ?case by simp
qed simp

lemma preferFirst_filter:
  "preferFirst k (filter (\<lambda>x. Q (k x)) A) (filter (\<lambda>x. Q (k x)) B) = filter (\<lambda>x. Q (k x)) (preferFirst k A B)"
proof -
  have "filter (\<lambda>b. k b \<notin> k ` set (filter (\<lambda>x. Q (k x)) A)) (filter (\<lambda>x. Q (k x)) B) =
      filter (\<lambda>x. Q (k x)) (filter (\<lambda>b. k b \<notin> k ` set A) B)"
    unfolding filter_filter by (rule filter_cong [OF refl]) (force simp: image_iff)
  then show ?thesis by (simp only: preferFirst_def filter_append)
qed

lemma row_seq [simp]: "im_TopicSeq (groupRow u gm) = st_TopicSeq gm" "im_TopicSeq (mentionRow u mm) = im_TopicSeq mm"
  by (simp_all add: groupRow_def mentionRow_def)

text \<open>The loop over the mentions keeps the rows already there.\<close>

lemma merge_loop:
  assumes "distinct (map im_TopicSeq bs)"
  shows "foldl (\<lambda>merged mm. if hasKey merged (im_TopicSeq mm) then merged
                           else AList.update (im_TopicSeq mm) (f mm) merged) m bs =
    m @ map (\<lambda>b. (im_TopicSeq b, f b)) (filter (\<lambda>b. im_TopicSeq b \<notin> set (keys m)) bs)"
  using assms
proof (induction bs arbitrary: m)
  case (Cons b bs)
  show ?case
  proof (cases "hasKey m (im_TopicSeq b)")
    case True
    then have "im_TopicSeq b \<in> set (keys m)" by (simp add: hasKey_def map_of_eq_None_iff)
    with True Cons show ?thesis by simp
  next
    case False
    then have new: "im_TopicSeq b \<notin> set (keys m)" by (simp add: hasKey_def map_of_eq_None_iff)
    have rest: "filter (\<lambda>x. im_TopicSeq x \<notin> set (keys (m @ [(im_TopicSeq b, f b)]))) bs = filter (\<lambda>x. im_TopicSeq x \<notin> set (keys m)) bs"
      using Cons.prems by (intro filter_cong) (auto simp: image_iff)
    from False new Cons rest show ?thesis by (simp add: update_new)
  qed
qed simp


definition inboxLog :: "inboxMessage list \<Rightarrow> int \<Rightarrow> jsstring \<Rightarrow> inboxMessage list" where
  "inboxLog rows userID topic = sort_key im_TopicSeq (filter (\<lambda>m. im_UserID m = userID \<and> im_Topic m = topic) rows)"

definition groupLog :: "storedMessage list \<Rightarrow> mentionMessage list \<Rightarrow> int \<Rightarrow> jsstring \<Rightarrow> inboxMessage list" where
  "groupLog messageRows mentionRows userID topic =
     sort_key im_TopicSeq
       (preferFirst im_TopicSeq (map (groupRow userID) (filter (\<lambda>m. st_Topic m = topic) messageRows))
          (map (mentionRow userID) (filter (\<lambda>m. im_UserID m = userID \<and> im_Topic m = topic) mentionRows)))"

text \<open>The log of a topic as a user sees it.\<close>

definition topicLog ::
  "inboxMessage list \<Rightarrow> storedMessage list \<Rightarrow> mentionMessage list \<Rightarrow> int \<Rightarrow> jsstring \<Rightarrow> inboxMessage list" where
  "topicLog inboxRows messageRows mentionRows userID topic =
     (case ParseTopicType topic of
        TopicTypeGroup \<Rightarrow> groupLog messageRows mentionRows userID topic
      | TopicTypeUnknown \<Rightarrow> []
      | _ \<Rightarrow> inboxLog inboxRows userID topic)"

lemma historyPage_log:
  assumes "sort_key im_TopicSeq (map snd merged) = M" and "lastN l M = lastN l L" and "l < length M \<longleftrightarrow> l < length L"
  shows "historyPage merged l = (lastN l L, l < length L)"
proof (cases "l < length M")
  case True
  then show ?thesis using assms by (simp add: historyPage_def Let_def lastN_rev)
next
  case False
  then show ?thesis using assms by (simp add: historyPage_def Let_def lastN_all)
qed

context message_store
begin

lemma history_inbox:
  assumes "ParseTopicType topic \<in> {TopicTypeP2P, TopicTypeSystem}"
  shows "GetHistoryMessages db userID topic endSeq limit =
    (let log = upTo endSeq (inboxLog inboxRows userID topic) in Inr (lastN (clampLimit limit) log, length log > clampLimit limit))"
proof -
  let ?P = "\<lambda>m. im_UserID m = userID \<and> im_Topic m = topic \<and> (endSeq > 0 \<longrightarrow> im_TopicSeq m < endSeq)"
  let ?l = "clampLimit limit" and ?rows = "filter ?P inboxRows"
  let ?found = "take (Suc ?l) (rev (sort_key im_TopicSeq ?rows))"
  have d: "distinct (map im_TopicSeq ?rows)"
    using distinct_part [of "\<lambda>m. (im_UserID m, im_Topic m)" im_TopicSeq inboxRows "(userID, topic)"
      "\<lambda>m. endSeq > 0 \<longrightarrow> im_TopicSeq m < endSeq"] inbox_unique by simp
  have found: "historyRows db userID topic endSeq (?l + 1) = Inr (map (\<lambda>m. (im_TopicSeq m, m)) ?found)"
    using assms find_inboxes [OF d, of Descending "Suc ?l"] setAll_distinct [OF distinct_newest [OF d, of "Suc ?l"], of "\<lambda>m. m"]
    by (auto simp: historyRows_def Let_def)
  have "sort_key im_TopicSeq (map snd (map (\<lambda>m. (im_TopicSeq m, m)) ?found)) = lastN (Suc ?l) (sort_key im_TopicSeq ?rows)"
    using newest_page [OF d, of "Suc ?l"] by (simp add: o_def)
  moreover have "sort_key im_TopicSeq ?rows = upTo endSeq (inboxLog inboxRows userID topic)"
    by (simp add: upTo_def inboxLog_def sort_key_filter [symmetric] filter_filter conj_assoc)
  ultimately show ?thesis
    unfolding GetHistoryMessages_def found using historyPage_log [OF _ lastN_Suc] by (simp add: Let_def)
qed

lemma history_group:
  assumes "ParseTopicType topic = TopicTypeGroup"
  shows "GetHistoryMessages db userID topic endSeq limit =
    (let log = upTo endSeq (groupLog messageRows mentionRows userID topic) in
     Inr (lastN (clampLimit limit) log, length log > clampLimit limit))"
proof -
  let ?before = "\<lambda>q. endSeq > 0 \<longrightarrow> q < endSeq" and ?l = "clampLimit limit"
  let ?Q = "\<lambda>m. st_Topic m = topic \<and> ?before (st_TopicSeq m)"
    and ?P = "\<lambda>m. im_UserID m = userID \<and> im_Topic m = topic \<and> ?before (im_TopicSeq m)"
  let ?msgs = "filter ?Q messageRows" and ?ments = "filter ?P mentionRows"
  let ?stored = "take (Suc ?l) (rev (sort_key st_TopicSeq ?msgs))" and ?mentions = "take (Suc ?l) (rev (sort_key im_TopicSeq ?ments))"
  let ?A = "map (groupRow userID) ?msgs" and ?B = "map (mentionRow userID) ?ments"
  have dq: "distinct (map st_TopicSeq ?msgs)"
    using distinct_part [of st_Topic st_TopicSeq messageRows topic "\<lambda>m. ?before (st_TopicSeq m)"] topic_seq_unique by simp
  have dp: "distinct (map im_TopicSeq ?ments)"
    using distinct_part [of "\<lambda>m. (im_UserID m, im_Topic m)" im_TopicSeq mentionRows "(userID, topic)"
      "\<lambda>m. ?before (im_TopicSeq m)"] mention_unique by simp
  define M where "M = map (\<lambda>m. (st_TopicSeq m, groupRow userID m)) ?stored @
    map (\<lambda>m. (im_TopicSeq m, mentionRow userID m)) (filter (\<lambda>m. im_TopicSeq m \<notin> st_TopicSeq ` set ?stored) ?mentions)"
  have found: "historyRows db userID topic endSeq (?l + 1) = Inr M"
    using assms find_messages [OF dq, of Descending "Suc ?l"] find_mentions [OF dp, of Descending "Suc ?l"]
      setAll_distinct [OF distinct_newest [OF dq, of "Suc ?l"], of "groupRow userID"]
      merge_loop [OF distinct_newest [OF dp, of "Suc ?l"], of "mentionRow userID"]
    by (simp add: historyRows_def M_def Let_def image_image o_def)
  have "map snd M = preferFirst im_TopicSeq (map (groupRow userID) ?stored) (map (mentionRow userID) ?mentions)"
    by (simp add: M_def preferFirst_def filter_map o_def image_image)
  also have "\<dots> = preferFirst im_TopicSeq (take (Suc ?l) (rev (sort_key im_TopicSeq ?A))) (take (Suc ?l) (rev (sort_key im_TopicSeq ?B)))"
    by (simp add: sort_key_map take_map rev_map)
  finally have page: "lastN ?l (sort_key im_TopicSeq (map snd M)) = lastN ?l (sort_key im_TopicSeq (preferFirst im_TopicSeq ?A ?B))"
    "?l < length (sort_key im_TopicSeq (map snd M)) \<longleftrightarrow> ?l < length (sort_key im_TopicSeq (preferFirst im_TopicSeq ?A ?B))"
    using merged_page_fetched [of im_TopicSeq ?A ?B ?l] dq dp by (simp_all add: o_def del: length_sort)
  have "?A = filter (\<lambda>m. ?before (im_TopicSeq m)) (map (groupRow userID) (filter (\<lambda>m. st_Topic m = topic) messageRows))"
    "?B = filter (\<lambda>m. ?before (im_TopicSeq m)) (map (mentionRow userID) (filter (\<lambda>m. im_UserID m = userID \<and> im_Topic m = topic) mentionRows))"
    by (simp_all add: filter_map filter_filter o_def conj_assoc)
  then have "sort_key im_TopicSeq (preferFirst im_TopicSeq ?A ?B) = upTo endSeq (groupLog messageRows mentionRows userID topic)"
    by (simp only: upTo_def groupLog_def sort_key_filter [symmetric] preferFirst_filter [of im_TopicSeq ?before])
  with page show ?thesis
    unfolding GetHistoryMessages_def found using historyPage_log [OF refl] by (simp add: Let_def)
qed

lemma history_page:
  assumes "ParseTopicType topic \<noteq> TopicTypeUnknown"
  shows "GetHistoryMessages db userID topic endSeq limit =
    (let log = upTo endSeq (topicLog inboxRows messageRows mentionRows userID topic) in
     Inr (lastN (clampLimit limit) log, length log > clampLimit limit))"
  using assms history_inbox history_group by (cases "ParseTopicType topic") (simp_all add: topicLog_def)

lemma pull_page:
  assumes "ParseTopicType topic \<noteq> TopicTypeUnknown" and "1 \<le> limit" and "limit \<le> 100"
  shows "PullMessages db userID topic 0 limit endSeq =
    (let log = upTo endSeq (topicLog inboxRows messageRows mentionRows userID topic);
         page = map inboxToPull (lastN (nat limit) log)
     in \<lparr>pr_Messages = page, pr_HasMore = (length log > nat limit),
          pr_NextSeq = (if page = [] then 0 else pg_TopicSeq (hd page))\<rparr>)"
proof -
  have "clampLimit limit = nat limit" "clampLimit (int (nat limit)) = nat limit" using assms(2,3) by (simp_all add: clampLimit_def)
  then show ?thesis using history_page [OF assms(1)] by (simp add: PullMessages_def Let_def)
qed

end

text \<open>A store that holds its rows in lists and answers as documented.\<close>

definition rowsDb :: "inboxMessage list \<Rightarrow> storedMessage list \<Rightarrow> mentionMessage list \<Rightarrow> mongo" where
  "rowsDb inboxRows messageRows mentionRows =
     \<lparr>mg_inboxes = (\<lambda>P d n. Inr (take n (inOrder d im_TopicSeq (filter P inboxRows)))),
      mg_messages = (\<lambda>P d n. Inr (take n (inOrder d st_TopicSeq (filter P messageRows)))),
      mg_mentions = (\<lambda>P d n. Inr (take n (inOrder d im_TopicSeq (filter P mentionRows))))\<rparr>"

sublocale unique_rows \<subseteq> rows: message_store "rowsDb inboxRows messageRows mentionRows" inboxRows messageRows mentionRows
  by unfold_locales (simp_all add: rowsDb_def)

definition sampleStored :: "64 word \<Rightarrow> bool \<Rightarrow> storedMessage" where
  "sampleStored q recalled =
     \<lparr>st_MsgID = 1, st_Topic = js ''grp_1'', st_SenderID = 5, st_MsgType = 1, st_Content = [], st_Timestamp = 0,
      st_TopicSeq = q, st_ClientMsgID = [], st_Recalled = recalled\<rparr>"

interpretation sampleRows: unique_rows "[]" "[sampleStored 2 True, sampleStored 7 False]" "[]"
  by unfold_locales (simp_all add: sampleStored_def)

section \<open>Properties\<close>

text \<open>
  C4. A history page is the end of the log: whatever collections a topic is read from, a pull without a
  lower bound returns the newest messages before the bound, at most as many as asked for, in ascending
  order, and says there is more exactly when an older one is left. In a group the messages and the
  mentions of the user are merged as if all rows of both had been read, each number once.
\<close>

theorem PullMessages_page:
  assumes "message_store db inboxRows messageRows mentionRows"
    and "ParseTopicType topic \<noteq> TopicTypeUnknown" and "1 \<le> limit" and "limit \<le> 100"
  shows "PullMessages db userID topic 0 limit endSeq =
    (let log = upTo endSeq (topicLog inboxRows messageRows mentionRows userID topic);
         page = map inboxToPull (lastN (nat limit) log)
     in \<lparr>pr_Messages = page, pr_HasMore = (length log > nat limit),
          pr_NextSeq = (if page = [] then 0 else pg_TopicSeq (hd page))\<rparr>)"
  by (rule message_store.pull_page [OF assms])

theorem PullMessages_page_witness:
  "map pg_TopicSeq (pr_Messages (PullMessages (rowsDb [] [sampleStored 2 True, sampleStored 7 False] []) 5 (js ''grp_1'') 0 20 7)) = [2]"
  by (subst PullMessages_page [OF sampleRows.rows.message_store_axioms])
    (simp_all add: ParseTopicType_def startsWith_def js_def topicLog_def groupLog_def preferFirst_def upTo_def lastN_def
      inboxToPull_def groupRow_def sampleStored_def Let_def)

lemma plain_update:
  "\<not> im_Recalled m \<Longrightarrow> list_all (\<lambda>(q, m). \<not> im_Recalled m) ms \<Longrightarrow> list_all (\<lambda>(q, m). \<not> im_Recalled m) (AList.update k m ms)"
  by (induction ms) auto

lemma plain_loop:
  assumes "\<And>x. \<not> im_Recalled (f x)" and "list_all (\<lambda>(q, m). \<not> im_Recalled m) ms"
  shows "list_all (\<lambda>(q, m). \<not> im_Recalled m) (foldl (\<lambda>ms x. AList.update (key x) (f x) ms) ms xs)"
    and "list_all (\<lambda>(q, m). \<not> im_Recalled m) (foldl (\<lambda>ms x. if hasKey ms (key x) then ms else AList.update (key x) (f x) ms) ms xs)"
  using assms(2) by (induction xs arbitrary: ms) (auto intro!: plain_update assms(1))

text \<open>
  C36. Recalled messages of a group come back as messages: the rows built for a group page do not carry the
  recall mark, so no message of a pulled group page is marked as recalled, also if the stored row is.
\<close>

theorem group_pull_forgets_recall:
  assumes "ParseTopicType topic = TopicTypeGroup"
  shows "list_all (\<lambda>m. \<not> pg_Recalled m) (pr_Messages (PullMessages db userID topic 0 limit endSeq))"
proof -
  have rows: "list_all (\<lambda>(q, m). \<not> im_Recalled m) merged" if "historyRows db userID topic endSeq n = Inr merged" for n merged
    using that assms
    by (auto simp: historyRows_def Let_def setAll_def groupRow_def mentionRow_def split: sum.splits intro!: plain_loop)
  have cut: "list_all (\<lambda>m. \<not> im_Recalled m) (fst (historyPage merged n))" if "list_all (\<lambda>(q, m). \<not> im_Recalled m) merged" for merged n
    using that by (auto simp: historyPage_def Let_def list_all_iff case_prod_beta dest!: in_set_takeD)
  have page: "list_all (\<lambda>m. \<not> im_Recalled m) msgs" if "GetHistoryMessages db userID topic endSeq l = Inr (msgs, b)" for l msgs b
  proof -
    from that obtain merged where "historyRows db userID topic endSeq (clampLimit l + 1) = Inr merged"
      "historyPage merged (clampLimit l) = (msgs, b)"
      unfolding GetHistoryMessages_def by (cases "historyRows db userID topic endSeq (clampLimit l + 1)") simp_all
    then show ?thesis using cut [OF rows, of "clampLimit l + 1" merged "clampLimit l"] by simp
  qed
  show ?thesis
  proof (cases "GetHistoryMessages db userID topic endSeq (int (clampLimit limit))")
    case (Inr p)
    then obtain msgs b where "GetHistoryMessages db userID topic endSeq (int (clampLimit limit)) = Inr (msgs, b)" by (cases p) simp
    with page [OF this] show ?thesis by (simp add: PullMessages_def Let_def list.pred_map o_def inboxToPull_def)
  qed (simp add: PullMessages_def Let_def emptyReply_def)
qed

theorem group_pull_forgets_recall_witness:
  "ParseTopicType (js ''grp_1'') = TopicTypeGroup \<and> st_Recalled (sampleStored 2 True) \<and>
   list_all (\<lambda>m. \<not> pg_Recalled m)
     (pr_Messages (PullMessages (rowsDb [] [sampleStored 2 True, sampleStored 7 False] []) 5 (js ''grp_1'') 0 20 7))"
  using group_pull_forgets_recall [of "js ''grp_1''"] by (simp add: ParseTopicType_def startsWith_def js_def sampleStored_def)

end
