(* ===== verification/Rest_Json.thy ===== *)
theory Rest_Json
  imports Pull_Service
begin

text \<open>
  A pulled message between the server and the page: the reply type of \<open>pullMessages\<close> in \<^verbatim>\<open>web/app/lib/api.ts\<close> and
  what the page relies on of the JSON encoding of the protobuf reply, which a library of the server makes: 64-bit
  integers are decimal strings, bytes are base64 (\<open>proto_json\<close>). \<open>protoJson\<close> with base64 written out satisfies it.
\<close>

section \<open>Definitions\<close>

text \<open>\<open>content\<close> is a string, or bytes, or another value with the text it converts to.\<close>

datatype pulledContent = CBytes bytes | CString jsstring | COther jsstring

record pulledMessage =
  pl_msgId :: jsnum
  pl_topic :: jsstring
  pl_senderId :: jsnum
  pl_msgType :: int
  pl_content :: pulledContent
  pl_timestamp :: jstime
  pl_topicSeq :: jsnum
  pl_clientMsgId :: "jsstring option"
  pl_recalled :: "bool option"

record pullReply =
  pl_messages :: "pulledMessage list"
  pl_hasMore :: bool

locale proto_json =
  fixes json :: "pullMessageGo \<Rightarrow> pulledMessage" and atob :: "jsstring \<Rightarrow> bytes option"
  assumes json_topicSeq: "pl_topicSeq (json m) = JStr (uint (pg_TopicSeq m))"
    and json_clientMsgId: "pg_ClientMsgId m = [] \<Longrightarrow> \<not> strTruthy (pl_clientMsgId (json m))"
    and json_msgType: "pl_msgType (json m) = pg_MsgType m"
    and json_content: "\<exists>c. pl_content (json m) = CString c \<and> atob c = Some (pg_Content m)"
    and json_recalled: "pl_recalled (json m) = Some True \<longleftrightarrow> pg_Recalled m"

section \<open>Base64\<close>

definition b64Char :: "nat \<Rightarrow> jschar" where
  "b64Char i = (if i < 26 then 65 + i else if i < 52 then 71 + i else if i < 62 then i - 4 else if i = 62 then 43 else 47)"

definition b64Digit :: "jschar \<Rightarrow> nat option" where
  "b64Digit c =
     (if 65 \<le> c \<and> c \<le> 90 then Some (c - 65) else if 97 \<le> c \<and> c \<le> 122 then Some (c - 71)
      else if 48 \<le> c \<and> c \<le> 57 then Some (c + 4) else if c = 43 then Some 62 else if c = 47 then Some 63 else None)"

fun b64Encode :: "nat list \<Rightarrow> jsstring" where
  "b64Encode [] = []"
| "b64Encode [a] = [b64Char (a div 4), b64Char (a mod 4 * 16), 61, 61]"
| "b64Encode [a, b] = [b64Char (a div 4), b64Char (a mod 4 * 16 + b div 16), b64Char (b mod 16 * 4), 61]"
| "b64Encode (a # b # c # r) =
     [b64Char (a div 4), b64Char (a mod 4 * 16 + b div 16), b64Char (b mod 16 * 4 + c div 64), b64Char (c mod 64)] @ b64Encode r"

text \<open>\<open>atob\<close> on text with its padding and without white space.\<close>

fun b64Decode :: "jsstring \<Rightarrow> nat list option" where
  "b64Decode [] = Some []"
| "b64Decode (w # x # y # z # r) =
     (case (b64Digit w, b64Digit x) of
        (Some p, Some q) \<Rightarrow>
          (if y = 61 \<and> z = 61 \<and> r = [] then Some [p * 4 + q div 16]
           else case b64Digit y of
             None \<Rightarrow> None
           | Some s \<Rightarrow>
               (if z = 61 \<and> r = [] then Some [p * 4 + q div 16, q mod 16 * 16 + s div 4]
                else case (b64Digit z, b64Decode r) of
                  (Some t, Some rest) \<Rightarrow>
                    Some ([p * 4 + q div 16, q mod 16 * 16 + s div 4, s mod 4 * 64 + t] @ rest)
                | _ \<Rightarrow> None))
      | _ \<Rightarrow> None)"
| "b64Decode _ = None"

lemma b64Digit_Char [simp]: "i < 64 \<Longrightarrow> b64Digit (b64Char i) = Some i"
  by (auto simp: b64Digit_def b64Char_def)

lemma b64Char_pad [simp]: "i < 64 \<Longrightarrow> b64Char i \<noteq> 61"
  by (auto simp: b64Char_def)

lemma b64_parts:
  "b < 256 \<Longrightarrow> b div 16 < (16::nat)" "c < 256 \<Longrightarrow> c div 64 < (4::nat)"
  by (simp_all add: less_mult_imp_div_less)

lemma b64_digits:
  fixes a b c :: nat
  shows "a < 256 \<Longrightarrow> a div 4 < 64" "a mod 4 * 16 < 64" "b < 256 \<Longrightarrow> a mod 4 * 16 + b div 16 < 64"
    "b mod 16 * 4 < 64" "c < 256 \<Longrightarrow> b mod 16 * 4 + c div 64 < 64"
  using mod_less_divisor [of 4 a] mod_less_divisor [of 16 b] b64_parts [of b] b64_parts [of c]
  by (simp_all add: less_mult_imp_div_less)

lemma b64Decode_Encode: "list_all (\<lambda>b. b < 256) bs \<Longrightarrow> b64Decode (b64Encode bs) = Some bs"
proof (induction bs rule: b64Encode.induct)
  case (2 a)
  then show ?case by (simp add: b64_digits)
next
  case (3 a b)
  then show ?case by (simp add: b64_digits b64_parts)
next
  case (4 a b c r)
  then show ?case by (simp add: b64_digits b64_parts)
qed simp

definition atobBytes :: "jsstring \<Rightarrow> bytes option" where
  "atobBytes s = map_option (map of_nat) (b64Decode s)"

definition protoJson :: "pullMessageGo \<Rightarrow> pulledMessage" where
  "protoJson m =
     \<lparr>pl_msgId = JStr (pg_MsgId m), pl_topic = pg_Topic m, pl_senderId = JStr (pg_SenderId m), pl_msgType = pg_MsgType m,
      pl_content = CString (b64Encode (map unat (pg_Content m))), pl_timestamp = TStr (pg_Timestamp m),
      pl_topicSeq = JStr (uint (pg_TopicSeq m)), pl_clientMsgId = Some (pg_ClientMsgId m),
      pl_recalled = Some (pg_Recalled m)\<rparr>"

interpretation pjson: proto_json protoJson atobBytes
proof
  fix m :: pullMessageGo
  have "list_all (\<lambda>b. b < 256) (map unat (pg_Content m))"
    using unsigned_less [where ?'a = nat and ?'b = 8] by (simp add: list_all_iff)
  then have "atobBytes (b64Encode (map unat (pg_Content m))) = Some (pg_Content m)"
    by (simp add: atobBytes_def b64Decode_Encode o_def)
  then show "\<exists>c. pl_content (protoJson m) = CString c \<and> atobBytes c = Some (pg_Content m)"
    by (simp add: protoJson_def)
qed (simp_all add: protoJson_def strTruthy_def)

end
