(* ===== verification/Conversation.thy ===== *)
theory Conversation
  imports Topic Handlers Mentions Rest_Json
begin

text \<open>
  The conversation hook (\<^verbatim>\<open>web/app/hooks/useConversation.ts\<close>): loading the history of the open topic, sending,
  retrying, reading and recalling. An asynchronous function is cut at its \<open>await\<close>: one definition up to the request
  and one for the reply or the error. Requests and toasts are effects of the page. The topic \<open>null\<close> is the empty
  string; \<open>atob\<close>, \<open>JSON.stringify(JSON.parse(x))\<close> and \<open>toLowerCase\<close> are parameters, as are the new message id and the
  clock.
\<close>

section \<open>State\<close>

datatype convEffect =
    PullCall jsstring int int int
  | MarkReadCall jsstring
  | ListMembersCall jsstring
  | ErrorToast jsstring

text \<open>\<open>loadingMoreRef\<close> and the state \<open>loadingMore\<close> are set together and are one field.\<close>

record convPage =
  cp_store :: chatStore
  cp_client :: client
  cp_loaded :: "jsstring set"
  cp_inFlight :: "jsstring set"
  cp_loadingMore :: bool
  cp_effects :: "convEffect list"

definition onStore :: "(chatStore \<Rightarrow> chatStore) \<Rightarrow> convPage \<Rightarrow> convPage" where
  "onStore f s = s\<lparr>cp_store := f (cp_store s)\<rparr>"

definition effect :: "convEffect \<Rightarrow> convPage \<Rightarrow> convPage" where
  "effect e s = s\<lparr>cp_effects := cp_effects s @ [e]\<rparr>"

section \<open>Pulled messages\<close>

definition decodeMessageContent ::
  "(jsstring \<Rightarrow> bytes option) \<Rightarrow> (jsstring \<Rightarrow> jsstring option) \<Rightarrow> pulledContent \<Rightarrow> int \<Rightarrow> jsstring" where
  "decodeMessageContent atob reprint content msgType =
     (case content of
        CBytes b \<Rightarrow> TextDecoder_decode b
      | COther str \<Rightarrow> str
      | CString str \<Rightarrow>
          (case atob str of
             None \<Rightarrow> str
           | Some b \<Rightarrow>
               let decoded = TextDecoder_decode b in
               if msgType \<noteq> 1 then (case reprint decoded of None \<Rightarrow> decoded | Some t \<Rightarrow> t) else decoded))"

definition pulledToChat ::
  "(jsstring \<Rightarrow> bytes option) \<Rightarrow> (jsstring \<Rightarrow> jsstring option) \<Rightarrow> jsnum option \<Rightarrow> pulledMessage \<Rightarrow> chatMessage" where
  "pulledToChat atob reprint userId m =
     \<lparr>m_clientMsgId =
        (if strTruthy (pl_clientMsgId m) then the (pl_clientMsgId m)
         else showNum (pl_topicSeq m) @ js ''-'' @ showNum (pl_msgId m)),
      m_msgId = Some (pl_msgId m),
      m_topic = pl_topic m,
      m_senderId = pl_senderId m,
      m_content = decodeMessageContent atob reprint (pl_content m) (pl_msgType m),
      m_msgType = Some (pl_msgType m),
      m_timestamp = pl_timestamp m,
      m_topicSeq = Some (pl_topicSeq m),
      m_status = (if pl_recalled m = Some True then Recalled
                  else if Some (pl_senderId m) = userId then Sent else Delivered),
      m_recalled = (if pl_recalled m = Some True then Some True else None)\<rparr>"

section \<open>Loading\<close>

definition loadLatest :: "jsstring \<Rightarrow> user option \<Rightarrow> convPage \<Rightarrow> convPage" where
  "loadLatest topic u s =
     (if topic = [] \<or> u = None then s
      else if topic \<in> cp_loaded s \<or> topic \<in> cp_inFlight s then s
      else effect (PullCall topic 0 20 0)
             (onStore (setMessagesLoading topic True) (s\<lparr>cp_inFlight := insert topic (cp_inFlight s)\<rparr>)))"

text \<open>The left summand is the message of the error.\<close>

definition loadLatestReply ::
  "(jsstring \<Rightarrow> bytes option) \<Rightarrow> (jsstring \<Rightarrow> jsstring option) \<Rightarrow> jsstring \<Rightarrow> user \<Rightarrow> jsstring + pullReply \<Rightarrow> convPage \<Rightarrow> convPage" where
  "loadLatestReply atob reprint topic u reply s =
     (let s1 =
            (case reply of
               Inr r \<Rightarrow>
                 onStore (upsertConversation ((noPatch topic)
                            \<lparr>p_messages := Some (map (pulledToChat atob reprint (Some (u_userId u))) (pl_messages r)),
                             p_hasMore := Some (pl_hasMore r)\<rparr>)) s
             | Inl err \<Rightarrow> effect (ErrorToast (js ''Failed to load messages: '' @ err)) s);
          s2 = onStore (setMessagesLoading topic False) s1
      in s2\<lparr>cp_loaded := insert topic (cp_loaded s2), cp_inFlight := cp_inFlight s2 - {topic}\<rparr>)"

text \<open>The bound of the next request, if one is made.\<close>

definition loadMoreBound :: "jsstring \<Rightarrow> convPage \<Rightarrow> int option" where
  "loadMoreBound topic s =
     (case map_of (conversations (cp_store s)) topic of
        None \<Rightarrow> None
      | Some conversation \<Rightarrow>
          if topic = [] \<or> c_isLoading conversation \<or> \<not> c_hasMore conversation then None
          else
            let endSeq = (case Option.bind (firstOf (c_messages conversation)) m_topicSeq of
                            None \<Rightarrow> 0 | Some oldest \<Rightarrow> Number oldest)
            in if endSeq \<le> 0 then None else if cp_loadingMore s then None else Some endSeq)"

definition loadMore :: "jsstring \<Rightarrow> convPage \<Rightarrow> convPage" where
  "loadMore topic s =
     (case loadMoreBound topic s of
        None \<Rightarrow> s
      | Some endSeq \<Rightarrow> effect (PullCall topic 0 20 endSeq) (s\<lparr>cp_loadingMore := True\<rparr>))"

definition loadMoreReply ::
  "(jsstring \<Rightarrow> bytes option) \<Rightarrow> (jsstring \<Rightarrow> jsstring option) \<Rightarrow> jsstring \<Rightarrow> user option \<Rightarrow> jsstring + pullReply \<Rightarrow> convPage \<Rightarrow> convPage" where
  "loadMoreReply atob reprint topic u reply s =
     (let s1 =
            (case reply of
               Inr r \<Rightarrow>
                 onStore (prependMessages topic (map (pulledToChat atob reprint (map_option u_userId u)) (pl_messages r)) (pl_hasMore r)) s
             | Inl err \<Rightarrow> effect (ErrorToast (js ''Failed to load older messages: '' @ err)) s)
      in s1\<lparr>cp_loadingMore := False\<rparr>)"

section \<open>Sending\<close>

definition failedToast :: jsstring where
  "failedToast = js ''Message failed to send '' @ [8212] @ js '' click the warning icon to retry''"

definition ownId :: "user option \<Rightarrow> jsnum" where
  "ownId u = (case u of None \<Rightarrow> JNum 0 | Some v \<Rightarrow> if numTruthy (u_userId v) then u_userId v else JNum 0)"

definition pendingMessage :: "jsstring \<Rightarrow> user option \<Rightarrow> jsstring \<Rightarrow> int \<Rightarrow> jsstring \<Rightarrow> int \<Rightarrow> bool \<Rightarrow> chatMessage" where
  "pendingMessage topic u content msgType clientMsgId now ok =
     \<lparr>m_clientMsgId = clientMsgId, m_msgId = None, m_topic = topic, m_senderId = ownId u, m_content = content,
      m_msgType = Some msgType, m_timestamp = TNum now, m_topicSeq = None,
      m_status = (if ok then Sending else Failed), m_recalled = None\<rparr>"

text \<open>The end of \<open>sendMessage\<close> and \<open>sendFileMessage\<close>: the message is shown, with its fate.\<close>

definition showSent :: "jsstring \<Rightarrow> chatMessage \<Rightarrow> bool \<Rightarrow> convPage \<Rightarrow> convPage" where
  "showSent topic msg ok s =
     (let s1 = onStore (appendMessage topic msg) s
      in if ok then s1 else effect (ErrorToast failedToast) s1)"

definition sendMessage ::
  "jsstring \<Rightarrow> user option \<Rightarrow> jsstring \<Rightarrow> int \<Rightarrow> jsstring \<Rightarrow> int list \<Rightarrow> convPage \<Rightarrow> convPage" where
  "sendMessage topic u clientMsgId now str mentionedUserIds s =
     (if topic = [] \<or> trim str = [] then s
      else
        (case sendText topic (trim str) clientMsgId
                (if mentionedUserIds \<noteq> [] then Some (map word_of_int mentionedUserIds) else None) (cp_client s) of
           (ok, c) \<Rightarrow> showSent topic (pendingMessage topic u (trim str) 1 clientMsgId now ok) ok (s\<lparr>cp_client := c\<rparr>)))"

definition mentionMembers :: "jsstring \<Rightarrow> convPage \<Rightarrow> mentionMember list" where
  "mentionMembers topic s =
     (case map_of (memberNames (cp_store s)) topic of
        None \<Rightarrow> []
      | Some table \<Rightarrow> map (\<lambda>(userId, username). \<lparr>mm_userId = userId, mm_username = username\<rparr>) table)"

definition sendTextWithMentions ::
  "(jsstring \<Rightarrow> jsstring) \<Rightarrow> jsstring \<Rightarrow> user option \<Rightarrow> jsstring \<Rightarrow> int \<Rightarrow> jsstring \<Rightarrow> convPage \<Rightarrow> convPage" where
  "sendTextWithMentions lower topic u clientMsgId now str s =
     sendMessage topic u clientMsgId now str (extractMentionIds lower str (mentionMembers topic s)) s"

definition statusPatch :: "messageStatus \<Rightarrow> msgPatch" where
  "statusPatch st = noMsgPatch\<lparr>mp_status := Some st\<rparr>"

definition retryMessage :: "jsstring \<Rightarrow> chatMessage \<Rightarrow> convPage \<Rightarrow> convPage" where
  "retryMessage topic msg s =
     (if topic = [] \<or> m_status msg \<noteq> Failed then s
      else
        let s1 = onStore (updateMessageStatus topic (m_clientMsgId msg) (statusPatch Sending)) s in
        (case sendMessage_rt topic (case m_msgType msg of None \<Rightarrow> 1 | Some k \<Rightarrow> k) (TextEncoder_encode (m_content msg))
                (m_clientMsgId msg) None (cp_client s1) of
           (ok, c) \<Rightarrow>
             let s2 = s1\<lparr>cp_client := c\<rparr> in
             if ok then s2
             else effect (ErrorToast (js ''Still disconnected '' @ [8212] @ js '' message not sent''))
                    (onStore (updateMessageStatus topic (m_clientMsgId msg) (statusPatch Failed)) s2)))"

text \<open>\<open>sendFileMessage\<close> after the upload; \<open>content\<close> is the JSON of the meta data.\<close>

definition sendFileMessage ::
  "jsstring \<Rightarrow> user option \<Rightarrow> jsstring \<Rightarrow> int \<Rightarrow> bool \<Rightarrow> jsstring + jsstring \<Rightarrow> convPage \<Rightarrow> convPage" where
  "sendFileMessage topic u clientMsgId now isImage uploaded s =
     (if topic = [] then s
      else case uploaded of
        Inl err \<Rightarrow> effect (ErrorToast (js ''Upload failed: '' @ err)) s
      | Inr content \<Rightarrow>
          let msgType = (if isImage then 2 else 3) in
          (case sendMessage_rt topic msgType (TextEncoder_encode content) clientMsgId None (cp_client s) of
             (ok, c) \<Rightarrow> showSent topic (pendingMessage topic u content msgType clientMsgId now ok) ok (s\<lparr>cp_client := c\<rparr>)))"

section \<open>Reading, recalling and opening a topic\<close>

definition markRead :: "rtEnv \<Rightarrow> jsstring \<Rightarrow> convPage \<Rightarrow> convPage" where
  "markRead E topic s =
     (if topic = [] then s
      else case map_of (conversations (cp_store s)) topic of
        None \<Rightarrow> s
      | Some conv \<Rightarrow>
          if c_lastSeq conv = JNum 0 \<or> c_unreadCount conv = 0 then s
          else
            let s1 = effect (MarkReadCall topic) s;
                s2 = s1\<lparr>cp_client := sendReadReceipt E topic (c_lastSeq conv) (cp_client s1)\<rparr>
            in onStore (markTopicRead topic (c_lastSeq conv)) s2)"

definition recallMessage_conv :: "rtEnv \<Rightarrow> jsstring \<Rightarrow> chatMessage \<Rightarrow> convPage \<Rightarrow> convPage" where
  "recallMessage_conv E topic msg s =
     (case m_topicSeq msg of
        None \<Rightarrow> s
      | Some q \<Rightarrow>
          if topic = [] \<or> \<not> numTruthy q then s
          else s\<lparr>cp_client := recallMessage_rt E topic q (case m_msgId msg of None \<Rightarrow> JNum 0 | Some i \<Rightarrow> i) (cp_client s)\<rparr>)"

text \<open>The effect of opening a topic and its clean-up, and the effects on new unread messages and on the group.\<close>

definition openTopic :: "rtEnv \<Rightarrow> jsstring \<Rightarrow> user option \<Rightarrow> convPage \<Rightarrow> convPage" where
  "openTopic E topic u s =
     (if topic = [] then s
      else markRead E topic (loadLatest topic u (onStore (setActiveTopic (Some topic)) s)))"

definition closeTopic :: "convPage \<Rightarrow> convPage" where
  "closeTopic s = onStore (setActiveTopic None) s"

definition unreadEffect :: "rtEnv \<Rightarrow> jsstring \<Rightarrow> convPage \<Rightarrow> convPage" where
  "unreadEffect E topic s =
     (case map_of (conversations (cp_store s)) topic of
        None \<Rightarrow> s
      | Some conv \<Rightarrow> if c_unreadCount conv > 0 then markRead E topic s else s)"

definition membersEffect :: "jsstring \<Rightarrow> convPage \<Rightarrow> convPage" where
  "membersEffect topic s =
     (case (map_of (conversations (cp_store s)) topic, map_of (groups (cp_store s)) topic) of
        (Some conv, Some g) \<Rightarrow> if topic = [] \<or> c_type conv \<noteq> GroupChat then s else effect (ListMembersCall (g_groupId g)) s
      | _ \<Rightarrow> s)"

definition membersReply :: "jsstring \<Rightarrow> bool \<Rightarrow> groupMember list option \<Rightarrow> convPage \<Rightarrow> convPage" where
  "membersReply topic cancelled members s =
     (case members of
        Some ms \<Rightarrow> if cancelled then s else onStore (setMemberNames topic ms) s
      | None \<Rightarrow> s)"

definition getConversationTitle :: "conversation option \<Rightarrow> jsstring" where
  "getConversationTitle conv =
     (case conv of
        None \<Rightarrow> []
      | Some c \<Rightarrow>
          if strTruthy (c_name c) then the (c_name c)
          else if c_type c = P2P then
            (if c_peerUsername c \<noteq> [] then c_peerUsername c else js ''User '' @ showNum (c_peerId c))
          else js ''Group'')"


section \<open>Paging against a server\<close>

text \<open>
  Opening a topic and asking for older messages, each request answered by \<open>pull\<close>, which is given the bound.
\<close>

definition openHistory ::
  "(jsstring \<Rightarrow> bytes option) \<Rightarrow> (jsstring \<Rightarrow> jsstring option) \<Rightarrow> (int \<Rightarrow> pullReply) \<Rightarrow> jsstring \<Rightarrow> user \<Rightarrow> convPage \<Rightarrow> convPage" where
  "openHistory atob reprint pull topic u s =
     loadLatestReply atob reprint topic u (Inr (pull 0)) (loadLatest topic (Some u) s)"

definition olderPage ::
  "(jsstring \<Rightarrow> bytes option) \<Rightarrow> (jsstring \<Rightarrow> jsstring option) \<Rightarrow> (int \<Rightarrow> pullReply) \<Rightarrow> jsstring \<Rightarrow> user \<Rightarrow> convPage \<Rightarrow> convPage" where
  "olderPage atob reprint pull topic u s =
     (case loadMoreBound topic s of
        None \<Rightarrow> s
      | Some endSeq \<Rightarrow> loadMoreReply atob reprint topic (Some u) (Inr (pull endSeq)) (loadMore topic s))"

text \<open>What a page of the conversation looks like: the messages, whether there are more, and that nothing is being loaded.\<close>

definition showing :: "jsstring \<Rightarrow> chatMessage list \<Rightarrow> bool \<Rightarrow> convPage \<Rightarrow> bool" where
  "showing topic ms hm s \<longleftrightarrow>
     (case map_of (conversations (cp_store s)) topic of
        None \<Rightarrow> False
      | Some c \<Rightarrow> c_messages c = ms \<and> c_hasMore c = hm \<and> \<not> c_isLoading c) \<and> \<not> cp_loadingMore s"

lemma setMessagesLoading_get:
  "map_of (conversations (setMessagesLoading t b S)) t = Some ((snd (ensureConversation (conversations S) t))\<lparr>c_isLoading := b\<rparr>)"
  by (simp add: setMessagesLoading_def case_prod_beta Let_def)

lemma upsertConversation_get:
  "map_of (conversations (upsertConversation p S)) (p_topic p) = Some (mergeConv (snd (ensureConversation (conversations S) (p_topic p))) p)"
  by (simp add: upsertConversation_def case_prod_beta Let_def)

lemma openHistory_shows:
  assumes "topic \<noteq> []" and "topic \<notin> cp_loaded s" and "topic \<notin> cp_inFlight s" and "\<not> cp_loadingMore s"
  shows "showing topic (map (pulledToChat atob reprint (Some (u_userId u))) (pl_messages (pull 0))) (pl_hasMore (pull 0))
    (openHistory atob reprint pull topic u s)"
proof -
  let ?p = "(noPatch topic)\<lparr>p_messages := Some (map (pulledToChat atob reprint (Some (u_userId u))) (pl_messages (pull 0))),
    p_hasMore := Some (pl_hasMore (pull 0))\<rparr>"
  let ?S = "upsertConversation ?p (setMessagesLoading topic True (cp_store s))"
  have "cp_store (openHistory atob reprint pull topic u s) = setMessagesLoading topic False ?S"
    and "\<not> cp_loadingMore (openHistory atob reprint pull topic u s)"
    using assms by (simp_all add: openHistory_def loadLatest_def loadLatestReply_def onStore_def effect_def Let_def)
  moreover obtain c where "map_of (conversations ?S) topic = Some c" "c_messages c = the (p_messages ?p)" "c_hasMore c = the (p_hasMore ?p)"
    using upsertConversation_get [of ?p "setMessagesLoading topic True (cp_store s)"] by (simp add: mergeConv_def noPatch_def)
  ultimately show ?thesis
    by (simp add: showing_def setMessagesLoading_get ensureConversation_known)
qed

text \<open>A server with a log: a page is the newest twenty messages before the bound.\<close>

locale history_server =
  fixes log :: "pulledMessage list" and pull :: "int \<Rightarrow> pullReply"
  assumes log_order: "sorted_wrt (\<lambda>a b. Number (pl_topicSeq a) < Number (pl_topicSeq b)) log"
    and log_positive: "m \<in> set log \<Longrightarrow> Number (pl_topicSeq m) > 0"
    and log_ids: "distinct (map (\<lambda>m. m_clientMsgId (pulledToChat atob reprint u m)) log)"
    and pull_latest: "pull 0 = \<lparr>pl_messages = lastN 20 log, pl_hasMore = length log > 20\<rparr>"
    and pull_before: "m \<in> set log \<Longrightarrow> pull (Number (pl_topicSeq m)) =
      (let older = filter (\<lambda>x. Number (pl_topicSeq x) < Number (pl_topicSeq m)) log in
       \<lparr>pl_messages = lastN 20 older, pl_hasMore = length older > 20\<rparr>)"

lemma pulledToChat_seq [simp]: "seqOf (pulledToChat atob reprint u m) = Some (Number (pl_topicSeq m))"
  by (simp add: pulledToChat_def seqOf_def)

lemma lastN_more: "lastN (k + n) xs = lastN n (take (length xs - k) xs) @ lastN k xs"
  by (simp add: lastN_rev [symmetric] take_add drop_rev)

context history_server
begin

lemma log_before:
  assumes "k < length log" and "0 < k"
  shows "filter (\<lambda>m. Number (pl_topicSeq m) < Number (pl_topicSeq (hd (lastN k log)))) log = take (length log - k) log"
proof -
  let ?old = "take (length log - k) log" and ?new = "lastN k log"
  have split: "?old @ ?new = log" by (simp add: lastN_def)
  have "?new \<noteq> []" using assms by (simp add: lastN_def)
  have "sorted_wrt (\<lambda>a b. Number (pl_topicSeq a) < Number (pl_topicSeq b)) (?old @ ?new)"
    unfolding split by (rule log_order)
  then have order: "\<forall>a \<in> set ?old. \<forall>b \<in> set ?new. Number (pl_topicSeq a) < Number (pl_topicSeq b)"
      "sorted_wrt (\<lambda>a b. Number (pl_topicSeq a) < Number (pl_topicSeq b)) ?new"
    by (simp_all add: sorted_wrt_append)
  then have "\<forall>b \<in> set ?new. \<not> Number (pl_topicSeq b) < Number (pl_topicSeq (hd ?new))"
    using \<open>?new \<noteq> []\<close> by (cases ?new) auto
  moreover have "\<forall>a \<in> set ?old. Number (pl_topicSeq a) < Number (pl_topicSeq (hd ?new))"
    using order(1) \<open>?new \<noteq> []\<close> by simp
  ultimately have "filter (\<lambda>m. Number (pl_topicSeq m) < Number (pl_topicSeq (hd ?new))) (?old @ ?new) = ?old"
    unfolding filter_append by (simp add: filter_True filter_False)
  then show ?thesis using split by simp
qed

lemma log_sorted: "sorted (map seqKey (map (pulledToChat atob reprint u) (lastN n log)))"
proof -
  have "sorted_wrt (\<lambda>a b. Number (pl_topicSeq a) < Number (pl_topicSeq b)) (lastN n log)"
    using log_order by (simp add: lastN_def sorted_wrt_drop)
  then show ?thesis
    by (simp add: sorted_wrt_map seqKey_def) (auto elim: sorted_wrt_mono_rel [rotated])
qed

lemma log_fresh:
  fixes atob reprint u
  assumes "k < length log"
  defines "chat \<equiv> pulledToChat atob reprint u"
  shows "freshMessages (map chat (lastN k log)) (map chat (lastN 20 (take (length log - k) log))) =
    map chat (lastN 20 (take (length log - k) log))"
proof -
  let ?old = "take (length log - k) log" and ?new = "lastN k log"
  have split: "?old @ ?new = log" by (simp add: lastN_def)
  have "sorted_wrt (\<lambda>a b. Number (pl_topicSeq a) < Number (pl_topicSeq b)) (?old @ ?new)"
    unfolding split by (rule log_order)
  then have order: "\<forall>a \<in> set ?old. \<forall>b \<in> set ?new. Number (pl_topicSeq a) < Number (pl_topicSeq b)"
    unfolding sorted_wrt_append by blast
  have "distinct (map (\<lambda>m. m_clientMsgId (chat m)) (?old @ ?new))"
    unfolding split chat_def by (rule log_ids)
  then have ids: "\<forall>a \<in> set ?old. m_clientMsgId (chat a) \<notin> m_clientMsgId ` chat ` set ?new"
    unfolding map_append distinct_append by (auto simp: image_iff)
  have seqs: "set (List.map_filter seqOf (map chat ?new)) = (\<lambda>m. Number (pl_topicSeq m)) ` set ?new"
    using set_seqs [of "map chat ?new"] by (auto simp: seqs_def chat_def)
  show ?thesis
    unfolding freshMessages_def Let_def
  proof (rule filter_True, rule ballI)
    fix x assume "x \<in> set (map chat (lastN 20 ?old))"
    then obtain m where m: "x = chat m" "m \<in> set ?old" using set_lastN [of 20 ?old] by auto
    have "Number (pl_topicSeq m) \<notin> (\<lambda>m. Number (pl_topicSeq m)) ` set ?new" using order m(2) by fastforce
    moreover have "m_clientMsgId (chat m) \<notin> set (filter (\<lambda>i. i \<noteq> []) (map m_clientMsgId (map chat ?new)))"
      using ids m(2) by auto
    ultimately show "(case seqOf x of None \<Rightarrow> True | Some q \<Rightarrow> q \<notin> set (List.map_filter seqOf (map chat ?new))) \<and>
        m_clientMsgId x \<notin> set (filter (\<lambda>i. i \<noteq> []) (map m_clientMsgId (map chat ?new)))"
      unfolding seqs m(1) by (simp add: chat_def)
  qed
qed

lemma olderPage_shows:
  assumes "topic \<noteq> []" and "0 < k"
    and "showing topic (map (pulledToChat atob reprint (Some (u_userId u))) (lastN k log)) (k < length log) s"
  shows "showing topic (map (pulledToChat atob reprint (Some (u_userId u))) (lastN (k + 20) log)) (k + 20 < length log)
    (olderPage atob reprint pull topic u s)"
proof -
  let ?chat = "pulledToChat atob reprint (Some (u_userId u))"
  obtain c where c: "map_of (conversations (cp_store s)) topic = Some c" "c_messages c = map ?chat (lastN k log)"
    "c_hasMore c = (k < length log)" "\<not> c_isLoading c" "\<not> cp_loadingMore s"
    using assms(3) by (auto simp: showing_def split: option.splits)
  show ?thesis
  proof (cases "k < length log")
    case False
    then have "loadMoreBound topic s = None" using c by (simp add: loadMoreBound_def)
    with False assms(3) show ?thesis by (simp add: olderPage_def lastN_all)
  next
    case True
    let ?e = "Number (pl_topicSeq (hd (lastN k log)))" and ?old = "take (length log - k) log"
    have ne: "lastN k log \<noteq> []" using True assms(2) by (simp add: lastN_def)
    then have hd_log: "hd (lastN k log) \<in> set log" using set_lastN [of k log] by (meson hd_in_set subsetD)
    then have pos: "?e > 0" by (rule log_positive)
    have bound: "loadMoreBound topic s = Some ?e"
      using c True assms(1) ne pos by (cases "lastN k log") (simp_all add: loadMoreBound_def firstOf_def Let_def pulledToChat_def)
    have page: "pull ?e = \<lparr>pl_messages = lastN 20 ?old, pl_hasMore = length ?old > 20\<rparr>"
      using pull_before [OF hd_log] log_before [OF True assms(2)] by (simp add: Let_def)
    let ?ms = "map ?chat (lastN 20 ?old) @ map ?chat (lastN k log)"
    have "?ms = map ?chat (lastN (k + 20) log)" by (simp add: lastN_more)
    then have "sort_key seqKey ?ms = ?ms" using log_sorted by (simp only: sort_key_id_if_sorted)
    then show ?thesis
      using c bound page log_fresh [OF True, of atob reprint "Some (u_userId u)"] True
      by (simp add: olderPage_def loadMore_def loadMoreReply_def showing_def onStore_def effect_def prependMessages_def
          ensureConversation_def Let_def lastN_more [of k 20] less_diff_conv add.commute)
  qed
qed

lemma history_pages:
  assumes "topic \<noteq> []" and "topic \<notin> cp_loaded s" and "topic \<notin> cp_inFlight s" and "\<not> cp_loadingMore s"
  shows "showing topic (map (pulledToChat atob reprint (Some (u_userId u))) (lastN (20 * (n + 1)) log)) (20 * (n + 1) < length log)
    ((olderPage atob reprint pull topic u ^^ n) (openHistory atob reprint pull topic u s))"
proof (induction n)
  case 0
  then show ?case using openHistory_shows [OF assms, of atob reprint u pull] by (simp add: pull_latest)
next
  case (Suc n)
  show ?case using olderPage_shows [OF assms(1) _ Suc] by (simp add: add.commute)
qed

end


section \<open>The server of the repository is such a server\<close>

definition serverPull :: "(pullMessageGo \<Rightarrow> pulledMessage) \<Rightarrow> mongo \<Rightarrow> int \<Rightarrow> jsstring \<Rightarrow> int \<Rightarrow> pullReply" where
  "serverPull json db userID topic endSeq =
     (let r = PullMessages db userID topic 0 20 (word_of_int endSeq)
      in \<lparr>pl_messages = map json (pr_Messages r), pl_hasMore = pr_HasMore r\<rparr>)"

lemma showNum_key: "takeWhile isDigit (showNum (JStr (uint q)) @ js ''-'' @ s) = showNat (unat q)"
proof -
  have "showNum (JStr (uint q)) = showNat (unat q)" by (simp add: showInt_def)
  then show ?thesis using takeWhile_showNat [of 45 "unat q" s] by (simp add: js_def isDigit_def del: showNum.simps)
qed

context message_store
begin

lemma topicLog_order: "sorted_wrt (\<lambda>a b. im_TopicSeq a < im_TopicSeq b) (topicLog inboxRows messageRows mentionRows userID topic)"
proof -
  have strict: "sorted_wrt (\<lambda>a b. k a < k b) (sort_key k xs)" if "distinct (map k xs)" for k :: "'a \<Rightarrow> 64 word" and xs
    using that by (simp add: sorted_wrt_map [symmetric, where f = k] strict_sorted_iff distinct_sort_keys)
  have "distinct (map im_TopicSeq (filter (\<lambda>m. im_UserID m = userID \<and> im_Topic m = topic) rows))"
    if "distinct (map (\<lambda>m. ((im_UserID m, im_Topic m), im_TopicSeq m)) rows)" for rows
    using distinct_part [OF that, of "(userID, topic)" "\<lambda>m. True"] by simp
  note inbox = this [OF inbox_unique] and mention = this [OF mention_unique]
  have message: "distinct (map st_TopicSeq (filter (\<lambda>m. st_Topic m = topic) messageRows))"
    using distinct_part [OF topic_seq_unique, of topic "\<lambda>m. True"] by simp
  have "sorted_wrt (\<lambda>a b. im_TopicSeq a < im_TopicSeq b) (inboxLog inboxRows userID topic)"
    unfolding inboxLog_def by (rule strict [OF inbox])
  moreover have "sorted_wrt (\<lambda>a b. im_TopicSeq a < im_TopicSeq b) (groupLog messageRows mentionRows userID topic)"
    unfolding groupLog_def using message mention by (intro strict distinct_preferFirst) (simp_all add: o_def)
  ultimately show ?thesis by (cases "ParseTopicType topic") (simp_all add: topicLog_def)
qed

end

lemma serverPull_history:
  assumes "message_store db inboxRows messageRows mentionRows" and "proto_json json atob"
    and "ParseTopicType topic \<noteq> TopicTypeUnknown"
    and "\<forall>m \<in> set (topicLog inboxRows messageRows mentionRows userID topic). im_TopicSeq m > 0 \<and> safe (uint (im_TopicSeq m))"
  shows "history_server (map (\<lambda>m. json (inboxToPull m)) (topicLog inboxRows messageRows mentionRows userID topic))
    (serverPull json db userID topic)"
proof -
  let ?L = "topicLog inboxRows messageRows mentionRows userID topic" and ?json = "\<lambda>m. json (inboxToPull m)"
  have seq: "Number (pl_topicSeq (?json m)) = uint (im_TopicSeq m)" if "m \<in> set ?L" for m
    using that assms(4) by (simp add: proto_json.json_topicSeq [OF assms(2)] inboxToPull_def)
  note page = message_store.pull_page [OF assms(1,3), of 20 userID, simplified]
  show ?thesis
  proof
    show "sorted_wrt (\<lambda>a b. Number (pl_topicSeq a) < Number (pl_topicSeq b)) (map ?json ?L)"
      using message_store.topicLog_order [OF assms(1), of userID topic] seq
      by (simp add: sorted_wrt_map word_less_def sorted_wrt_iff_nth_less)
    show "Number (pl_topicSeq m) > 0" if "m \<in> set (map ?json ?L)" for m
      using that seq assms(4) by (auto simp: word_less_def)
    show "distinct (map (\<lambda>m. m_clientMsgId (pulledToChat at re u m)) (map ?json ?L))" for at re u
    proof -
      have "\<not> strTruthy (pl_clientMsgId (?json m))" for m
        by (rule proto_json.json_clientMsgId [OF assms(2)]) (simp add: inboxToPull_def)
      then have key: "takeWhile isDigit (m_clientMsgId (pulledToChat at re u (?json m))) = showNat (unat (im_TopicSeq m))" for m
        using showNum_key by (simp add: pulledToChat_def proto_json.json_topicSeq [OF assms(2)] inboxToPull_def del: showNum.simps)
      have "distinct (map im_TopicSeq ?L)"
        using message_store.topicLog_order [OF assms(1), of userID topic] strict_sorted_iff [of "map im_TopicSeq ?L"]
        by (simp add: sorted_wrt_map)
      then have "distinct (map (\<lambda>m. showNat (unat (im_TopicSeq m))) ?L)"
        by (simp add: distinct_map inj_on_def word_unat_eq_iff)
      then have "distinct (map (takeWhile isDigit) (map (\<lambda>m. m_clientMsgId (pulledToChat at re u m)) (map ?json ?L)))"
        by (simp add: o_def key)
      then show ?thesis using distinct_map by blast
    qed
    show "serverPull json db userID topic 0 = \<lparr>pl_messages = lastN 20 (map ?json ?L), pl_hasMore = length (map ?json ?L) > 20\<rparr>"
      using page [of 0] by (simp add: serverPull_def Let_def upTo_def lastN_def drop_map)
    fix m assume "m \<in> set (map ?json ?L)"
    then obtain x where x: "m = ?json x" "x \<in> set ?L" by auto
    have up: "filter (\<lambda>y. Number (pl_topicSeq y) < uint (im_TopicSeq x)) (map ?json ?L) = map ?json (upTo (im_TopicSeq x) ?L)"
      using seq x(2) assms(4) by (simp add: filter_map upTo_def o_def word_less_def cong: filter_cong)
    show "serverPull json db userID topic (Number (pl_topicSeq m)) =
      (let older = filter (\<lambda>x. Number (pl_topicSeq x) < Number (pl_topicSeq m)) (map ?json ?L) in
       \<lparr>pl_messages = lastN 20 older, pl_hasMore = length older > 20\<rparr>)"
      unfolding x(1) seq [OF x(2)] up using page [of "im_TopicSeq x"] by (simp add: serverPull_def Let_def lastN_def drop_map)
  qed
qed


lemmas sampleServer_store = sampleRows.rows.message_store_axioms

lemma sampleLog:
  "topicLog [] [sampleStored 2 True, sampleStored 7 False] [] 5 (js ''grp_1'') =
     [groupRow 5 (sampleStored 2 True), groupRow 5 (sampleStored 7 False)]"
  "ParseTopicType (js ''grp_1'') = TopicTypeGroup"
  "\<forall>m \<in> set (topicLog [] [sampleStored 2 True, sampleStored 7 False] [] 5 (js ''grp_1'')). im_TopicSeq m > 0 \<and> safe (uint (im_TopicSeq m))"
  by (simp_all add: topicLog_def ParseTopicType_def startsWith_def js_def groupLog_def preferFirst_def sampleStored_def groupRow_def safe_def)

interpretation sampleServer: history_server
    "map (\<lambda>m. protoJson (inboxToPull m)) (topicLog [] [sampleStored 2 True, sampleStored 7 False] [] 5 (js ''grp_1''))"
    "serverPull protoJson (rowsDb [] [sampleStored 2 True, sampleStored 7 False] []) 5 (js ''grp_1'')"
  by (rule serverPull_history [OF sampleServer_store pjson.proto_json_axioms _ sampleLog(3)]) (simp add: sampleLog(2))

lemma pulled_text:
  assumes "proto_json json atob"
  shows "im_MsgType m = 1 \<Longrightarrow> m_content (pulledToChat atob reprint u (json (inboxToPull m))) = TextDecoder_decode (im_Content m)"
    and "m_status (pulledToChat atob reprint u (json (inboxToPull m))) = Recalled \<longleftrightarrow> im_Recalled m"
proof -
  obtain c where "pl_content (json (inboxToPull m)) = CString c" "atob c = Some (im_Content m)"
    using proto_json.json_content [OF assms, of "inboxToPull m"] by (auto simp: inboxToPull_def)
  then show "im_MsgType m = 1 \<Longrightarrow> m_content (pulledToChat atob reprint u (json (inboxToPull m))) = TextDecoder_decode (im_Content m)"
    by (simp add: pulledToChat_def decodeMessageContent_def proto_json.json_msgType [OF assms] inboxToPull_def)
  show "m_status (pulledToChat atob reprint u (json (inboxToPull m))) = Recalled \<longleftrightarrow> im_Recalled m"
    using proto_json.json_recalled [OF assms, of "inboxToPull m"] by (simp add: pulledToChat_def inboxToPull_def)
qed

section \<open>Properties\<close>

text \<open>
  C2. Paging shows the log of the server: after a topic is opened and \<open>n\<close> older pages are asked for, the page
  shows the last \<open>20 (n + 1)\<close> messages of the user's log in order, each once, with the text that was stored, and offers
  older ones exactly if there are more. So after finitely many requests it shows the whole log and asks
  no more. The server is \<open>PullMessages\<close> on a message store; messages are numbered from 1 on and below \<open>2^53\<close>, and no message
  arrives meanwhile.
\<close>

theorem history_loads:
  assumes "message_store db inboxRows messageRows mentionRows" and "proto_json json atob"
    and "ParseTopicType topic \<noteq> TopicTypeUnknown"
    and "\<forall>m \<in> set (topicLog inboxRows messageRows mentionRows userID topic). im_TopicSeq m > 0 \<and> safe (uint (im_TopicSeq m))"
    and "topic \<notin> cp_loaded s" and "topic \<notin> cp_inFlight s" and "\<not> cp_loadingMore s"
  shows "let log = topicLog inboxRows messageRows mentionRows userID topic;
             chat = (\<lambda>m. pulledToChat atob reprint (Some (u_userId u)) (json (inboxToPull m)));
             pull = serverPull json db userID topic;
             s' = (olderPage atob reprint pull topic u ^^ n) (openHistory atob reprint pull topic u s)
         in showing topic (map chat (lastN (20 * (n + 1)) log)) (20 * (n + 1) < length log) s' \<and>
            (\<forall>m \<in> set log. im_MsgType m = 1 \<longrightarrow> m_content (chat m) = TextDecoder_decode (im_Content m)) \<and>
            (length log \<le> 20 * (n + 1) \<longrightarrow> messagesOf (cp_store s') topic = map chat log \<and> loadMore topic s' = s')"
proof -
  have "topic \<noteq> []" using assms(3) by (auto simp: ParseTopicType_def startsWith_def js_def)
  note pages = history_server.history_pages [OF serverPull_history [OF assms(1-4)] this assms(5-7)]
  show ?thesis
    unfolding Let_def
  proof (intro conjI impI)
    let ?log = "topicLog inboxRows messageRows mentionRows userID topic"
    let ?chat = "\<lambda>m. pulledToChat atob reprint (Some (u_userId u)) (json (inboxToPull m))"
    let ?s = "(olderPage atob reprint (serverPull json db userID topic) topic u ^^ n)
      (openHistory atob reprint (serverPull json db userID topic) topic u s)"
    show shown: "showing topic (map ?chat (lastN (20 * (n + 1)) ?log)) (20 * (n + 1) < length ?log) ?s"
      using pages [of atob reprint u n] by (simp add: lastN_def drop_map o_def)
    assume "length ?log \<le> 20 * (n + 1)"
    with shown have all: "showing topic (map ?chat ?log) False ?s" by (simp add: lastN_all)
    then show "messagesOf (cp_store ?s) topic = map ?chat ?log"
      by (simp add: showing_def messagesOf_def split: option.splits)
    from all show "loadMore topic ?s = ?s"
      by (simp add: showing_def loadMore_def loadMoreBound_def split: option.splits)
  qed (use pulled_text(1) [OF assms(2)] in simp)
qed

definition samplePage :: convPage where
  "samplePage = \<lparr>cp_store = initialState, cp_client = openedState, cp_loaded = {}, cp_inFlight = {},
     cp_loadingMore = False, cp_effects = []\<rparr>"

definition sampleUser :: user where
  "sampleUser = \<lparr>u_userId = JNum 5, u_username = js ''amy''\<rparr>"

theorem history_loads_witness:
  "map m_topicSeq (messagesOf (cp_store (openHistory atobBytes Some
      (serverPull protoJson (rowsDb [] [sampleStored 2 True, sampleStored 7 False] []) 5 (js ''grp_1''))
      (js ''grp_1'') sampleUser samplePage)) (js ''grp_1'')) = [Some (JStr 2), Some (JStr 7)]"
proof -
  note log = sampleLog(1)
  note sampleLog(3)
  moreover have "ParseTopicType (js ''grp_1'') \<noteq> TopicTypeUnknown" using sampleLog(2) by simp
  moreover have "js ''grp_1'' \<notin> cp_loaded samplePage" "js ''grp_1'' \<notin> cp_inFlight samplePage" "\<not> cp_loadingMore samplePage"
    by (simp_all add: samplePage_def)
  ultimately have "messagesOf (cp_store (openHistory atobBytes Some
      (serverPull protoJson (rowsDb [] [sampleStored 2 True, sampleStored 7 False] []) 5 (js ''grp_1''))
      (js ''grp_1'') sampleUser samplePage)) (js ''grp_1'') =
      map (\<lambda>m. pulledToChat atobBytes Some (Some (u_userId sampleUser)) (protoJson (inboxToPull m)))
        [groupRow 5 (sampleStored 2 True), groupRow 5 (sampleStored 7 False)]"
    using history_loads [OF sampleServer_store pjson.proto_json_axioms, of "js ''grp_1''" 5 samplePage Some sampleUser 0]
    unfolding Let_def log by simp
  then show ?thesis
    by (simp add: pulledToChat_def protoJson_def inboxToPull_def sampleStored_def groupRow_def)
qed


section \<open>The life of a message the page sends\<close>

lemma showSent_messages:
  assumes "m_topicSeq msg = None" and "\<forall>m \<in> set (messagesOf (cp_store s) topic). m_clientMsgId m \<noteq> m_clientMsgId msg"
  shows "messagesOf (cp_store (showSent topic msg ok s)) topic = messagesOf (cp_store s) topic @ [msg]"
    and "cp_client (showSent topic msg ok s) = cp_client s"
    and "cp_effects (showSent topic msg ok s) = cp_effects s @ (if ok then [] else [ErrorToast failedToast])"
proof -
  have "\<not> list_ex (sameMessage msg) (messagesOf (cp_store s) topic)"
    using assms by (auto simp: list_ex_iff sameMessage_def seqOf_def)
  moreover have "insertBySeq ms msg = ms @ [msg]" for ms using assms(1) by (simp add: insertBySeq_def seqOf_def)
  ultimately show "messagesOf (cp_store (showSent topic msg ok s)) topic = messagesOf (cp_store s) topic @ [msg]"
    by (simp add: showSent_def onStore_def effect_def messagesOf_appendMessage Let_def)
qed (simp_all add: showSent_def onStore_def effect_def Let_def)

lemma updateMessageStatus_messages:
  assumes "messagesOf S t = xs @ m # ys" and "m_clientMsgId m = cid" and "\<forall>x \<in> set xs. m_clientMsgId x \<noteq> cid"
  shows "messagesOf (updateMessageStatus t cid patch S) t = xs @ mergeMsg m patch # ys"
proof -
  obtain c where c: "map_of (conversations S) t = Some c" "c_messages c = xs @ m # ys"
    using assms(1) by (auto simp: messagesOf_def split: option.splits)
  have "findIndex (\<lambda>x. m_clientMsgId x = cid) (c_messages c) = Some (length xs)"
    using c(2) assms(2,3) by (simp add: findIndex_first)
  with c show ?thesis by (simp add: updateMessageStatus_def nth_append list_update_append)
qed

lemma pendingMessage_status: "m_status (pendingMessage t u str k cid now True) = Sending" "m_status (pendingMessage t u str k cid now False) = Failed"
  by (simp_all add: pendingMessage_def)

lemma loadLatestReply_messages:
  "messagesOf (cp_store (loadLatestReply atob reprint topic v (Inr r) s)) topic =
     map (pulledToChat atob reprint (Some (u_userId v))) (pl_messages r)"
proof -
  let ?p = "(noPatch topic)\<lparr>p_messages := Some (map (pulledToChat atob reprint (Some (u_userId v))) (pl_messages r)), p_hasMore := Some (pl_hasMore r)\<rparr>"
  have "map_of (conversations (upsertConversation ?p (cp_store s))) topic = Some (mergeConv (snd (ensureConversation (conversations (cp_store s)) topic)) ?p)"
    using upsertConversation_get [of ?p "cp_store s"] by (simp add: noPatch_def)
  then show ?thesis
    by (simp add: loadLatestReply_def onStore_def messagesOf_def setMessagesLoading_get ensureConversation_known mergeConv_def Let_def)
qed

lemma sendText_connected: "fst (sendText topic str cid ids c) = isConnected c"
  by (simp add: sendText_def sendMessage_rt_def)

text \<open>
  C15. A message typed in the box goes through its states: it is handed to the client with the ids of the members it
  mentions and shown at once at the end of the topic, as "sending" on an open connection and as "failed" with a toast
  without one. The receipt of the server makes it "sent" with the server's number, in place. A
  failed one that is retried on an open connection is "sending" again, in place.
\<close>

theorem message_lifecycle:
  assumes "topic \<noteq> []" and "trim str \<noteq> []" and "\<forall>m \<in> set (messagesOf (cp_store s) topic). m_clientMsgId m \<noteq> cid"
    and "s' = sendTextWithMentions lower topic u cid now str s" and "online = isConnected (cp_client s)"
    and "msg = pendingMessage topic u (trim str) 1 cid now online"
    and "srp_topic r = topic" and "srp_clientMsgId r = cid"
  shows "messagesOf (cp_store s') topic = messagesOf (cp_store s) topic @ [msg] \<and>
         cp_client s' = snd (sendText topic (trim str) cid
           (case extractMentionIds lower str (mentionMembers topic s) of [] \<Rightarrow> None | ids \<Rightarrow> Some (map word_of_int ids)) (cp_client s)) \<and>
         cp_effects s' = cp_effects s @ (if online then [] else [ErrorToast failedToast]) \<and>
         m_status msg = (if online then Sending else Failed) \<and>
         messagesOf (fst (handlers v (EvSendReceipt r) (cp_store s'))) topic =
           messagesOf (cp_store s) topic @
             [msg\<lparr>m_msgId := Some (JNum (srp_msgId r)), m_topicSeq := Some (JNum (srp_topicSeq r)), m_status := Sent\<rparr>] \<and>
         (\<not> online \<and> isConnected c \<longrightarrow>
           messagesOf (cp_store (retryMessage topic msg (s'\<lparr>cp_client := c\<rparr>))) topic =
             messagesOf (cp_store s) topic @ [msg\<lparr>m_status := Sending\<rparr>])"
proof -
  let ?ids = "extractMentionIds lower str (mentionMembers topic s)"
  let ?sent = "sendText topic (trim str) cid (case ?ids of [] \<Rightarrow> None | ids \<Rightarrow> Some (map word_of_int ids)) (cp_client s)"
  have s': "s' = showSent topic msg online (s\<lparr>cp_client := snd ?sent\<rparr>)"
    using assms(1,2,4-6) sendText_connected [of topic "trim str" cid _ "cp_client s"]
    by (cases ?ids) (simp_all add: sendTextWithMentions_def sendMessage_def case_prod_beta)
  have msg: "m_topicSeq msg = None" "m_clientMsgId msg = cid" "m_status msg = (if online then Sending else Failed)"
    using assms(6) by (simp_all add: pendingMessage_def)
  note shown = showSent_messages [of msg "s\<lparr>cp_client := snd ?sent\<rparr>" topic online, folded s', simplified, OF msg(1)]
  have ms: "messagesOf (cp_store s') topic = messagesOf (cp_store s) topic @ [msg]" using shown(1) assms(3) msg(2) by simp
  have "messagesOf (updateMessageStatus topic cid patch (cp_store s')) topic = messagesOf (cp_store s) topic @ [mergeMsg msg patch]" for patch
    using updateMessageStatus_messages [OF ms msg(2) assms(3)] by simp
  note update = this
  have "messagesOf (fst (handlers v (EvSendReceipt r) (cp_store s'))) topic = messagesOf (cp_store s) topic @
      [msg\<lparr>m_msgId := Some (JNum (srp_msgId r)), m_topicSeq := Some (JNum (srp_topicSeq r)), m_status := Sent\<rparr>]"
    using update assms(7,8) by (simp add: mergeMsg_def noMsgPatch_def)
  moreover have "messagesOf (cp_store (retryMessage topic msg (s'\<lparr>cp_client := c\<rparr>))) topic =
      messagesOf (cp_store s) topic @ [msg\<lparr>m_status := Sending\<rparr>]" if "\<not> online" "isConnected c"
    using update msg that assms(1)
    by (simp add: retryMessage_def onStore_def sendMessage_rt_def statusPatch_def Let_def mergeMsg_def noMsgPatch_def)
  ultimately show ?thesis using ms shown(2,3) assms(3) msg by simp
qed

text \<open>
  C37. A retried message mentions nobody: the frame a retry sends has no mentioned ids, whatever the text says.
\<close>

theorem retry_drops_mentions:
  assumes "topic \<noteq> []" and "m_status msg = Failed" and "isConnected (cp_client s)"
  shows "\<exists>w p q. rc_log (cp_client (retryMessage topic msg s)) = rc_log (cp_client s) @ [SendFrame w p] \<and>
           pk_sendReq p = Some q \<and> sq_content q = Some (TextEncoder_encode (m_content msg)) \<and> sq_mentionedUserIds q = None"
proof -
  obtain w where w: "rc_ws (cp_client s) = Some w" "stateOf w (cp_client s) = Some OPEN"
    using assms(3) by (auto simp: isConnected_def split: option.splits)
  then show ?thesis
    using assms
    by (simp add: retryMessage_def onStore_def sendMessage_rt_def sendNext_def nextSeq_def send_def isConnected_def stateOf_def logAction_def Let_def
        SendMessageRequest_new_def del: of_nat_Suc)
qed

text \<open>
  C38. The first page replaces what is shown: a message sent while the history is being loaded is gone from
  the list once the reply is there.
\<close>

theorem load_drops_sent:
  assumes "topic \<noteq> []" and "trim str \<noteq> []" and "isConnected (cp_client s)"
    and "\<forall>m \<in> set (messagesOf (cp_store s) topic). m_clientMsgId m \<noteq> cid"
    and "s1 = sendMessage topic u cid now str ids s" and "s2 = loadLatestReply atob reprint topic v (Inr r) s1"
  shows "last (messagesOf (cp_store s1) topic) = pendingMessage topic u (trim str) 1 cid now True \<and>
         messagesOf (cp_store s2) topic = map (pulledToChat atob reprint (Some (u_userId v))) (pl_messages r) \<and>
         pendingMessage topic u (trim str) 1 cid now True \<notin> set (messagesOf (cp_store s2) topic)"
proof -
  let ?msg = "pendingMessage topic u (trim str) 1 cid now True"
  have "messagesOf (cp_store s1) topic = messagesOf (cp_store s) topic @ [?msg]"
    using assms(1-5) sendText_connected showSent_messages(1) [of ?msg "s\<lparr>cp_client := c\<rparr>" topic True for c]
    by (simp add: sendMessage_def case_prod_beta pendingMessage_def)
  moreover have "messagesOf (cp_store s2) topic = map (pulledToChat atob reprint (Some (u_userId v))) (pl_messages r)"
    unfolding assms(6) by (rule loadLatestReply_messages)
  moreover have "m_status (pulledToChat atob reprint w m) \<noteq> Sending" for w m by (simp add: pulledToChat_def)
  then have "?msg \<noteq> pulledToChat atob reprint w m" for w m by (metis (no_types) pendingMessage_status(1))
  ultimately show ?thesis by auto
qed

text \<open>Witnesses: the page of the open connection, and one without a connection.\<close>

lemma samplePage_facts: "isConnected (cp_client samplePage)" "messagesOf (cp_store samplePage) t = []"
    "\<not> isConnected (openedState\<lparr>rc_ws := None\<rparr>)"
  by (simp_all add: samplePage_def isConnected_def stateOf_def openedState_def messagesOf_def initialState_def)

theorem message_lifecycle_witness:
  "let msg = pendingMessage (js ''t'') (Some sampleUser) (js ''hi'') 1 (js ''c'') 9 False;
       s' = sendTextWithMentions (\<lambda>x. x) (js ''t'') (Some sampleUser) (js ''c'') 9 (js ''hi '') (samplePage\<lparr>cp_client := openedState\<lparr>rc_ws := None\<rparr>\<rparr>)
   in messagesOf (cp_store s') (js ''t'') = [msg] \<and> m_status msg = Failed \<and>
      messagesOf (cp_store (retryMessage (js ''t'') msg (s'\<lparr>cp_client := openedState\<rparr>))) (js ''t'') = [msg\<lparr>m_status := Sending\<rparr>]"
proof -
  let ?s = "samplePage\<lparr>cp_client := openedState\<lparr>rc_ws := None\<rparr>\<rparr>"
  have "trim (js ''hi '') = js ''hi''" by (simp add: js_eval)
  moreover have "js ''t'' \<noteq> []" "js ''hi'' \<noteq> []" by (simp_all add: js_def)
  moreover have "messagesOf (cp_store ?s) (js ''t'') = []" "\<not> isConnected (cp_client ?s)" using samplePage_facts by simp_all
  moreover have "isConnected openedState" using samplePage_facts by (simp add: samplePage_def)
  ultimately show ?thesis
    using message_lifecycle [of "js ''t''" "js ''hi ''" ?s "js ''c''" _ "\<lambda>x. x" "Some sampleUser" 9 _ _
      "\<lparr>srp_clientMsgId = js ''c'', srp_msgId = 1, srp_topic = js ''t'', srp_topicSeq = 1, srp_timestamp = 0\<rparr>" None openedState,
      OF _ _ _ refl refl refl]
    by (simp add: Let_def)
qed

theorem retry_drops_mentions_witness:
  "\<exists>w p q. rc_log (cp_client (retryMessage (js ''t'') (pendingMessage (js ''t'') None (js ''@bob'') 1 (js ''c'') 9 False) samplePage)) =
     rc_log openedState @ [SendFrame w p] \<and> pk_sendReq p = Some q \<and> sq_mentionedUserIds q = None"
proof -
  have "js ''t'' \<noteq> []" and client: "cp_client samplePage = openedState" by (simp_all add: js_def samplePage_def)
  from retry_drops_mentions [OF this(1) pendingMessage_status(2) [of "js ''t''" None "js ''@bob''" 1 "js ''c''" 9] samplePage_facts(1)]
  show ?thesis unfolding client by blast
qed

theorem load_drops_sent_witness:
  "messagesOf (cp_store (loadLatestReply atobBytes Some (js ''t'') sampleUser (Inr \<lparr>pl_messages = [], pl_hasMore = False\<rparr>)
     (sendMessage (js ''t'') None (js ''c'') 9 (js ''hi'') [] samplePage))) (js ''t'') = []"
proof -
  have "js ''t'' \<noteq> []" "trim (js ''hi'') \<noteq> []" by (simp_all add: js_eval)
  from load_drops_sent [OF this samplePage_facts(1) _ refl refl] samplePage_facts(2) show ?thesis by simp
qed

text \<open>A failed load is final: after an error the topic counts as loaded, and nothing is asked for again.\<close>

lemma failed_load_sticks:
  "loadLatest topic u (loadLatestReply atob reprint topic v (Inl err) s) = loadLatestReply atob reprint topic v (Inl err) s"
  by (simp add: loadLatest_def loadLatestReply_def Let_def)

end
