(* ===== verification/Spec2Isabelle.thy ===== *)
theory Spec2Isabelle
  imports Topic Types Chat_Store Pb_Runtime Proto_Progress Realtime_Session Handlers Message_Input Conversation
begin

text \<open>
  Verification of the web client of Nonoka IM (\<^verbatim>\<open>src/web/app\<close>) and of the history service behind it.

  \<^bold>\<open>The program.\<close> The client keeps one WebSocket to a gateway (\<^verbatim>\<open>lib/realtime.ts\<close>) over which
  Protobuf packets travel (\<^verbatim>\<open>lib/proto/im.js\<close>, generated, on the package protobufjs). Events of that client
  reach the page through a table of handlers (\<^verbatim>\<open>hooks/useRealtime.ts\<close>), which change the chat store
  (\<^verbatim>\<open>stores/chatStore.ts\<close>); every view renders the store. The open conversation loads its history over REST, sends,
  retries and recalls (\<^verbatim>\<open>hooks/useConversation.ts\<close>); the message box completes mentions
  (\<^verbatim>\<open>components/chat/MessageInput.tsx\<close>, \<^verbatim>\<open>lib/mentions.ts\<close>). History pages come from \<open>PullMessages\<close> of the server
  (\<^verbatim>\<open>src/internal/service/message.go\<close>) and the queries of \<^verbatim>\<open>src/internal/msgworker/storage.go\<close>.

  \<^bold>\<open>Conventions.\<close> A JavaScript string is the list of its UTF-16 code units; a number that REST delivers as
  a decimal string and the wire as a number is a \<open>jsnum\<close>, with the rounding above \<open>2^53\<close> and the comparison
  of strings by code unit written out; a \<open>Map\<close> is an association list in insertion order; a 64-bit integer of
  the wire is a \<open>64 word\<close>. State is passed explicitly; an asynchronous function is cut at its \<open>await\<close>. What throws
  returns a sum or an option.

  \<^bold>\<open>Theories.\<close>
  \<^item> \<open>JS_Prelude\<close>: strings, numbers, times, maps and the shared lemmas; the contract \<open>keyed_map\<close> of a map.
  \<^item> \<open>Types\<close>: the interfaces of \<^verbatim>\<open>types/index.ts\<close>.
  \<^item> \<open>Topic\<close>: \<^verbatim>\<open>lib/topic.ts\<close>. For numeric ids the topic of a pair is the canonical one, and each user finds the
    other in it; for string ids it may differ.
  \<^item> \<open>Chat_Messages\<close>, \<open>Chat_Store\<close>: \<^verbatim>\<open>stores/chatStore.ts\<close>, every action. The store stays well formed under all
    sequences of actions; confirmed messages end up ordered whatever the order of arrival (\<open>arrival_log\<close>); pages merge
    without loss; a refresh keeps the history; where pending messages break the order.
  \<^item> \<open>Wire\<close>, \<open>Proto_Messages\<close>, \<open>Proto_Packet\<close>, \<open>Proto_Progress\<close>: the codecs of the messages the client exchanges and of the
    packet with its oneof payload. protobufjs is the record \<open>runtime\<close>; the locales \<open>wire_runtime\<close> and \<open>wire_reader\<close> state
    what the codecs rely on. Encoding is total and decoding inverts it; a decoded packet has one payload at most;
    decoding ends on every input.
  \<^item> \<open>Utf8\<close>, \<open>Pb_Runtime\<close>: \<open>TextEncoder\<close> and \<open>TextDecoder\<close>, and a runtime with the wire format written out that
    satisfies both locales.
  \<^item> \<open>Realtime_Client\<close>: the class \<open>RealtimeClient\<close>, one definition per method, listener and timer, with the sockets,
    timers and promises of the browser as state. \<open>Realtime\<close>: the events as a step relation and its invariant over all
    reachable states. \<open>Realtime_Properties\<close>, \<open>Realtime_Wire\<close>, \<open>Realtime_Session\<close>: timers and requests
    agree, a lost connection is reopened, an authentication is settled, the backoff goes on after failed gateway calls and closed
    sockets and is bounded, frames are numbered, disconnect leaves nothing that acts, a token is refreshed once per connect; text arrives as typed and
    a push is delivered and acknowledged; and where a socket error, a disconnect during the gateway call
    and an id above \<open>2^53\<close> that no double holds go wrong.
  \<^item> \<open>Handlers\<close>: \<^verbatim>\<open>hooks/useRealtime.ts\<close>. From the bytes of a push to the message shown; every event keeps the store
    typed; unread counters.
  \<^item> \<open>Mentions\<close>, \<open>Message_Input\<close>: \<^verbatim>\<open>lib/mentions.ts\<close> and the message box. What is highlighted is what is notified, against a
    reference by position; a chosen member is mentioned; the two ways in which the list of members misbehaves.
  \<^item> \<open>Pages\<close>, \<open>Pull_Service\<close>, \<open>Rest_Json\<close>: pages from the end of a log, the pull service with MongoDB as a parameter
    (\<open>unique_rows\<close>, \<open>message_store\<close>), and the JSON of a pulled message (\<open>proto_json\<close>). A page of two merged
    collections is the page of the merged log; group pages forget recalls.
  \<^item> \<open>Conversation\<close>: \<^verbatim>\<open>hooks/useConversation.ts\<close>. A server with a log is the locale \<open>history_server\<close>; paging shows the log, and
    the pull service is such a server. The life of a sent message, and what loading and retrying lose.

  \<^bold>\<open>Bounds and termination.\<close> No definition uses fuel. The decode loops recurse on the unread bytes and return
  \<open>Diverges\<close> if a reader does not advance, which \<open>Proto_Progress\<close> excludes for every input; the loops over a text recurse on
  the distance to its end. Sequence numbers are assumed below \<open>2^53\<close> where the page computes with them, and
  packets below \<open>2^32\<close> bytes, the largest length the format can state.

  \<^bold>\<open>Not modelled.\<close> \<open>verify\<close>, \<open>fromObject\<close>, \<open>toObject\<close>, \<open>toJSON\<close>, the delimited forms and the services of the
  generated code, and its messages for other services: the client calls none of them. The HTTP client of
  \<^verbatim>\<open>lib/api.ts\<close> with its shared token refresh, the authentication store and hook, the conversation list hook and
  presence: promises over \<open>fetch\<close> and local storage, of which the modelled parts see the results only. Media meta data
  (\<^verbatim>\<open>lib/media.ts\<close>): JSON and number formatting. Views, pages and widgets: mark-up. In the message box the emoji menu, the
  file pickers and its height. The checks of topic and access before a pull, and the rest of the Go services
  (gateway, workers, agents, SDK), which the client sees through bytes and replies.
\<close>

end
